(* ===== verification/JsPrelude.thy ===== *)
theory JsPrelude
  imports Main "HOL-Library.Multiset" "HOL-Library.Sublist"
begin

text \<open>
  Shared vocabulary of the development: the parts of the JavaScript language and standard
  library that the front end relies on (object literals and their inherited keys, string
  splitting and joining, decimal numerals, \<open>Array.prototype.sort\<close>), the generic lemmas on them,
  and three interfaces stated as locales: a comparator that orders by a key, a step function with
  an invariant, and a list of records identified by a key.

  Strings are \<open>char list\<close>; an optional or nullable field is an \<open>option\<close>; an object used as a
  dictionary is an association list in insertion order (the order in which \<open>Object.entries\<close>,
  \<open>Object.keys\<close> and \<open>Map\<close> enumerate, for keys that are not array indices).
\<close>

named_theorems js_simps \<open>rewrite rules for the JavaScript vocabulary\<close>
named_theorems js_inv \<open>invariant preservation facts\<close>

section \<open>Object literals\<close>

type_synonym 'v jsobj = "(string \<times> 'v) list"

text \<open>
  An object literal inherits from \<open>Object.prototype\<close>, so reading one of these keys from \<open>{}\<close>
  yields a function or object, which is truthy.
\<close>

definition proto_keys :: "string list" where
  "proto_keys = [''constructor'', ''__defineGetter__'', ''__defineSetter__'', ''hasOwnProperty'',
     ''__lookupGetter__'', ''__lookupSetter__'', ''isPrototypeOf'', ''propertyIsEnumerable'',
     ''toString'', ''valueOf'', ''__proto__'', ''toLocaleString'']"

text \<open>\<open>obj[k]\<close> in a condition, for an object all of whose own values are \<open>true\<close> (a flag set).\<close>

definition flag :: "string list \<Rightarrow> string \<Rightarrow> bool" where
  "flag ks k \<longleftrightarrow> k \<in> set ks \<or> k \<in> set proto_keys"

text \<open>\<open>obj[k] = v\<close>: an existing key keeps its position, a new key goes to the end.\<close>

fun obj_set :: "('k \<times> 'v) list \<Rightarrow> 'k \<Rightarrow> 'v \<Rightarrow> ('k \<times> 'v) list" where
  "obj_set [] k v = [(k, v)]"
| "obj_set ((k', v') # o') k v = (if k' = k then (k, v) # o' else (k', v') # obj_set o' k v)"

text \<open>\<open>delete obj[k]\<close>.\<close>

definition obj_del :: "('k \<times> 'v) list \<Rightarrow> 'k \<Rightarrow> ('k \<times> 'v) list" where
  "obj_del o' k = filter (\<lambda>e. fst e \<noteq> k) o'"

lemma map_of_obj_set [simp]: "map_of (obj_set o' k v) = (map_of o')(k \<mapsto> v)"
  by (induction o' k v rule: obj_set.induct) (auto simp: fun_eq_iff)

lemma keys_obj_set:
  "map fst (obj_set o' k v) = (if k \<in> fst ` set o' then map fst o' else map fst o' @ [k])"
  by (induction o' k v rule: obj_set.induct) auto

lemma distinct_obj_set [js_inv]: "distinct (map fst o') \<Longrightarrow> distinct (map fst (obj_set o' k v))"
  by (auto simp: keys_obj_set)

lemma set_keys_obj_set [simp]: "fst ` set (obj_set o' k v) = insert k (fst ` set o')"
  using arg_cong [OF keys_obj_set [of o' k v], of set] by (auto split: if_splits)

lemma map_of_obj_del [simp]: "map_of (obj_del o' k) = (map_of o')(k := None)"
  by (induction o') (auto simp: obj_del_def fun_eq_iff)

lemma distinct_obj_del [js_inv]: "distinct (map fst o') \<Longrightarrow> distinct (map fst (obj_del o' k))"
  unfolding obj_del_def by (induction o') auto

section \<open>Splitting and joining\<close>

fun split_on :: "'a \<Rightarrow> 'a list \<Rightarrow> 'a list list" where
  "split_on c [] = [[]]"
| "split_on c (x # xs) =
     (if x = c then [] # split_on c xs
      else (case split_on c xs of [] \<Rightarrow> [[x]] | p # ps \<Rightarrow> (x # p) # ps))"

fun join_with :: "'a list \<Rightarrow> 'a list list \<Rightarrow> 'a list" where
  "join_with sep [] = []"
| "join_with sep [p] = p"
| "join_with sep (p # q # ps) = p @ sep @ join_with sep (q # ps)"

lemma split_on_ne [simp]: "split_on c xs \<noteq> []"
  by (induction xs) (auto split: list.splits)

lemma split_on_no_sep: "p \<in> set (split_on c xs) \<Longrightarrow> c \<notin> set p"
  by (induction xs arbitrary: p) (auto split: list.splits if_splits)

lemma split_on_id: "c \<notin> set xs \<Longrightarrow> split_on c xs = [xs]"
  by (induction xs) auto

lemma split_on_append_sep:
  "c \<notin> set p \<Longrightarrow> split_on c (p @ c # xs) = p # split_on c xs"
  by (induction p) auto

lemma join_with_Cons: "ps \<noteq> [] \<Longrightarrow> join_with sep (p # ps) = p @ sep @ join_with sep ps"
  by (cases ps) auto

lemma join_split: "join_with [c] (split_on c xs) = xs"
proof (induction xs)
  case (Cons x xs)
  show ?case
  proof (cases "split_on c xs")
    case (Cons p ps)
    with Cons.IH show ?thesis
      by (cases ps) (auto simp: join_with_Cons)
  qed simp
qed simp

lemma split_join:
  "ps \<noteq> [] \<Longrightarrow> (\<And>p. p \<in> set ps \<Longrightarrow> c \<notin> set p) \<Longrightarrow> split_on c (join_with [c] ps) = ps"
proof (induction ps)
  case (Cons p ps)
  show ?case
  proof (cases "ps = []")
    case True
    with Cons.prems show ?thesis by (simp add: split_on_id)
  next
    case False
    with Cons show ?thesis by (simp add: join_with_Cons split_on_append_sep)
  qed
qed simp

lemma length_split_map [simp]: "map f (split_on c xs) \<noteq> []"
  by simp

section \<open>Decimal numerals\<close>

definition digit_char :: "nat \<Rightarrow> char" where
  "digit_char d = char_of (48 + d)"

definition is_digit :: "char \<Rightarrow> bool" where
  "is_digit c \<longleftrightarrow> (48::nat) \<le> of_char c \<and> of_char c \<le> (57::nat)"

definition digit_val :: "char \<Rightarrow> nat" where
  "digit_val c = of_char c - 48"

text \<open>\<open>String(n)\<close> for a natural number.\<close>

fun nat_str :: "nat \<Rightarrow> string" where
  "nat_str n = (if n < 10 then [digit_char n] else nat_str (n div 10) @ [digit_char (n mod 10)])"

declare nat_str.simps [simp del]

text \<open>\<open>String(i)\<close> for an integer.\<close>

definition int_str :: "int \<Rightarrow> string" where
  "int_str i = (if i < 0 then ''-'' @ nat_str (nat (- i)) else nat_str (nat i))"

definition digits_val :: "string \<Rightarrow> nat" where
  "digits_val s = foldl (\<lambda>n c. 10 * n + digit_val c) 0 s"

text \<open>\<open>parseInt(s, 10)\<close> without sign and leading blanks: the longest digit prefix, \<open>None\<close> for NaN.\<close>

definition parse_int :: "string \<Rightarrow> nat option" where
  "parse_int s = (case takeWhile is_digit s of [] \<Rightarrow> None | ds \<Rightarrow> Some (digits_val ds))"

text \<open>\<open>parseInt(s, 10)\<close>: leading blanks, an optional sign, the longest digit prefix.\<close>

definition is_blank :: "char \<Rightarrow> bool" where
  "is_blank c \<longleftrightarrow> (of_char c :: nat) \<in> {9, 10, 11, 12, 13, 32, 160}"

text \<open>\<open>s.trim()\<close>.\<close>

definition js_trim :: "string \<Rightarrow> string" where
  "js_trim s = rev (dropWhile is_blank (rev (dropWhile is_blank s)))"

definition js_parseInt :: "string \<Rightarrow> int option" where
  "js_parseInt s =
     (case dropWhile is_blank s of
        CHR ''-'' # t \<Rightarrow> map_option (\<lambda>n. - int n) (parse_int t)
      | CHR ''+'' # t \<Rightarrow> map_option int (parse_int t)
      | t \<Rightarrow> map_option int (parse_int t))"

lemma of_char_digit_char [simp]: "d < 10 \<Longrightarrow> of_char (digit_char d) = 48 + d"
  by (simp add: digit_char_def)

lemma is_digit_digit_char [simp]: "d < 10 \<Longrightarrow> is_digit (digit_char d)"
  by (simp add: is_digit_def)

lemma digit_val_digit_char [simp]: "d < 10 \<Longrightarrow> digit_val (digit_char d) = d"
  by (simp add: digit_val_def)

lemma nat_str_ne [simp]: "nat_str n \<noteq> []"
  by (subst nat_str.simps) simp

lemma nat_str_digits: "c \<in> set (nat_str n) \<Longrightarrow> is_digit c"
proof (induction n rule: nat_str.induct)
  case (1 n)
  show ?case
  proof (cases "n < 10")
    case True
    with "1.prems" show ?thesis by (simp add: nat_str.simps [of n])
  next
    case False
    with "1.prems" have "c \<in> set (nat_str (n div 10)) \<or> c = digit_char (n mod 10)"
      by (auto simp: nat_str.simps [of n])
    with False "1.IH" show ?thesis by auto
  qed
qed

lemma digits_val_snoc: "digits_val (s @ [c]) = 10 * digits_val s + digit_val c"
  by (simp add: digits_val_def)

lemma digits_val_nat_str [simp]: "digits_val (nat_str n) = n"
proof (induction n rule: nat_str.induct)
  case (1 n)
  show ?case
  proof (cases "n < 10")
    case True
    then show ?thesis by (simp add: nat_str.simps [of n] digits_val_def)
  next
    case False
    with "1.IH" show ?thesis by (simp add: nat_str.simps [of n] digits_val_snoc)
  qed
qed

lemma parse_int_nat_str [simp]: "parse_int (nat_str n) = Some n"
proof -
  have "takeWhile is_digit (nat_str n) = nat_str n"
    by (simp add: takeWhile_eq_all_conv nat_str_digits)
  then show ?thesis
    by (metis (no_types, lifting) digits_val_nat_str list.exhaust list.simps(5) nat_str_ne parse_int_def)
qed

lemma not_digit_notin_nat_str: "\<not> is_digit c \<Longrightarrow> c \<notin> set (nat_str n)"
  using nat_str_digits by blast

lemma js_parseInt_nat_str [simp]: "js_parseInt (nat_str n) = Some (int n)"
proof -
  obtain c cs where c: "nat_str n = c # cs" using nat_str_ne by (cases "nat_str n") auto
  then have d: "is_digit c" using nat_str_digits [of c n] by simp
  then have "\<not> is_blank c" "c \<noteq> CHR ''-''" "c \<noteq> CHR ''+''"
    by (auto simp: is_digit_def is_blank_def)
  then have "js_parseInt (nat_str n) = map_option int (parse_int (nat_str n))"
    by (auto simp: js_parseInt_def c split: list.split char.split bool.split)
  then show ?thesis by simp
qed

lemma length_nat_str_1: "length (nat_str n) = 1 \<longleftrightarrow> n < 10"
  by (subst nat_str.simps) simp

section \<open>Sorting with a comparator\<close>

text \<open>
  \<open>Array.prototype.sort\<close> is stable. For a comparator that orders consistently the stable result
  is unique; the insertion sort below computes it.
\<close>

fun js_insert :: "('a \<Rightarrow> 'a \<Rightarrow> int) \<Rightarrow> 'a \<Rightarrow> 'a list \<Rightarrow> 'a list" where
  "js_insert cmp x [] = [x]"
| "js_insert cmp x (y # ys) = (if cmp x y \<le> 0 then x # y # ys else y # js_insert cmp x ys)"

definition js_sort :: "('a \<Rightarrow> 'a \<Rightarrow> int) \<Rightarrow> 'a list \<Rightarrow> 'a list" where
  "js_sort cmp xs = foldr (js_insert cmp) xs []"

lemma mset_js_insert [simp]: "mset (js_insert cmp x ys) = add_mset x (mset ys)"
  by (induction ys) auto

lemma mset_js_sort [simp]: "mset (js_sort cmp xs) = mset xs"
  by (induction xs) (auto simp: js_sort_def)

lemma set_js_sort [simp]: "set (js_sort cmp xs) = set xs"
  by (metis mset_js_sort set_mset_mset)

lemma set_js_insert [simp]: "set (js_insert cmp x ys) = insert x (set ys)"
  by (induction ys) auto

lemma length_js_sort [simp]: "length (js_sort cmp xs) = length xs"
  by (metis mset_js_sort size_mset)

lemma js_sort_Nil [simp]: "js_sort cmp [] = []"
  by (simp add: js_sort_def)

lemma js_sort_Cons: "js_sort cmp (x # xs) = js_insert cmp x (js_sort cmp xs)"
  by (simp add: js_sort_def)

lemma distinct_map_js_sort [simp]: "distinct (map f (js_sort cmp xs)) = distinct (map f xs)"
proof -
  have "mset (map f (js_sort cmp xs)) = mset (map f xs)"
    by simp
  then show ?thesis by (rule mset_eq_imp_distinct_iff)
qed

text \<open>A list the comparator never wants to swap is returned as it is.\<close>

lemma js_sort_id: "sorted_wrt (\<lambda>a b. cmp a b \<le> 0) xs \<Longrightarrow> js_sort cmp xs = xs"
proof (induction xs)
  case (Cons x xs)
  then show ?case by (cases xs) (auto simp: js_sort_Cons)
qed simp

lemma js_insert_map:
  "(\<And>a b. cmp (g a) (g b) = cmp a b) \<Longrightarrow> js_insert cmp (g x) (map g ys) = map g (js_insert cmp x ys)"
  by (induction ys) auto

lemma js_sort_map:
  "(\<And>a b. cmp (g a) (g b) = cmp a b) \<Longrightarrow> js_sort cmp (map g xs) = map g (js_sort cmp xs)"
  by (induction xs) (auto simp: js_sort_Cons js_insert_map)

text \<open>With a comparator that is total and transitive the result is in its order.\<close>

lemma js_insert_sorted:
  assumes "\<And>a b. cmp a b \<le> 0 \<or> cmp b a \<le> 0" and "\<And>a b c. cmp a b \<le> 0 \<Longrightarrow> cmp b c \<le> 0 \<Longrightarrow> cmp a c \<le> 0"
  shows "sorted_wrt (\<lambda>a b. cmp a b \<le> 0) ys \<Longrightarrow> sorted_wrt (\<lambda>a b. cmp a b \<le> 0) (js_insert cmp x ys)"
proof (induction ys)
  case (Cons y ys)
  then show ?case using assms(1) [of x y] assms(2) [of x y] by auto
qed simp

lemma js_sort_sorted:
  assumes "\<And>a b. cmp a b \<le> 0 \<or> cmp b a \<le> 0" and "\<And>a b c. cmp a b \<le> 0 \<Longrightarrow> cmp b c \<le> 0 \<Longrightarrow> cmp a c \<le> 0"
  shows "sorted_wrt (\<lambda>a b. cmp a b \<le> 0) (js_sort cmp xs)"
  using js_insert_sorted [of cmp, OF assms] by (induction xs) (auto simp: js_sort_Cons)

text \<open>
  The contract of a comparator: on well-formed elements it orders by a key, largest first.
\<close>

locale descending_by =
  fixes cmp :: "'a \<Rightarrow> 'a \<Rightarrow> int"
    and key :: "'a \<Rightarrow> 'k::linorder"
    and wf :: "'a \<Rightarrow> bool"
  assumes cmp_key: "wf a \<Longrightarrow> wf b \<Longrightarrow> (cmp a b \<le> 0) = (key b \<le> key a)"
begin

lemma insert_sorted:
  "wf x \<Longrightarrow> (\<forall>y \<in> set ys. wf y) \<Longrightarrow> sorted_wrt (\<lambda>a b. key b \<le> key a) ys \<Longrightarrow>
   sorted_wrt (\<lambda>a b. key b \<le> key a) (js_insert cmp x ys)"
  by (induction ys) (auto simp: cmp_key)

lemma sort_sorted:
  "(\<forall>x \<in> set xs. wf x) \<Longrightarrow> sorted_wrt (\<lambda>a b. key b \<le> key a) (js_sort cmp xs)"
  by (induction xs) (auto simp: js_sort_Cons insert_sorted)

lemma insert_stable:
  "wf x \<Longrightarrow> (\<forall>y \<in> set ys. wf y) \<Longrightarrow>
   filter (\<lambda>a. key a = k) (js_insert cmp x ys) = filter (\<lambda>a. key a = k) (x # ys)"
  by (induction ys) (auto simp: cmp_key)

lemma sort_stable:
  "(\<forall>x \<in> set xs. wf x) \<Longrightarrow>
   filter (\<lambda>a. key a = k) (js_sort cmp xs) = filter (\<lambda>a. key a = k) xs"
  by (induction xs) (auto simp: js_sort_Cons insert_stable)

lemma sort_idem: "(\<forall>x \<in> set xs. wf x) \<Longrightarrow> js_sort cmp (js_sort cmp xs) = js_sort cmp xs"
  using sort_sorted [of xs]
  by (intro js_sort_id) (auto simp: cmp_key elim!: sorted_wrt_mono_rel [rotated])

end

section \<open>Runs of a step function\<close>

definition run :: "('s \<Rightarrow> 'e \<Rightarrow> 's) \<Rightarrow> 's \<Rightarrow> 'e list \<Rightarrow> 's" where
  "run step s es = foldl step s es"

lemma run_simps [simp]: "run step s [] = s" "run step s (e # es) = run step (step s e) es"
  by (simp_all add: run_def)

lemma run_append: "run step s (es @ fs) = run step (run step s es) fs"
  by (simp add: run_def)

locale preserves =
  fixes step :: "'s \<Rightarrow> 'e \<Rightarrow> 's"
    and ok :: "'e \<Rightarrow> bool"
    and inv :: "'s \<Rightarrow> bool"
  assumes inv_step: "inv s \<Longrightarrow> ok e \<Longrightarrow> inv (step s e)"
begin

lemma inv_run: "inv s \<Longrightarrow> (\<forall>e \<in> set es. ok e) \<Longrightarrow> inv (run step s es)"
  by (induction es arbitrary: s) (auto intro: inv_step)

end

section \<open>Lists of records identified by a key\<close>

text \<open>The elements of \<open>news\<close> whose key does not occur in \<open>prev\<close> (the \<open>new Set(prev.map(..))\<close> idiom).\<close>

definition unseen :: "('a \<Rightarrow> 'k) \<Rightarrow> 'a list \<Rightarrow> 'a list \<Rightarrow> 'a list" where
  "unseen key prev news = filter (\<lambda>b. key b \<notin> key ` set prev) news"

text \<open>\<open>p.map(x => x.id === b.id ? b : x)\<close>.\<close>

definition replace_by :: "('a \<Rightarrow> 'k) \<Rightarrow> 'a \<Rightarrow> 'a list \<Rightarrow> 'a list" where
  "replace_by key b xs = map (\<lambda>x. if key x = key b then b else x) xs"

lemma set_unseen: "set (unseen key prev news) = {b \<in> set news. key b \<notin> key ` set prev}"
  by (auto simp: unseen_def)

lemma distinct_unseen [js_inv]:
  "distinct (map key news) \<Longrightarrow> distinct (map key (unseen key prev news))"
  unfolding unseen_def by (induction news) auto

lemma keys_replace_by [simp]: "map key (replace_by key b xs) = map key xs"
  by (simp add: replace_by_def)

text \<open>
  The contract of a client-side list of server records: records have a key, and an update of one
  record by another of the same key keeps the key.
\<close>

locale keyed =
  fixes key :: "'a \<Rightarrow> 'k"
    and upd :: "'a \<Rightarrow> 'a \<Rightarrow> 'a"
  assumes upd_key: "key new = key old \<Longrightarrow> key (upd old new) = key old"
begin

lemma append_unseen_distinct:
  "distinct (map key prev) \<Longrightarrow> distinct (map key news) \<Longrightarrow>
   distinct (map key (prev @ unseen key prev news))"
  by (auto simp: distinct_unseen) (auto simp: set_unseen rev_image_eqI)

lemma prepend_unseen_distinct:
  "distinct (map key prev) \<Longrightarrow> distinct (map key news) \<Longrightarrow>
   distinct (map key (unseen key prev news @ prev))"
  by (auto simp: distinct_unseen) (auto simp: set_unseen rev_image_eqI)

lemma upd_map_keys:
  "(\<And>x. x \<in> set xs \<Longrightarrow> f x = x \<or> (\<exists>b. key b = key x \<and> f x = upd x b)) \<Longrightarrow>
   map key (map f xs) = map key xs"
  using upd_key by (induction xs) (auto, metis+)

lemma filter_distinct:
  "distinct (map key xs) \<Longrightarrow> distinct (map key (filter P xs))"
  by (induction xs) auto

end

end
