(* ===== verification/AppState.thy ===== *)
theory AppState
  imports JsPrelude
begin

text \<open>
  \<open>state.js\<close>: the global signals (session, notice), their persistence in \<open>localStorage\<close>, and the
  team-role checks every page uses. The record \<open>app\<close> is the state the modules share: the signals,
  the storage, and the log of effects on the outside world (navigations, toasts shown, requests
  sent without waiting for them).
  Lemmas: the role check follows the documented hierarchy of roles, the stored
  session always agrees with the one in memory (\<open>session_synced\<close>).
\<close>

section \<open>Data\<close>

record membership =
  team_canonical :: string
  role :: string

text \<open>A user object; \<open>{}\<close> is \<open>no_user_fields\<close>, in which every field is undefined or falsy.\<close>

record user =
  username :: string
  full_name :: string
  admin :: bool
  must_change_password :: bool
  memberships :: "membership list option"

definition no_user_fields :: user where
  "no_user_fields = \<lparr>username = '''', full_name = '''', admin = False,
     must_change_password = False, memberships = None\<rparr>"

record session =
  jwt :: "string option"
  user :: "user option"

record notice =
  error :: string
  success :: string

text \<open>
  What \<open>localStorage\<close> holds under a key: a session (written with \<open>JSON.stringify\<close>, read with
  \<open>JSON.parse\<close>), a list of flags (likewise), or plain text.
\<close>

datatype stored = StoredSession session | StoredFlags "string list" | StoredText string

type_synonym storage = "string \<Rightarrow> stored option"

record navigation =
  target :: string
  replaces :: bool

record app =
  sess :: session
  apiNotice :: notice
  localStorage :: storage
  navigations :: "navigation list"
  toasts :: "(string \<times> string) list"

definition userSessionKey :: string where
  "userSessionKey = ''piko-user-jwt''"

definition empty_session :: session where
  "empty_session = \<lparr>jwt = None, user = None\<rparr>"

text \<open>\<open>JSON.parse(localStorage.getItem(userSessionKey) || '{}')\<close>.\<close>

definition load_session :: "storage \<Rightarrow> session" where
  "load_session st = (case st userSessionKey of Some (StoredSession s) \<Rightarrow> s | _ \<Rightarrow> empty_session)"

definition boot :: "storage \<Rightarrow> app" where
  "boot st = \<lparr>sess = load_session st, apiNotice = \<lparr>error = '''', success = ''''\<rparr>,
     localStorage = st, navigations = [], toasts = []\<rparr>"

section \<open>Role checks\<close>

definition truthy_str :: "string option \<Rightarrow> bool" where
  "truthy_str s \<longleftrightarrow> (case s of None \<Rightarrow> False | Some t \<Rightarrow> t \<noteq> '''')"

definition isLoggedIn :: "session \<Rightarrow> bool" where
  "isLoggedIn s \<longleftrightarrow> truthy_str (jwt s)"

definition isAdmin :: "session \<Rightarrow> bool" where
  "isAdmin s \<longleftrightarrow> (case user s of None \<Rightarrow> False | Some u \<Rightarrow> admin u)"

definition ROLE_LEVELS :: "(string \<times> nat) list" where
  "ROLE_LEVELS = [(''public'', 0), (''read'', 1), (''write'', 2), (''maintain'', 3), (''admin'', 4)]"

text \<open>\<open>ROLE_LEVELS[r] || 0\<close> for a role name (no role is named like a key of \<open>Object.prototype\<close>).\<close>

definition role_level :: "string \<Rightarrow> nat" where
  "role_level r = (case map_of ROLE_LEVELS r of None \<Rightarrow> 0 | Some n \<Rightarrow> n)"

definition getTeamRole :: "session \<Rightarrow> string \<Rightarrow> string option" where
  "getTeamRole s tc =
     (case user s of
        None \<Rightarrow> None
      | Some u \<Rightarrow>
          if admin u then Some ''admin''
          else map_option role
            (List.find (\<lambda>m. team_canonical m = tc)
              (case memberships u of None \<Rightarrow> [] | Some ms \<Rightarrow> ms)))"

definition hasTeamRole :: "session \<Rightarrow> string \<Rightarrow> string \<Rightarrow> bool" where
  "hasTeamRole s tc requiredRole =
     (case user s of
        None \<Rightarrow> False
      | Some u \<Rightarrow>
          if admin u then True
          else (case getTeamRole s tc of
                  None \<Rightarrow> False
                | Some r \<Rightarrow> if r = '''' then False else role_level r \<ge> role_level requiredRole))"

definition isTeamAdmin :: "session \<Rightarrow> string \<Rightarrow> bool" where
  "isTeamAdmin s tc = hasTeamRole s tc ''admin''"

text \<open>\<open>tc\<close> may be null or empty here.\<close>

definition isTeamMember :: "session \<Rightarrow> string option \<Rightarrow> bool" where
  "isTeamMember s tc =
     (case user s of
        None \<Rightarrow> False
      | Some u \<Rightarrow>
          if admin u then True
          else (case tc of
                  None \<Rightarrow> True
                | Some t \<Rightarrow> if t = '''' then True else hasTeamRole s t ''read''))"

section \<open>Signals\<close>

definition login :: "string \<Rightarrow> user option \<Rightarrow> app \<Rightarrow> app" where
  "login j u a =
     (let s = \<lparr>jwt = Some j, user = u\<rparr>
      in a\<lparr>sess := s, localStorage := (localStorage a)(userSessionKey \<mapsto> StoredSession s)\<rparr>)"

definition logout :: "app \<Rightarrow> app" where
  "logout a = a\<lparr>sess := empty_session, localStorage := (localStorage a)(userSessionKey := None)\<rparr>"

definition setNoticeError :: "string \<Rightarrow> app \<Rightarrow> app" where
  "setNoticeError msg a = a\<lparr>apiNotice := \<lparr>error = msg, success = ''''\<rparr>\<rparr>"

definition setNoticeSuccess :: "string \<Rightarrow> app \<Rightarrow> app" where
  "setNoticeSuccess msg a = a\<lparr>apiNotice := \<lparr>error = '''', success = msg\<rparr>\<rparr>"

definition clearNotice :: "app \<Rightarrow> app" where
  "clearNotice a = a\<lparr>apiNotice := \<lparr>error = '''', success = ''''\<rparr>\<rparr>"

text \<open>\<open>route(url, replace)\<close> of the router and \<open>showToast\<close>, as entries of the effect log.\<close>

definition route :: "string \<Rightarrow> bool \<Rightarrow> app \<Rightarrow> app" where
  "route url rep a = a\<lparr>navigations := navigations a @ [\<lparr>target = url, replaces = rep\<rparr>]\<rparr>"

definition toast :: "string \<Rightarrow> string \<Rightarrow> app \<Rightarrow> app" where
  "toast msg ty a = a\<lparr>toasts := toasts a @ [(msg, ty)]\<rparr>"

section \<open>Levels of roles\<close>

lemma role_level_simps [js_simps]:
  "role_level ''read'' = 1" "role_level ''write'' = 2" "role_level ''maintain'' = 3"
  "role_level ''admin'' = 4" "role_level ''public'' = 0" "role_level '''' = 0"
  by (simp_all add: role_level_def ROLE_LEVELS_def)

lemma find_filter: "List.find P xs = (case filter P xs of [] \<Rightarrow> None | x # _ \<Rightarrow> Some x)"
  by (induction xs) auto

lemma hasTeamRole_no_user [simp]: "user s = None \<Longrightarrow> \<not> hasTeamRole s tc r"
  by (simp add: hasTeamRole_def)

lemma user_empty_session [simp]: "user empty_session = None" "jwt empty_session = None"
  by (simp_all add: empty_session_def)

section \<open>The documented hierarchy of roles\<close>

text \<open>The table of \<open>docs/Roles.md\<close>, from the lowest role up; a role inherits all permissions of the role below.\<close>

definition documented_roles :: "string list" where
  "documented_roles = [''public'', ''read'', ''write'', ''maintain'', ''admin'']"

inductive inherits :: "string \<Rightarrow> string \<Rightarrow> bool" where
  itself: "inherits r r"
| reading: "inherits ''public'' r \<Longrightarrow> inherits ''read'' r"
| writing: "inherits ''read'' r \<Longrightarrow> inherits ''write'' r"
| maintaining: "inherits ''write'' r \<Longrightarrow> inherits ''maintain'' r"
| administering: "inherits ''maintain'' r \<Longrightarrow> inherits ''admin'' r"

inductive_simps inherits_down:
  "inherits ''public'' r" "inherits ''read'' r" "inherits ''write'' r" "inherits ''maintain'' r" "inherits ''admin'' r"

definition membership_list :: "user \<Rightarrow> membership list" where
  "membership_list u = (case memberships u of None \<Rightarrow> [] | Some ms \<Rightarrow> ms)"

text \<open>A user of the server: one membership per team, which has a name, with an assignable role.\<close>

definition well_formed_user :: "user \<Rightarrow> bool" where
  "well_formed_user u \<longleftrightarrow> distinct (map team_canonical (membership_list u))
     \<and> (\<forall>m \<in> set (membership_list u). role m \<in> set documented_roles - {''public''} \<and> team_canonical m \<noteq> '''')"

lemma inherits_role_level:
  "r \<in> set documented_roles \<Longrightarrow> r' \<in> set documented_roles \<Longrightarrow> role_level r \<le> role_level r' \<longleftrightarrow> inherits r' r"
  by (auto simp: documented_roles_def inherits_down js_simps)

lemma find_unique:
  "distinct (map f xs) \<Longrightarrow> x \<in> set xs \<Longrightarrow> List.find (\<lambda>y. f y = f x) xs = Some x"
  by (induction xs) force+

lemma hasTeamRole_find:
  "user s = Some u \<Longrightarrow> hasTeamRole s tc r \<longleftrightarrow> admin u \<or>
    (case List.find (\<lambda>m. team_canonical m = tc) (membership_list u) of
       None \<Rightarrow> False | Some m \<Rightarrow> role m \<noteq> '''' \<and> role_level r \<le> role_level (role m))"
  by (cases "List.find (\<lambda>m. team_canonical m = tc) (membership_list u)")
    (simp_all add: hasTeamRole_def getTeamRole_def membership_list_def)

lemma hasTeamRole_user:
  assumes "user s = Some u" and "well_formed_user u" and "r \<in> set documented_roles"
  shows "hasTeamRole s tc r \<longleftrightarrow> admin u \<or> (\<exists>m \<in> set (membership_list u). team_canonical m = tc \<and> inherits (role m) r)"
proof (cases "List.find (\<lambda>m. team_canonical m = tc) (membership_list u)")
  case None
  then have "team_canonical m \<noteq> tc" if "m \<in> set (membership_list u)" for m using that by (simp add: find_None_iff)
  then show ?thesis using None assms(1) by (auto simp: hasTeamRole_find)
next
  case (Some m)
  then have m: "m \<in> set (membership_list u)" "team_canonical m = tc" by (auto simp: find_Some_iff)
  have only: "m' = m" if "m' \<in> set (membership_list u)" "team_canonical m' = tc" for m'
    using find_unique [of team_canonical "membership_list u" m'] that Some assms(2) by (simp add: well_formed_user_def)
  have doc: "role m \<in> set documented_roles" "role m \<noteq> ''''"
    using m(1) assms(2) by (auto simp: well_formed_user_def documented_roles_def)
  have "hasTeamRole s tc r \<longleftrightarrow> admin u \<or> inherits (role m) r"
    using assms(1) Some doc(2) inherits_role_level [OF assms(3) doc(1)]
    by (simp add: hasTeamRole_find)
  then show ?thesis using m only by blast
qed

section \<open>The stored session agrees with the session in memory\<close>

datatype session_event = Login string "user option" | Logout

fun session_step :: "app \<Rightarrow> session_event \<Rightarrow> app" where
  "session_step a (Login j u) = login j u a"
| "session_step a Logout = logout a"

definition session_synced :: "app \<Rightarrow> bool" where
  "session_synced a \<longleftrightarrow> load_session (localStorage a) = sess a"

lemma synced_login [js_inv]: "session_synced (login j u a)"
  by (simp add: session_synced_def login_def load_session_def Let_def)

lemma synced_logout [js_inv]: "session_synced (logout a)"
  by (simp add: session_synced_def logout_def load_session_def)

lemma synced_boot [js_inv]: "session_synced (boot st)"
  by (simp add: session_synced_def boot_def)

interpretation session_store: preserves session_step "\<lambda>_. True" session_synced
proof
  fix a e
  show "session_synced (session_step a e)"
    by (cases e) (simp_all add: js_inv)
qed

section \<open>Properties\<close>

text \<open>
  C3. The role check follows the documented hierarchy (each role inherits the permissions of the role below it):
  a session passes \<open>hasTeamRole(tc, r)\<close> exactly when its user is a global administrator or has a membership
  of the team whose role inherits from \<open>r\<close>; \<open>isTeamAdmin\<close> and \<open>isTeamMember\<close> are the two ends of it. The
  roles are the documented ones and the user has one membership per team.
\<close>

theorem hasTeamRole_inherits:
  assumes "\<forall>u. user s = Some u \<longrightarrow> well_formed_user u" and "r \<in> set documented_roles" and "tc \<noteq> ''''"
  shows "(hasTeamRole s tc r \<longleftrightarrow>
      (\<exists>u. user s = Some u \<and> (admin u \<or> (\<exists>m \<in> set (membership_list u). team_canonical m = tc \<and> inherits (role m) r))))
    \<and> (isTeamAdmin s tc \<longleftrightarrow>
      (\<exists>u. user s = Some u \<and> (admin u \<or> (\<exists>m \<in> set (membership_list u). team_canonical m = tc \<and> role m = ''admin''))))
    \<and> (isTeamMember s (Some tc) \<longleftrightarrow>
      (\<exists>u. user s = Some u \<and> (admin u \<or> (\<exists>m \<in> set (membership_list u). team_canonical m = tc))))"
proof -
  have check: "hasTeamRole s tc q \<longleftrightarrow>
      (\<exists>u. user s = Some u \<and> (admin u \<or> (\<exists>m \<in> set (membership_list u). team_canonical m = tc \<and> inherits (role m) q)))"
    if "q \<in> set documented_roles" for q
  proof (cases "user s")
    case (Some u)
    with assms(1) have "well_formed_user u" by simp
    with hasTeamRole_user [OF Some this that] Some show ?thesis by simp
  qed simp
  have "inherits x ''admin'' \<longleftrightarrow> x = ''admin''" "inherits x ''read'' \<longleftrightarrow> x \<noteq> ''public''" if "x \<in> set documented_roles" for x
    using that by (auto simp: documented_roles_def inherits_down)
  moreover have "role m \<in> set documented_roles - {''public''}" if "user s = Some u" "m \<in> set (membership_list u)" for u m
    using assms(1) that by (auto simp: well_formed_user_def)
  ultimately have ends: "(\<exists>m \<in> set (membership_list u). team_canonical m = tc \<and> inherits (role m) ''admin'') \<longleftrightarrow>
        (\<exists>m \<in> set (membership_list u). team_canonical m = tc \<and> role m = ''admin'')"
      "(\<exists>m \<in> set (membership_list u). team_canonical m = tc \<and> inherits (role m) ''read'') \<longleftrightarrow>
        (\<exists>m \<in> set (membership_list u). team_canonical m = tc)" if "user s = Some u" for u
    using that by blast+
  have "''admin'' \<in> set documented_roles" "''read'' \<in> set documented_roles" by (simp_all add: documented_roles_def)
  from check [OF assms(2)] check [OF this(1)] check [OF this(2)] ends assms(3) show ?thesis
    by (auto simp: isTeamAdmin_def isTeamMember_def split: option.splits)
qed

theorem hasTeamRole_inherits_witness:
  "hasTeamRole \<lparr>jwt = None, user = Some \<lparr>username = ''u'', full_name = '''', admin = False, must_change_password = False,
      memberships = Some [\<lparr>team_canonical = ''t'', role = ''maintain''\<rparr>]\<rparr>\<rparr> ''t'' ''write''"
  by (subst hasTeamRole_inherits [THEN conjunct1])
    (auto simp: well_formed_user_def documented_roles_def membership_list_def inherits_down)

text \<open>
  After any sequence of logins and logouts a page reload restores exactly the session in
  memory; when the last event is a logout the reloaded session is logged out and passes no check.
\<close>

theorem session_reload:
  "sess (boot (localStorage (run session_step (boot st) es))) = sess (run session_step (boot st) es)
   \<and> (let s = sess (boot (localStorage (run session_step (boot st) (es @ [Logout]))))
      in \<not> isLoggedIn s \<and> \<not> isAdmin s \<and> \<not> hasTeamRole s tc r \<and> \<not> isTeamMember s t)"
proof -
  have "session_synced (run session_step (boot st) fs)" for fs
    by (rule session_store.inv_run) (simp_all add: js_inv)
  from this [of es] this [of "es @ [Logout]"]
  have reload: "load_session (localStorage (run session_step (boot st) es)) = sess (run session_step (boot st) es)"
    and out: "load_session (localStorage (run session_step (boot st) (es @ [Logout]))) = empty_session"
    by (simp_all add: session_synced_def run_append logout_def)
  show ?thesis
    by (simp add: boot_def reload [unfolded boot_def] out [unfolded boot_def] Let_def isLoggedIn_def
        isAdmin_def isTeamMember_def truthy_str_def)
qed

end
