(* ===== verification/PipelineChain.thy ===== *)
theory PipelineChain
  imports AppState
begin

text \<open>
  The graph helpers of \<open>PipelineListView.js\<close>: which resources trigger a pipeline
  (\<open>findTriggerResources\<close>), which jobs a resource version flows through (\<open>resolveChain\<close>, a
  breadth-first search over \<open>passed\<close> constraints) and the tree drawn from that chain
  (\<open>buildTree\<close>). Loops are folds over the same lists in the same order; \<open>visited\<close>, \<open>seen\<close> and
  \<open>chainSet\<close> are flag objects, read with \<open>flag\<close>, so the keys of \<open>Object.prototype\<close> behave as they
  do in the browser.

  Lemmas: the search terminates and computes reachability, upstream jobs come first, and the tree
  records exactly the \<open>passed\<close> constraints inside the chain.
\<close>

section \<open>Pipelines\<close>

record get_step =
  g_type :: string
  g_name :: string
  g_trigger :: bool
  g_passed :: "string list option"

record plan_step =
  p_type :: string
  p_get :: "get_step option"

record pjob =
  j_name :: string
  j_plan :: "plan_step list option"

record pipeline =
  pl_name :: string
  pl_canonical :: string
  pl_jobs :: "pjob list option"

definition jobs_of :: "pipeline \<Rightarrow> pjob list" where
  "jobs_of p = (case pl_jobs p of None \<Rightarrow> [] | Some js \<Rightarrow> js)"

definition plan_of :: "pjob \<Rightarrow> plan_step list" where
  "plan_of j = (case j_plan j of None \<Rightarrow> [] | Some ss \<Rightarrow> ss)"

definition canonical_of :: "get_step \<Rightarrow> string" where
  "canonical_of g = g_type g @ ''.'' @ g_name g"

definition no_passed :: "get_step \<Rightarrow> bool" where
  "no_passed g \<longleftrightarrow> (case g_passed g of None \<Rightarrow> True | Some ps \<Rightarrow> ps = [])"

text \<open>\<open>s.type === 'get' && s.get\<close>.\<close>

definition get_of :: "plan_step \<Rightarrow> get_step option" where
  "get_of s = (if p_type s = ''get'' then p_get s else None)"

section \<open>Trigger resources\<close>

definition trigger_step :: "string list \<times> string list \<Rightarrow> plan_step \<Rightarrow> string list \<times> string list" where
  "trigger_step st s =
     (case get_of s of
        None \<Rightarrow> st
      | Some g \<Rightarrow>
          if g_trigger g \<and> no_passed g then
            (let canonical = canonical_of g in
             if \<not> flag (fst st) canonical then (fst st @ [canonical], snd st @ [canonical]) else st)
          else st)"

definition findTriggerResources :: "pipeline \<Rightarrow> string list" where
  "findTriggerResources p =
     snd (foldl (\<lambda>st j. foldl trigger_step st (plan_of j)) ([], []) (jobs_of p))"

section \<open>The chain of a resource\<close>

type_synonym search = "string list \<times> string list" \<comment> \<open>visited, queue\<close>

text \<open>Entry points: jobs that get the resource without a \<open>passed\<close> constraint.\<close>

definition entry_step :: "string \<Rightarrow> string \<Rightarrow> search \<Rightarrow> plan_step \<Rightarrow> search" where
  "entry_step rc nm st s =
     (case get_of s of
        None \<Rightarrow> st
      | Some g \<Rightarrow>
          if canonical_of g = rc \<and> no_passed g then
            (if \<not> flag (fst st) nm then (fst st @ [nm], snd st @ [nm]) else st)
          else st)"

definition entry_points :: "string \<Rightarrow> pjob list \<Rightarrow> search" where
  "entry_points rc js = foldl (\<lambda>st j. foldl (entry_step rc (j_name j)) st (plan_of j)) ([], []) js"

text \<open>The step gets something that passed \<open>u\<close>: the loop over \<open>s.get.passed\<close>.\<close>

definition step_passes :: "string \<Rightarrow> plan_step \<Rightarrow> bool" where
  "step_passes u s \<longleftrightarrow>
     (case get_of s of
        None \<Rightarrow> False
      | Some g \<Rightarrow> (case g_passed g of None \<Rightarrow> False | Some ps \<Rightarrow> List.member ps u))"

text \<open>The loop over one job's plan, which stops once the job is marked.\<close>

fun scan_plan :: "string \<Rightarrow> string \<Rightarrow> plan_step list \<Rightarrow> search \<Rightarrow> search" where
  "scan_plan u nm [] st = st"
| "scan_plan u nm (s # ss) st =
     (let st' = (if step_passes u s then (fst st @ [nm], snd st @ [nm]) else st)
      in if flag (fst st') nm then st' else scan_plan u nm ss st')"

definition scan_job :: "string \<Rightarrow> search \<Rightarrow> pjob \<Rightarrow> search" where
  "scan_job u st j = (if flag (fst st) (j_name j) then st else scan_plan u (j_name j) (plan_of j) st)"

section \<open>The tree of a chain\<close>

text \<open>
  \<open>parents\<close> and \<open>children\<close> are objects with one list per chain job. A link \<open>(u, n)\<close> is one entry
  of a \<open>passed\<close> list of job \<open>n\<close>; \<open>children[u].push\<close> is a TypeError when \<open>children\<close> has no own
  list \<open>u\<close>, which \<open>chainSet[u]\<close> excludes except for inherited keys.
\<close>

datatype js_error = TypeError

record tree =
  roots :: "string list"
  children :: "string list jsobj"
  parents :: "string list jsobj"

definition job_links :: "pipeline \<Rightarrow> string list \<Rightarrow> string \<Rightarrow> string list" where
  "job_links p chainJobs nm =
     (case List.find (\<lambda>j. j_name j = nm) (jobs_of p) of
        None \<Rightarrow> []
      | Some pj \<Rightarrow>
          concat (map (\<lambda>s. case get_of s of
              None \<Rightarrow> []
            | Some g \<Rightarrow> (case g_passed g of None \<Rightarrow> [] | Some ps \<Rightarrow> filter (flag chainJobs) ps)) (plan_of pj)))"

definition obj_push :: "string list jsobj \<Rightarrow> string \<Rightarrow> string \<Rightarrow> js_error + string list jsobj" where
  "obj_push ob k x = (case map_of ob k of None \<Rightarrow> Inl TypeError | Some xs \<Rightarrow> Inr (obj_set ob k (xs @ [x])))"

fun add_links :: "(string \<times> string) list \<Rightarrow> string list jsobj \<times> string list jsobj \<Rightarrow>
    js_error + (string list jsobj \<times> string list jsobj)" where
  "add_links [] pc = Inr pc"
| "add_links ((u, nm) # ls) (par, chi) =
     (case obj_push par nm u of
        Inl e \<Rightarrow> Inl e
      | Inr par' \<Rightarrow> (case obj_push chi u nm of Inl e \<Rightarrow> Inl e | Inr chi' \<Rightarrow> add_links ls (par', chi')))"

definition empty_lists :: "string list \<Rightarrow> string list jsobj" where
  "empty_lists ks = foldl (\<lambda>ob k. obj_set ob k []) [] ks"

definition list_at :: "string list jsobj \<Rightarrow> string \<Rightarrow> string list" where
  "list_at ob k = (case map_of ob k of None \<Rightarrow> [] | Some xs \<Rightarrow> xs)"

definition buildTree :: "pipeline \<Rightarrow> string list \<Rightarrow> js_error + tree" where
  "buildTree p chainJobs =
     (case add_links (concat (map (\<lambda>nm. map (\<lambda>u. (u, nm)) (job_links p chainJobs nm)) chainJobs))
             (empty_lists chainJobs, empty_lists chainJobs) of
        Inl e \<Rightarrow> Inl e
      | Inr (par, chi) \<Rightarrow>
          Inr \<lparr>roots = filter (\<lambda>n. length (list_at par n) = 0) chainJobs, children = chi, parents = par\<rparr>)"

section \<open>Facts the search needs for termination\<close>

text \<open>A job is directly downstream of \<open>u\<close> when some step of its plan passed \<open>u\<close>.\<close>

definition downstream :: "string \<Rightarrow> pjob \<Rightarrow> bool" where
  "downstream u j \<longleftrightarrow> (\<exists>s \<in> set (plan_of j). step_passes u s)"

text \<open>The names a scan adds, in order.\<close>

fun fresh :: "string \<Rightarrow> string list \<Rightarrow> pjob list \<Rightarrow> string list" where
  "fresh u v [] = []"
| "fresh u v (j # js) =
     (if \<not> flag v (j_name j) \<and> downstream u j then j_name j # fresh u (v @ [j_name j]) js
      else fresh u v js)"

lemma flag_append [simp]: "flag (v @ w) k \<longleftrightarrow> flag v k \<or> k \<in> set w"
  by (auto simp: flag_def)

lemma flag_mem: "k \<in> set v \<Longrightarrow> flag v k"
  by (simp add: flag_def)

lemma flag_plain: "k \<notin> set proto_keys \<Longrightarrow> flag v k \<longleftrightarrow> k \<in> set v"
  by (simp add: flag_def)

lemma scan_plan_eq:
  "\<not> flag v nm \<Longrightarrow> scan_plan u nm ss (v, q) =
     (if \<exists>s \<in> set ss. step_passes u s then (v @ [nm], q @ [nm]) else (v, q))"
  by (induction ss) (auto simp: Let_def)

lemma scan_job_eq:
  "scan_job u (v, q) j =
     (if \<not> flag v (j_name j) \<and> downstream u j then (v @ [j_name j], q @ [j_name j]) else (v, q))"
  by (auto simp: scan_job_def scan_plan_eq downstream_def)

lemma scan_jobs_eq: "foldl (scan_job u) (v, q) js = (v @ fresh u v js, q @ fresh u v js)"
  by (induction js arbitrary: v q) (auto simp: scan_job_eq)

lemma set_fresh: "set (fresh u v js) = {j_name j | j. j \<in> set js \<and> downstream u j \<and> \<not> flag v (j_name j)}"
  by (induction js arbitrary: v) auto

lemma distinct_fresh: "distinct (fresh u v js)"
  by (induction js arbitrary: v) (auto simp: set_fresh)

definition unvisited :: "pjob list \<Rightarrow> string list \<Rightarrow> string set" where
  "unvisited js v = {j_name j | j. j \<in> set js \<and> \<not> flag v (j_name j)}"

lemma finite_unvisited [simp]: "finite (unvisited js v)"
  by (simp add: unvisited_def)

lemma card_unvisited_fresh:
  "card (unvisited js (v @ fresh u v js)) + length (fresh u v js) = card (unvisited js v)"
proof -
  have "unvisited js v = unvisited js (v @ fresh u v js) \<union> set (fresh u v js)"
    by (auto simp: unvisited_def set_fresh)
  moreover have "unvisited js (v @ fresh u v js) \<inter> set (fresh u v js) = {}"
    by (auto simp: unvisited_def)
  ultimately show ?thesis
    by (metis List.finite_set card_Un_disjoint distinct_card distinct_fresh finite_unvisited)
qed

section \<open>The search\<close>

function bfs :: "pjob list \<Rightarrow> string list \<Rightarrow> string list \<Rightarrow> string list \<Rightarrow> string list" where
  "bfs js visited [] chain = chain"
| "bfs js visited (jobName # queue) chain =
     (let st = foldl (scan_job jobName) (visited, queue) js
      in bfs js (fst st) (snd st) (chain @ [jobName]))"
  by pat_completeness auto
termination
proof (relation "measure (\<lambda>(js, v, q, c). card (unvisited js v) + length q)", goal_cases)
  case (2 js v u q c st)
  then show ?case
    using card_unvisited_fresh [of js v u] by (simp add: scan_jobs_eq)
qed simp

definition resolveChain :: "pipeline \<Rightarrow> string \<Rightarrow> string list" where
  "resolveChain p resourceCanonical =
     (let st = entry_points resourceCanonical (jobs_of p)
      in bfs (jobs_of p) (fst st) (snd st) [])"

section \<open>The chain is the set of jobs reachable from the entry points\<close>

definition chain_edges :: "pjob list \<Rightarrow> (string \<times> string) set" where
  "chain_edges js = {(u, j_name j) | u j. j \<in> set js \<and> downstream u j \<and> j_name j \<notin> set proto_keys}"

definition is_entry :: "string \<Rightarrow> plan_step \<Rightarrow> bool" where
  "is_entry rc s \<longleftrightarrow> (\<exists>g. get_of s = Some g \<and> canonical_of g = rc \<and> no_passed g)"

definition entry_jobs :: "string \<Rightarrow> pjob list \<Rightarrow> string set" where
  "entry_jobs rc js = {j_name j | j. j \<in> set js \<and> j_name j \<notin> set proto_keys \<and>
     (\<exists>s \<in> set (plan_of j). is_entry rc s)}"

text \<open>Every element is an entry point or has a direct upstream job before it.\<close>

definition grounded :: "string \<Rightarrow> pjob list \<Rightarrow> string list \<Rightarrow> bool" where
  "grounded rc js w \<longleftrightarrow> (\<forall>i < length w. w ! i \<in> entry_jobs rc js \<or>
     (\<exists>k < i. (w ! k, w ! i) \<in> chain_edges js))"

definition search_inv :: "string \<Rightarrow> pjob list \<Rightarrow> string list \<Rightarrow> string list \<Rightarrow> string list \<Rightarrow> bool" where
  "search_inv rc js v q c \<longleftrightarrow>
     set v = set (c @ q) \<and> distinct (c @ q) \<and> set v \<inter> set proto_keys = {}
     \<and> entry_jobs rc js \<subseteq> set v \<and> grounded rc js (c @ q)
     \<and> (\<forall>u \<in> set c. \<forall>w. (u, w) \<in> chain_edges js \<longrightarrow> w \<in> set v)"

lemma fresh_edges:
  "w \<in> set (fresh u v js) \<Longrightarrow> (u, w) \<in> chain_edges js \<and> w \<notin> set v \<and> w \<notin> set proto_keys"
  by (auto simp: set_fresh chain_edges_def flag_def)

lemma edges_fresh: "(u, w) \<in> chain_edges js \<Longrightarrow> w \<in> set v \<or> w \<in> set (fresh u v js)"
  by (auto simp: set_fresh chain_edges_def flag_def)

lemma grounded_extend:
  assumes "grounded rc js (c @ u # q)" and "\<forall>w \<in> set new. (u, w) \<in> chain_edges js"
  shows "grounded rc js (c @ u # q @ new)"
  unfolding grounded_def
proof (intro allI impI)
  fix i assume i: "i < length (c @ u # q @ new)"
  let ?w = "c @ u # q" and ?w' = "c @ u # q @ new"
  show "?w' ! i \<in> entry_jobs rc js \<or> (\<exists>k < i. (?w' ! k, ?w' ! i) \<in> chain_edges js)"
  proof (cases "i < length ?w")
    case True
    have nth: "?w' ! k = ?w ! k" if "k < length ?w" for k
      using that by (metis append.assoc append_Cons nth_append)
    from True assms(1) have "?w ! i \<in> entry_jobs rc js \<or> (\<exists>k < i. (?w ! k, ?w ! i) \<in> chain_edges js)"
      by (simp only: grounded_def)
    with True nth show ?thesis by (metis order.strict_trans)
  next
    case False
    have "?w' ! i = new ! (i - length ?w)"
      using False by (metis append.assoc append_Cons nth_append)
    moreover from False i have "i - length ?w < length new" by simp
    ultimately have "(u, ?w' ! i) \<in> chain_edges js" using assms(2) by (simp only: nth_mem)
    moreover have "?w' ! length c = u" by simp
    moreover have "length c < i" using False by simp
    ultimately show ?thesis by metis
  qed
qed

lemma search_inv_step:
  assumes "search_inv rc js v (u # q) c"
  shows "search_inv rc js (v @ fresh u v js) (q @ fresh u v js) (c @ [u])"
proof -
  let ?n = "fresh u v js"
  have n: "\<forall>w \<in> set ?n. (u, w) \<in> chain_edges js \<and> w \<notin> set v \<and> w \<notin> set proto_keys"
    using fresh_edges by blast
  have g: "grounded rc js (c @ u # q @ ?n)"
    using assms n by (intro grounded_extend) (auto simp: search_inv_def)
  show ?thesis
    using assms n g edges_fresh [of u _ js v] distinct_fresh [of u v js]
    by (fastforce simp: search_inv_def)
qed

lemma bfs_inv:
  "search_inv rc js v q c \<Longrightarrow> \<exists>v'. search_inv rc js v' [] (bfs js v q c)"
proof (induction js v q c rule: bfs.induct)
  case (2 js v u q c)
  have "search_inv rc js (v @ fresh u v js) (q @ fresh u v js) (c @ [u])"
    using "2.prems" by (rule search_inv_step)
  with "2.IH" [OF refl] show ?case by (simp add: scan_jobs_eq Let_def)
qed auto

lemma search_inv_done:
  assumes "search_inv rc js v [] c"
  shows "distinct c \<and> set c = (chain_edges js)\<^sup>* `` entry_jobs rc js \<and> grounded rc js c"
proof -
  have closed: "w \<in> set c" if "u \<in> set c" "(u, w) \<in> (chain_edges js)\<^sup>*" for u w
    using that(2,1) assms by (induction rule: rtrancl_induct) (auto simp: search_inv_def)
  have "entry_jobs rc js \<subseteq> set c" using assms by (auto simp: search_inv_def)
  then have "(chain_edges js)\<^sup>* `` entry_jobs rc js \<subseteq> set c"
    using closed by blast
  moreover have "c ! i \<in> (chain_edges js)\<^sup>* `` entry_jobs rc js" if "i < length c" for i
    using that
  proof (induction i rule: less_induct)
    case (less i)
    with assms consider "c ! i \<in> entry_jobs rc js" | k where "k < i" "(c ! k, c ! i) \<in> chain_edges js"
      by (auto simp: search_inv_def grounded_def)
    then show ?case
    proof cases
      case 2
      with less have "c ! k \<in> (chain_edges js)\<^sup>* `` entry_jobs rc js" by simp
      with 2 show ?thesis by (auto intro: rtrancl_into_rtrancl)
    qed auto
  qed
  then have "set c \<subseteq> (chain_edges js)\<^sup>* `` entry_jobs rc js"
    by (auto simp: in_set_conv_nth)
  ultimately show ?thesis using assms by (auto simp: search_inv_def)
qed

lemma entry_step_eq:
  "entry_step rc nm (v, v) s = (if is_entry rc s \<and> \<not> flag v nm then (v @ [nm], v @ [nm]) else (v, v))"
  by (auto simp: entry_step_def is_entry_def split: option.splits)

lemma entry_plan_eq:
  "foldl (entry_step rc nm) (v, v) ss =
     (if (\<exists>s \<in> set ss. is_entry rc s) \<and> \<not> flag v nm then (v @ [nm], v @ [nm]) else (v, v))"
  by (induction ss arbitrary: v) (simp_all add: entry_step_eq)

lemma entry_jobs_Cons:
  "entry_jobs rc (j # js) =
     (if j_name j \<notin> set proto_keys \<and> (\<exists>s \<in> set (plan_of j). is_entry rc s) then {j_name j} else {})
     \<union> entry_jobs rc js"
  unfolding entry_jobs_def by auto

lemma entry_points_from:
  "distinct v \<Longrightarrow>
   \<exists>w. foldl (\<lambda>st j. foldl (entry_step rc (j_name j)) st (plan_of j)) (v, v) js = (w, w)
      \<and> distinct w \<and> set w = set v \<union> entry_jobs rc js"
proof (induction js arbitrary: v)
  case Nil
  then show ?case by (simp add: entry_jobs_def)
next
  case (Cons j js)
  let ?hit = "(\<exists>s \<in> set (plan_of j). is_entry rc s) \<and> \<not> flag v (j_name j)"
  let ?v = "if ?hit then v @ [j_name j] else v"
  have "distinct ?v" using Cons.prems by (simp add: flag_def)
  from Cons.IH [OF this] obtain w where
    "foldl (\<lambda>st j. foldl (entry_step rc (j_name j)) st (plan_of j)) (?v, ?v) js = (w, w)"
    "distinct w" "set w = set ?v \<union> entry_jobs rc js" by blast
  moreover have "foldl (entry_step rc (j_name j)) (v, v) (plan_of j) = (?v, ?v)"
    by (simp add: entry_plan_eq)
  moreover have "set ?v \<union> entry_jobs rc js = set v \<union> entry_jobs rc (j # js)"
    by (auto simp: entry_jobs_Cons flag_def)
  ultimately show ?case by simp
qed

lemma entry_points_inv:
  "\<exists>v. entry_points rc js = (v, v) \<and> distinct v \<and> set v = entry_jobs rc js"
  using entry_points_from [of "[]" rc js] by (simp add: entry_points_def)

lemma resolveChain_spec:
  "distinct (resolveChain p rc)
   \<and> set (resolveChain p rc) = (chain_edges (jobs_of p))\<^sup>* `` entry_jobs rc (jobs_of p)
   \<and> grounded rc (jobs_of p) (resolveChain p rc)"
proof -
  obtain v where v: "entry_points rc (jobs_of p) = (v, v)" "distinct v" "set v = entry_jobs rc (jobs_of p)"
    using entry_points_inv by blast
  then have "search_inv rc (jobs_of p) v v []"
    by (auto simp: search_inv_def grounded_def dest: nth_mem) (auto simp: entry_jobs_def)
  with v(1) show ?thesis
    using bfs_inv search_inv_done by (fastforce simp: resolveChain_def)
qed

section \<open>Trigger resources, declaratively\<close>

definition trigger_of :: "plan_step \<Rightarrow> string list" where
  "trigger_of s = (case get_of s of None \<Rightarrow> [] | Some g \<Rightarrow> if g_trigger g \<and> no_passed g then [canonical_of g] else [])"

definition triggers :: "pipeline \<Rightarrow> string list" where
  "triggers p = concat (map (\<lambda>j. concat (map trigger_of (plan_of j))) (jobs_of p))"

text \<open>The list without repetitions, first occurrences kept.\<close>

definition firsts :: "'a list \<Rightarrow> 'a list" where
  "firsts xs = rev (remdups (rev xs))"

lemma firsts_snoc: "firsts (xs @ [x]) = (if x \<in> set xs then firsts xs else firsts xs @ [x])"
  by (simp add: firsts_def)

lemma set_firsts [simp]: "set (firsts xs) = set xs"
  by (simp add: firsts_def)

lemma dot_notin_proto: "k \<in> set proto_keys \<Longrightarrow> CHR ''.'' \<notin> set k"
  by (auto simp: proto_keys_def)

lemma canonical_not_proto: "canonical_of g \<notin> set proto_keys"
  using dot_notin_proto [of "canonical_of g"] by (auto simp: canonical_of_def)

lemma trigger_step_firsts:
  "trigger_step (firsts xs, firsts xs) s = (firsts (xs @ trigger_of s), firsts (xs @ trigger_of s))"
  by (auto simp: trigger_step_def trigger_of_def firsts_snoc flag_plain canonical_not_proto Let_def
      split: option.splits)

lemma trigger_plan_firsts:
  "foldl trigger_step (firsts xs, firsts xs) ss
   = (firsts (xs @ concat (map trigger_of ss)), firsts (xs @ concat (map trigger_of ss)))"
  by (induction ss arbitrary: xs) (simp_all add: trigger_step_firsts)

lemma trigger_jobs_firsts:
  "foldl (\<lambda>st j. foldl trigger_step st (plan_of j)) (firsts xs, firsts xs) js
   = (let r = firsts (xs @ concat (map (\<lambda>j. concat (map trigger_of (plan_of j))) js)) in (r, r))"
  by (induction js arbitrary: xs) (simp_all add: trigger_plan_firsts Let_def)

section \<open>The tree records the constraints\<close>

definition plain_names :: "string list \<Rightarrow> bool" where
  "plain_names ks \<longleftrightarrow> set ks \<inter> set proto_keys = {}"

lemma map_of_empty_lists_from:
  "map_of (foldl (\<lambda>ob k. obj_set ob k []) ob ks) k = (if k \<in> set ks then Some [] else map_of ob k)"
  by (induction ks arbitrary: ob) auto

lemma map_of_empty_lists: "map_of (empty_lists ks) k = (if k \<in> set ks then Some [] else None)"
  unfolding empty_lists_def map_of_empty_lists_from by simp

lemma add_links_ok:
  assumes "\<forall>(u, n) \<in> set ls. map_of chi u \<noteq> None \<and> map_of par n \<noteq> None"
  shows "\<exists>par' chi'. add_links ls (par, chi) = Inr (par', chi')
    \<and> (\<forall>k. map_of par' k = map_option (\<lambda>xs. xs @ map fst (filter (\<lambda>l. snd l = k) ls)) (map_of par k))
    \<and> (\<forall>k. map_of chi' k = map_option (\<lambda>xs. xs @ map snd (filter (\<lambda>l. fst l = k) ls)) (map_of chi k))"
  using assms
proof (induction ls arbitrary: par chi)
  case Nil
  then show ?case by (simp add: option.map_id0 [unfolded id_def])
next
  case (Cons l ls)
  obtain u n where l: "l = (u, n)" by (cases l)
  with Cons.prems obtain ps cs where ps: "map_of par n = Some ps" and cs: "map_of chi u = Some cs" by auto
  let ?par = "obj_set par n (ps @ [u])" and ?chi = "obj_set chi u (cs @ [n])"
  have "\<forall>(a, b) \<in> set ls. map_of ?chi a \<noteq> None \<and> map_of ?par b \<noteq> None"
    using Cons.prems by auto
  from Cons.IH [OF this] obtain par' chi' where r: "add_links ls (?par, ?chi) = Inr (par', chi')"
    "\<And>k. map_of par' k = map_option (\<lambda>xs. xs @ map fst (filter (\<lambda>l. snd l = k) ls)) (map_of ?par k)"
    "\<And>k. map_of chi' k = map_option (\<lambda>xs. xs @ map snd (filter (\<lambda>l. fst l = k) ls)) (map_of ?chi k)"
    by blast
  have "add_links (l # ls) (par, chi) = Inr (par', chi')"
    by (simp add: l obj_push_def ps cs r(1))
  with r(2,3) ps cs show ?case by (auto simp: l)
qed

text \<open>All links of a chain, in the order the loops push them.\<close>

definition chain_links :: "pipeline \<Rightarrow> string list \<Rightarrow> (string \<times> string) list" where
  "chain_links p chainJobs = concat (map (\<lambda>nm. map (\<lambda>u. (u, nm)) (job_links p chainJobs nm)) chainJobs)"

lemma set_job_links_flag: "u \<in> set (job_links p c n) \<Longrightarrow> flag c u"
  by (auto simp: job_links_def split: option.splits)

lemma buildTree_ok:
  assumes "\<forall>n \<in> set c. set (job_links p c n) \<subseteq> set c"
  shows "\<exists>t. buildTree p c = Inr t
    \<and> (\<forall>k \<in> set c. list_at (parents t) k = map fst (filter (\<lambda>l. snd l = k) (chain_links p c)))
    \<and> (\<forall>k \<in> set c. list_at (children t) k = map snd (filter (\<lambda>l. fst l = k) (chain_links p c)))
    \<and> (\<forall>k. k \<notin> set c \<longrightarrow> list_at (children t) k = [] \<and> list_at (parents t) k = [])
    \<and> roots t = filter (\<lambda>n. list_at (parents t) n = []) c"
proof -
  have "\<forall>(u, n) \<in> set (chain_links p c). map_of (empty_lists c) u \<noteq> None \<and> map_of (empty_lists c) n \<noteq> None"
    using assms by (auto simp: chain_links_def map_of_empty_lists)
  from add_links_ok [OF this] obtain par chi where
    r: "add_links (chain_links p c) (empty_lists c, empty_lists c) = Inr (par, chi)"
    and par: "\<And>k. map_of par k = map_option (\<lambda>xs. xs @ map fst (filter (\<lambda>l. snd l = k) (chain_links p c))) (map_of (empty_lists c) k)"
    and chi: "\<And>k. map_of chi k = map_option (\<lambda>xs. xs @ map snd (filter (\<lambda>l. fst l = k) (chain_links p c))) (map_of (empty_lists c) k)"
    by blast
  from r have "buildTree p c = Inr \<lparr>roots = filter (\<lambda>n. length (list_at par n) = 0) c, children = chi, parents = par\<rparr>"
    by (simp add: buildTree_def chain_links_def)
  with par chi show ?thesis by (auto simp: list_at_def map_of_empty_lists)
qed

lemma job_links_in_chain: "plain_names ps \<Longrightarrow> u \<in> set (job_links p c n) \<Longrightarrow> u \<in> set ps \<Longrightarrow> u \<in> set c"
  using set_job_links_flag [of u p c n] by (auto simp: plain_names_def flag_def)

lemma add_links_error:
  assumes "\<exists>l \<in> set ls. map_of chi (fst l) = None"
  shows "add_links ls (par, chi) = Inl TypeError"
  using assms
proof (induction ls arbitrary: par chi)
  case (Cons l ls)
  obtain u n where l: "l = (u, n)" by (cases l)
  show ?case
  proof (cases "map_of par n = None \<or> map_of chi u = None")
    case True
    then show ?thesis by (auto simp: l obj_push_def split: option.splits)
  next
    case False
    then obtain ps cs where "map_of par n = Some ps" "map_of chi u = Some cs" by auto
    moreover have "\<exists>l \<in> set ls. map_of (obj_set chi u (cs @ [n])) (fst l) = None"
    proof -
      from Cons.prems False obtain m where "m \<in> set ls" "map_of chi (fst m) = None" by (auto simp: l)
      moreover from this False have "fst m \<noteq> u" by auto
      ultimately show ?thesis by auto
    qed
    ultimately show ?thesis using Cons.IH by (simp add: l obj_push_def)
  qed
qed simp

lemma buildTree_fails:
  assumes "n \<in> set c" and "u \<in> set (job_links p c n)" and "u \<notin> set c"
  shows "buildTree p c = Inl TypeError"
proof -
  have "(u, n) \<in> set (chain_links p c)" using assms by (auto simp: chain_links_def)
  then have "\<exists>l \<in> set (chain_links p c). map_of (empty_lists c) (fst l) = None"
    using assms(3) by (auto simp: map_of_empty_lists intro!: bexI)
  then show ?thesis by (simp add: buildTree_def add_links_error flip: chain_links_def)
qed

lemma count_map_filter:
  "count_list (map snd (filter (\<lambda>l. fst l = u) ls)) n = count_list (map fst (filter (\<lambda>l. snd l = n) ls)) u"
  by (induction ls) auto

section \<open>Properties\<close>

text \<open>
  C4. The chain of a resource is reachability: \<open>resolveChain\<close> returns, without repetition, exactly
  the jobs reachable from the entry jobs along \<open>passed\<close> constraints, and each listed job is an entry
  job or comes after one of its direct upstream jobs. (Jobs named like a key of \<open>Object.prototype\<close>
  are not nodes of the graph.)
\<close>

theorem resolveChain_reachability:
  "distinct (resolveChain p rc)
   \<and> set (resolveChain p rc) = (chain_edges (jobs_of p))\<^sup>* `` entry_jobs rc (jobs_of p)
   \<and> grounded rc (jobs_of p) (resolveChain p rc)"
  by (rule resolveChain_spec)

text \<open>
  A job named \<open>constructor\<close> (a valid job name) is never in a chain, whatever it gets: the
  \<open>visited\<close> object literal already has that key, by inheritance.
\<close>

theorem resolveChain_drops_constructor:
  "''constructor'' \<notin> set (resolveChain p rc)"
proof
  assume "''constructor'' \<in> set (resolveChain p rc)"
  then obtain e where "e \<in> entry_jobs rc (jobs_of p)" "(e, ''constructor'') \<in> (chain_edges (jobs_of p))\<^sup>*"
    using resolveChain_spec [of p rc] by auto
  moreover have "''constructor'' \<in> set proto_keys" by (simp add: proto_keys_def)
  ultimately show False
    by (auto simp: entry_jobs_def chain_edges_def elim: rtranclE)
qed

text \<open>
  The trigger resources are the canonical names of the triggering \<open>get\<close> steps without \<open>passed\<close>
  constraint, each once, in the order of their first occurrence.
\<close>

theorem findTriggerResources_firsts:
  "findTriggerResources p = firsts (triggers p)"
  using trigger_jobs_firsts [of "[]" "jobs_of p"]
  by (simp add: findTriggerResources_def triggers_def Let_def firsts_def)

text \<open>
  The tree records the constraints inside the chain: when no constraint of a chain job leaves
  the chain through an inherited key, \<open>buildTree\<close> succeeds, parents and children mirror each other
  with multiplicity, the parents of a job are the chain jobs its plan passed, and the roots are the
  chain jobs without parents, in chain order.
\<close>

theorem buildTree_links:
  assumes "\<forall>n \<in> set c. set (job_links p c n) \<subseteq> set c"
  shows "\<exists>t. buildTree p c = Inr t
    \<and> (\<forall>u n. count_list (list_at (children t) u) n = count_list (list_at (parents t) n) u)
    \<and> (\<forall>n \<in> set c. set (list_at (parents t) n) = set (job_links p c n))
    \<and> roots t = filter (\<lambda>n. list_at (parents t) n = []) c"
proof -
  have in_c: "u \<in> set c" if "n \<in> set c" "u \<in> set (job_links p c n)" for u n
    using assms that by blast
  have ends: "fst l \<in> set c \<and> snd l \<in> set c" if "l \<in> set (chain_links p c)" for l
    using that in_c by (auto simp: chain_links_def)
  from buildTree_ok [OF assms] obtain t where t: "buildTree p c = Inr t"
    "\<And>k. k \<in> set c \<Longrightarrow> list_at (parents t) k = map fst (filter (\<lambda>l. snd l = k) (chain_links p c))"
    "\<And>k. k \<in> set c \<Longrightarrow> list_at (children t) k = map snd (filter (\<lambda>l. fst l = k) (chain_links p c))"
    "\<And>k. k \<notin> set c \<Longrightarrow> list_at (children t) k = [] \<and> list_at (parents t) k = []"
    "roots t = filter (\<lambda>n. list_at (parents t) n = []) c" by blast
  have par: "list_at (parents t) k = map fst (filter (\<lambda>l. snd l = k) (chain_links p c))" for k
    using t(2,4) ends by (cases "k \<in> set c") (auto simp: filter_empty_conv)
  have chi: "list_at (children t) k = map snd (filter (\<lambda>l. fst l = k) (chain_links p c))" for k
    using t(3,4) ends by (cases "k \<in> set c") (auto simp: filter_empty_conv)
  have "set (list_at (parents t) n) = set (job_links p c n)" if "n \<in> set c" for n
    using that unfolding par chain_links_def by (force simp: image_iff)
  with t(1,5) par chi count_map_filter show ?thesis by metis
qed

text \<open>
  The only failure of \<open>buildTree\<close>: it throws exactly when some chain job passed a name that is
  not in the chain but that the flag object \<open>chainSet\<close> inherits (such as \<open>constructor\<close>).
\<close>

theorem buildTree_throws_iff:
  "buildTree p c = Inl TypeError \<longleftrightarrow>
     (\<exists>n \<in> set c. \<exists>u \<in> set (job_links p c n). u \<notin> set c \<and> u \<in> set proto_keys)"
proof
  assume err: "buildTree p c = Inl TypeError"
  have "\<not> (\<forall>n \<in> set c. set (job_links p c n) \<subseteq> set c)"
  proof
    assume "\<forall>n \<in> set c. set (job_links p c n) \<subseteq> set c"
    from buildTree_ok [OF this] err show False by auto
  qed
  then obtain n u where "n \<in> set c" "u \<in> set (job_links p c n)" "u \<notin> set c" by blast
  moreover from this have "u \<in> set proto_keys" using set_job_links_flag [of u p c n] by (simp add: flag_def)
  ultimately show "\<exists>n \<in> set c. \<exists>u \<in> set (job_links p c n). u \<notin> set c \<and> u \<in> set proto_keys" by blast
next
  assume "\<exists>n \<in> set c. \<exists>u \<in> set (job_links p c n). u \<notin> set c \<and> u \<in> set proto_keys"
  then show "buildTree p c = Inl TypeError" using buildTree_fails by blast
qed

section \<open>Examples\<close>

definition get_passing :: "string \<Rightarrow> string list \<Rightarrow> plan_step" where
  "get_passing r ps = \<lparr>p_type = ''get'', p_get = Some \<lparr>g_type = ''git'', g_name = r, g_trigger = True,
     g_passed = (if ps = [] then None else Some ps)\<rparr>\<rparr>"

definition demo_job :: "string \<Rightarrow> plan_step list \<Rightarrow> pjob" where
  "demo_job n ss = \<lparr>j_name = n, j_plan = Some ss\<rparr>"

definition demo_pipeline :: "pjob list \<Rightarrow> pipeline" where
  "demo_pipeline js = \<lparr>pl_name = ''demo'', pl_canonical = ''demo'', pl_jobs = Some js\<rparr>"

lemmas demo_defs = get_passing_def demo_job_def demo_pipeline_def jobs_of_def plan_of_def get_of_def
  canonical_of_def no_passed_def flag_def proto_keys_def

theorem buildTree_links_witness:
  "\<exists>t. buildTree (demo_pipeline [demo_job ''a'' [get_passing ''r'' []], demo_job ''b'' [get_passing ''r'' [''a'']]])
         [''a'', ''b''] = Inr t \<and> roots t = filter (\<lambda>n. list_at (parents t) n = []) [''a'', ''b'']"
proof -
  let ?p = "demo_pipeline [demo_job ''a'' [get_passing ''r'' []], demo_job ''b'' [get_passing ''r'' [''a'']]]"
  have "job_links ?p [''a'', ''b''] ''a'' = []" "job_links ?p [''a'', ''b''] ''b'' = [''a'']"
    by (simp_all add: job_links_def demo_defs)
  then have "\<forall>n \<in> set [''a'', ''b'']. set (job_links ?p [''a'', ''b''] n) \<subseteq> set [''a'', ''b'']" by simp
  from buildTree_links [OF this] show ?thesis by blast
qed

end
