(* ===== verification/PipelineTree.thy ===== *)
theory PipelineTree
  imports PipelineChain "HOL-Library.List_Lexorder" "HOL-Library.Char_ord"
begin

text \<open>
  The job list of \<open>PipelineListView.js\<close>: \<open>renderTree\<close>, \<open>renderChildren\<close> and \<open>renderParallelGroup\<close>
  with the \<open>rendered\<close> object threaded through them. The output keeps which job rows appear, in
  which nesting and order, and the alignment class; the remaining markup is presentation.
  \<open>renderParallelGroup\<close> receives \<open>renderChildren\<close> as an argument in the source, and so it does here:
  \<open>child_renderer\<close> is the contract it relies on, and every level of the recursion satisfies it.

  The recursion has no structural measure. \<open>renderChildren\<close> takes fuel for its depth, \<open>None\<close> is running
  out, and one unit per parent-child link of the tree is enough (\<open>renderTree_draws_reachable\<close>),
  because every nested call has marked a job that its caller had not.
\<close>

section \<open>Output\<close>

datatype node = Row string bool | Group "string list" "node list" | FanIn "node list" "node list"

fun rows :: "node \<Rightarrow> string list" where
  "rows (Row n al) = [n]"
| "rows (Group js ns) = concat (map rows ns)"
| "rows (FanIn ss cs) = concat (map rows ss) @ concat (map rows cs)"

abbreviation all_rows :: "node list \<Rightarrow> string list" where
  "all_rows ns \<equiv> concat (map rows ns)"

type_synonym renderer = "string list \<Rightarrow> string list \<Rightarrow> (node list \<times> string list) option"

text \<open>\<open>rendered[n] = true\<close>.\<close>

definition mark :: "string list \<Rightarrow> string \<Rightarrow> string list" where
  "mark r n = (if n \<in> set r then r else r @ [n])"

section \<open>Rows and parallel groups\<close>

text \<open>\<open>names.map(n => \{ rendered[n] = true; row; renderChildrenFn([n], rendered) \})\<close>.\<close>

fun render_rows :: "renderer \<Rightarrow> bool \<Rightarrow> string list \<Rightarrow> string list \<Rightarrow> (node list \<times> string list) option" where
  "render_rows kids al [] r = Some ([], r)"
| "render_rows kids al (n # ns) r =
     (case kids [n] (mark r n) of
        None \<Rightarrow> None
      | Some (ks, r1) \<Rightarrow>
          (case render_rows kids al ns r1 of
             None \<Rightarrow> None
           | Some (ms, r2) \<Rightarrow> Some (Row n al # ks @ ms, r2)))"

text \<open>Children all of whose parents (two at least) are in the group, and those parents.\<close>

record fan =
  fanInChildren :: "string list"
  fanInParentSet :: "string list"
  fan_rendered :: "string list"

definition fan_kid :: "tree \<Rightarrow> string list \<Rightarrow> fan \<Rightarrow> string \<Rightarrow> fan" where
  "fan_kid t jobNames st kid =
     (if flag (fan_rendered st) kid then st
      else
        (let kidParents = list_at (parents t) kid in
         if length kidParents \<ge> 2 \<and> list_all (flag jobNames) kidParents
         then st\<lparr>fan_rendered := mark (fan_rendered st) kid,
                 fanInChildren := fanInChildren st @ [kid],
                 fanInParentSet := foldl mark (fanInParentSet st) kidParents\<rparr>
         else st))"

definition fan_in :: "tree \<Rightarrow> string list \<Rightarrow> string list \<Rightarrow> fan" where
  "fan_in t jobNames r =
     foldl (\<lambda>st n. foldl (fan_kid t jobNames) st (list_at (children t) n))
       \<lparr>fanInChildren = [], fanInParentSet = [], fan_rendered = r\<rparr> jobNames"

text \<open>
  The fan-in section is built first; the other members follow in order, and the section stands where
  the first fan-in parent is (at the end if there is none).
\<close>

definition renderParallelGroup :: "tree \<Rightarrow> string list \<Rightarrow> string list \<Rightarrow> renderer \<Rightarrow> (node \<times> string list) option" where
  "renderParallelGroup t jobNames rendered renderChildrenFn =
     (let st = fan_in t jobNames rendered;
          hasFanIn = (length (fanInChildren st) > 0);
          isParent = flag (fanInParentSet st);
          before = takeWhile (\<lambda>n. \<not> isParent n) jobNames;
          after = filter (\<lambda>n. \<not> isParent n) (dropWhile (\<lambda>n. \<not> isParent n) jobNames)
      in case render_rows renderChildrenFn False (if hasFanIn then filter isParent jobNames else []) (fan_rendered st) of
           None \<Rightarrow> None
         | Some (sec, r1) \<Rightarrow>
         (case render_rows renderChildrenFn False (fanInChildren st) r1 of
           None \<Rightarrow> None
         | Some (cont, r2) \<Rightarrow>
         (case render_rows renderChildrenFn hasFanIn before r2 of
           None \<Rightarrow> None
         | Some (bs, r3) \<Rightarrow>
         (case render_rows renderChildrenFn hasFanIn after r3 of
           None \<Rightarrow> None
         | Some (as, r4) \<Rightarrow>
             Some (Group jobNames (bs @ (if hasFanIn then [FanIn sec cont] else []) @ as), r4)))))"

section \<open>Children\<close>

text \<open>Siblings are grouped by their sorted parent list.\<close>

definition groupKey :: "tree \<Rightarrow> string \<Rightarrow> string" where
  "groupKey t nm = join_with '','' (sort (list_at (parents t) nm))"

definition group_kid :: "tree \<Rightarrow> string list \<Rightarrow> string list jsobj \<Rightarrow> string \<Rightarrow> string list jsobj" where
  "group_kid t r acc k =
     (if flag r k then acc else obj_set acc (groupKey t k) (list_at acc (groupKey t k) @ [k]))"

definition group_kids :: "tree \<Rightarrow> string list \<Rightarrow> string list \<Rightarrow> string list jsobj" where
  "group_kids t kids r = foldl (group_kid t r) [] kids"

definition render_group :: "tree \<Rightarrow> renderer \<Rightarrow> string list \<Rightarrow> string list \<Rightarrow> (node list \<times> string list) option" where
  "render_group t fn gr r =
     (if gr = [] then Some ([], r)
      else if length gr \<ge> 2
      then map_option (\<lambda>(nd, r'). ([nd], r')) (renderParallelGroup t gr (foldl mark r gr) fn)
      else render_rows fn False gr r)"

fun render_groups :: "tree \<Rightarrow> renderer \<Rightarrow> string list list \<Rightarrow> string list \<Rightarrow> (node list \<times> string list) option" where
  "render_groups t fn [] r = Some ([], r)"
| "render_groups t fn (g # gs) r =
     (case render_group t fn (filter (\<lambda>n. \<not> flag r n) g) r of
        None \<Rightarrow> None
      | Some (ns, r1) \<Rightarrow>
          (case render_groups t fn gs r1 of None \<Rightarrow> None | Some (ms, r2) \<Rightarrow> Some (ns @ ms, r2)))"

fun children_with :: "tree \<Rightarrow> renderer \<Rightarrow> renderer" where
  "children_with t fn [] r = Some ([], r)"
| "children_with t fn (p # ps) r =
     (case render_groups t fn (map snd (group_kids t (list_at (children t) p) r)) r of
        None \<Rightarrow> None
      | Some (ns, r1) \<Rightarrow>
          (case children_with t fn ps r1 of None \<Rightarrow> None | Some (ms, r2) \<Rightarrow> Some (ns @ ms, r2)))"

primrec renderChildren :: "tree \<Rightarrow> nat \<Rightarrow> renderer" where
  "renderChildren t 0 = (\<lambda>ps r. children_with t (\<lambda>_ _. None) ps r)"
| "renderChildren t (Suc fuel) = (\<lambda>ps r. children_with t (renderChildren t fuel) ps r)"

definition renderTree_fuel :: "tree \<Rightarrow> nat \<Rightarrow> node list option" where
  "renderTree_fuel t fuel =
     (if length (roots t) \<ge> 2
      then map_option (\<lambda>(nd, r). [nd]) (renderParallelGroup t (roots t) (foldl mark [] (roots t)) (renderChildren t fuel))
      else if length (roots t) = 1
      then map_option fst (render_rows (renderChildren t fuel) False (roots t) [])
      else Some [])"

text \<open>One unit of fuel per parent-child link; without a selected resource nothing is drawn.\<close>

definition renderTree :: "string option \<Rightarrow> tree \<Rightarrow> node list option" where
  "renderTree selectedResource t =
     (if selectedResource = None then Some [] else renderTree_fuel t (length (concat (map snd (children t)))))"

section \<open>Basic facts\<close>

lemma set_mark [simp]: "set (mark r n) = insert n (set r)"
  by (auto simp: mark_def)

lemma set_foldl_mark [simp]: "set (foldl mark r ns) = set r \<union> set ns"
  by (induction ns arbitrary: r) auto

lemma flag_set_cong: "set r = set r' \<Longrightarrow> flag r = flag r'"
  by (simp add: flag_def fun_eq_iff)

lemma flag_mono: "flag r k \<Longrightarrow> set r \<subseteq> set r' \<Longrightarrow> flag r' k"
  by (auto simp: flag_def)

lemma flag_mark [simp]: "flag (mark r n) k \<longleftrightarrow> k = n \<or> flag r k"
  by (auto simp: flag_def)

lemma flag_foldl_mark [simp]: "flag (foldl mark r ns) k \<longleftrightarrow> k \<in> set ns \<or> flag r k"
  by (auto simp: flag_def)

text \<open>What the fan-in search keeps: the children found are new, distinct, marked, and real children.\<close>

definition fan_ok :: "tree \<Rightarrow> string list \<Rightarrow> string list \<Rightarrow> fan \<Rightarrow> bool" where
  "fan_ok t js r st \<longleftrightarrow>
     set (fan_rendered st) = set r \<union> set (fanInChildren st)
     \<and> distinct (fanInChildren st)
     \<and> (\<forall>k \<in> set (fanInChildren st). \<not> flag r k \<and> (\<exists>n \<in> set js. k \<in> set (list_at (children t) n)))
     \<and> (fanInChildren st = [] \<longrightarrow> fanInParentSet st = [])"

lemma fan_ok_kid:
  "fan_ok t js r st \<Longrightarrow> n \<in> set js \<Longrightarrow> k \<in> set (list_at (children t) n) \<Longrightarrow> fan_ok t js r (fan_kid t js st k)"
  by (auto simp: fan_ok_def fan_kid_def Let_def flag_def)

lemma fan_ok_kids:
  "fan_ok t js r st \<Longrightarrow> n \<in> set js \<Longrightarrow> set ks \<subseteq> set (list_at (children t) n) \<Longrightarrow>
   fan_ok t js r (foldl (fan_kid t js) st ks)"
  by (induction ks arbitrary: st) (auto intro: fan_ok_kid)

lemma fan_ok_jobs:
  "fan_ok t js r st \<Longrightarrow> set ns \<subseteq> set js \<Longrightarrow>
   fan_ok t js r (foldl (\<lambda>st n. foldl (fan_kid t js) st (list_at (children t) n)) st ns)"
  by (induction ns arbitrary: st) (auto intro: fan_ok_kids)

lemma fan_ok_fan_in: "fan_ok t js r (fan_in t js r)"
  unfolding fan_in_def by (rule fan_ok_jobs) (auto simp: fan_ok_def)

text \<open>The lists of an object that grows by pushing.\<close>

definition members :: "string list jsobj \<Rightarrow> string set" where
  "members ob = (\<Union>xs \<in> snd ` set ob. set xs)"

lemma obj_set_lists:
  "distinct (map fst ob) \<Longrightarrow>
   snd ` set (obj_set ob k v) = insert v (snd ` {e \<in> set ob. fst e \<noteq> k})"
  by (induction ob k v rule: obj_set.induct) (auto simp: image_iff)

lemma list_at_entry: "distinct (map fst ob) \<Longrightarrow> e \<in> set ob \<Longrightarrow> list_at ob (fst e) = snd e"
  by (cases e) (simp add: list_at_def)

lemma list_at_cases: "list_at ob k = [] \<or> (k, list_at ob k) \<in> set ob"
  by (cases "map_of ob k") (auto simp: list_at_def map_of_SomeD)

lemma list_at_members: "set (list_at ob k) \<subseteq> members ob"
  using list_at_cases [of ob k] by (force simp: members_def)

lemma members_push:
  assumes "distinct (map fst ob)"
  shows "members (obj_set ob k (list_at ob k @ [x])) = insert x (members ob)"
proof
  show "members (obj_set ob k (list_at ob k @ [x])) \<subseteq> insert x (members ob)"
    using list_at_members [of ob k] by (auto simp: members_def obj_set_lists [OF assms])
  show "insert x (members ob) \<subseteq> members (obj_set ob k (list_at ob k @ [x]))"
    using list_at_entry [OF assms] by (fastforce simp: members_def obj_set_lists [OF assms])
qed

definition groups_ok :: "string list jsobj \<Rightarrow> bool" where
  "groups_ok acc \<longleftrightarrow> distinct (map fst acc) \<and> (\<forall>g \<in> snd ` set acc. distinct g)"

lemma group_kid_keys: "distinct (map fst acc) \<Longrightarrow> distinct (map fst (group_kid t r acc k))"
  by (simp add: group_kid_def distinct_obj_set)

lemma group_kid_members:
  "distinct (map fst acc) \<Longrightarrow> members (group_kid t r acc k) = members acc \<union> {x. x = k \<and> \<not> flag r k}"
  by (auto simp: group_kid_def members_push)

lemma group_kid_distinct:
  assumes "groups_ok acc" and "k \<notin> members acc"
  shows "groups_ok (group_kid t r acc k)"
proof -
  have d: "distinct (list_at acc (groupKey t k))"
    using assms(1) list_at_cases [of acc "groupKey t k"] by (force simp: groups_ok_def)
  have "k \<notin> set (list_at acc (groupKey t k))"
    using assms(2) list_at_members by fastforce
  with d have "\<forall>g \<in> snd ` set (obj_set acc (groupKey t k) (list_at acc (groupKey t k) @ [k])). distinct g"
    using assms(1) by (subst obj_set_lists) (auto simp: groups_ok_def)
  with assms(1) show ?thesis by (simp add: groups_ok_def group_kid_def distinct_obj_set)
qed

lemma group_kids_from:
  "distinct (map fst acc) \<Longrightarrow>
   members (foldl (group_kid t r) acc kids) = members acc \<union> {k \<in> set kids. \<not> flag r k}"
  by (induction kids arbitrary: acc) (auto simp: group_kid_keys group_kid_members)

lemma group_kids_members: "members (group_kids t kids r) = {k \<in> set kids. \<not> flag r k}"
  unfolding group_kids_def by (subst group_kids_from) (auto simp: members_def)

lemma group_kids_distinct_from:
  "groups_ok acc \<Longrightarrow> distinct kids \<Longrightarrow> members acc \<inter> set kids = {} \<Longrightarrow>
   groups_ok (foldl (group_kid t r) acc kids)"
proof (induction kids arbitrary: acc)
  case (Cons k kids)
  have "groups_ok (group_kid t r acc k)"
    using Cons.prems by (intro group_kid_distinct) auto
  moreover have "members (group_kid t r acc k) \<inter> set kids = {}"
    using Cons.prems group_kid_members [of acc t r k] by (auto simp: groups_ok_def)
  ultimately show ?case using Cons by simp
qed simp

lemma group_kids_distinct: "distinct kids \<Longrightarrow> g \<in> snd ` set (group_kids t kids r) \<Longrightarrow> distinct g"
  using group_kids_distinct_from [of "[]" kids t r]
  by (auto simp: group_kids_def members_def groups_ok_def)

section \<open>The contract of a child renderer\<close>

definition kid_rel :: "tree \<Rightarrow> (string \<times> string) set" where
  "kid_rel t = {(u, k). k \<in> set (list_at (children t) u)}"

definition covered :: "tree \<Rightarrow> string list \<Rightarrow> string \<Rightarrow> bool" where
  "covered t r n \<longleftrightarrow> (\<forall>k \<in> set (list_at (children t) n). flag r k)"

text \<open>No job appears twice in a list of children.\<close>

definition uniq :: "tree \<Rightarrow> bool" where
  "uniq t \<longleftrightarrow> (\<forall>u. distinct (list_at (children t) u))"

text \<open>
  \<open>fills t K r w r'\<close>: starting from flags \<open>r\<close>, the rows \<open>w\<close> are what was missing below and
  including the candidates \<open>K\<close>, and the flags become \<open>r'\<close>. \<open>drawn t js r w r'\<close> is the same for jobs
  \<open>js\<close> that were already flagged and are all drawn.
\<close>

definition fills :: "tree \<Rightarrow> string set \<Rightarrow> string list \<Rightarrow> string list \<Rightarrow> string list \<Rightarrow> bool" where
  "fills t K r w r' \<longleftrightarrow>
     set r' = set r \<union> set w
     \<and> (\<forall>k \<in> K. flag r' k)
     \<and> (\<forall>n \<in> set w. covered t r' n)
     \<and> set w \<subseteq> (kid_rel t)\<^sup>* `` K
     \<and> (uniq t \<longrightarrow> distinct w \<and> set w \<inter> set r = {})"

definition drawn :: "tree \<Rightarrow> string list \<Rightarrow> string list \<Rightarrow> string list \<Rightarrow> string list \<Rightarrow> bool" where
  "drawn t js r w r' \<longleftrightarrow>
     set r' = set r \<union> set w
     \<and> set js \<subseteq> set w
     \<and> (\<forall>n \<in> set w. covered t r' n)
     \<and> set w \<subseteq> (kid_rel t)\<^sup>* `` set js
     \<and> (uniq t \<and> distinct js \<longrightarrow> distinct w \<and> (set w - set js) \<inter> set r = {})"

lemma covered_mono: "covered t r n \<Longrightarrow> set r \<subseteq> set r' \<Longrightarrow> covered t r' n"
  by (auto simp: covered_def flag_def)

lemma fills_Nil: "(\<forall>k \<in> K. flag r k) \<Longrightarrow> set r' = set r \<Longrightarrow> fills t K r [] r'"
  by (auto simp: fills_def flag_def)

lemma fills_append:
  assumes "fills t K r w r1" and "fills t L r1 v r2"
  shows "fills t (K \<union> L) r (w @ v) r2"
proof -
  have "set r1 \<subseteq> set r2" using assms(2) by (auto simp: fills_def)
  then have "\<forall>n \<in> set w. covered t r2 n" "\<forall>k \<in> K. flag r2 k"
    using assms(1) unfolding fills_def by (meson covered_mono flag_mono)+
  with assms show ?thesis unfolding fills_def by (simp add: Image_Un) blast
qed

lemma drawn_Nil: "drawn t [] r [] r"
  by (simp add: drawn_def)

lemma drawn_append:
  assumes "drawn t as r w r1" and "drawn t bs r1 v r2" and "set (as @ bs) \<subseteq> set r"
  shows "drawn t (as @ bs) r (w @ v) r2"
proof -
  have sub: "set r1 \<subseteq> set r2" using assms(2) by (auto simp: drawn_def)
  then have "\<forall>n \<in> set w. covered t r2 n"
    using assms(1) unfolding drawn_def by (meson covered_mono)
  moreover have "distinct (w @ v) \<and> (set (w @ v) - set (as @ bs)) \<inter> set r = {}"
    if u: "uniq t" "distinct (as @ bs)"
  proof -
    from assms(1) u have w: "distinct w" "(set w - set as) \<inter> set r = {}" "set r1 = set r \<union> set w"
      by (auto simp: drawn_def)
    from assms(2) u have v: "distinct v" "(set v - set bs) \<inter> set r1 = {}"
      by (auto simp: drawn_def)
    have "set w \<inter> set bs = {}" using w(2) assms(3) u(2) by auto
    with v(2) w(3) have "set w \<inter> set v = {}" by blast
    with w v show ?thesis by auto
  qed
  moreover have "set r2 = set r \<union> set (w @ v)" "set (as @ bs) \<subseteq> set (w @ v)"
      "set (w @ v) \<subseteq> (kid_rel t)\<^sup>* `` set (as @ bs)" "\<forall>n \<in> set v. covered t r2 n"
    using assms(1,2) by (auto simp: drawn_def)
  ultimately show ?thesis unfolding drawn_def by auto
qed

lemma drawn_perm:
  assumes "drawn t js r w r'" and "mset js = mset js'" and "mset w = mset w'"
  shows "drawn t js' r w' r'"
proof -
  have "set js = set js'" "distinct js = distinct js'" "set w = set w'" "distinct w = distinct w'"
    using assms(2,3) by (auto dest: mset_eq_setD mset_eq_imp_distinct_iff)
  with assms(1) show ?thesis unfolding drawn_def by simp
qed

lemma drawn_fills:
  assumes "drawn t js r1 w r'" and "set r1 = set r \<union> set js" and "\<forall>j \<in> set js. \<not> flag r j"
    and "uniq t \<longrightarrow> distinct js"
  shows "fills t (set js) r w r'"
  using assms unfolding drawn_def fills_def by (auto simp: flag_def)

text \<open>A row followed by what its children fill.\<close>

lemma drawn_row:
  assumes "fills t (set (list_at (children t) n)) r w r1" and "n \<in> set r"
  shows "drawn t [n] r (n # w) r1"
proof -
  have "(kid_rel t)\<^sup>* `` set (list_at (children t) n) \<subseteq> (kid_rel t)\<^sup>* `` {n}"
    by (auto simp: kid_rel_def intro: converse_rtrancl_into_rtrancl)
  moreover have "covered t r1 n" using assms(1) by (simp add: fills_def covered_def)
  ultimately show ?thesis using assms unfolding fills_def drawn_def by simp blast
qed

lemma fills_cong: "fills t K r w r' \<Longrightarrow> set r = set q \<Longrightarrow> fills t K q w r'"
  by (simp add: fills_def)

text \<open>What a parallel group needs of \<open>fan_in\<close>: the section's jobs are drawn on behalf of the group.\<close>

lemma drawn_fan_in:
  assumes "drawn t (js @ fanInChildren (fan_in t js r)) (fan_rendered (fan_in t js r)) w r'"
    and "set js \<subseteq> set r"
  shows "drawn t js r w r'"
proof -
  let ?st = "fan_in t js r" let ?fc = "fanInChildren ?st"
  have ok: "set (fan_rendered ?st) = set r \<union> set ?fc" "distinct ?fc"
    "\<forall>k \<in> set ?fc. \<not> flag r k \<and> (\<exists>n \<in> set js. k \<in> set (list_at (children t) n))"
    using fan_ok_fan_in [of t js r] by (auto simp: fan_ok_def)
  have "set ?fc \<subseteq> (kid_rel t)\<^sup>* `` set js" using ok(3) by (auto simp: kid_rel_def Image_iff)
  then have "(kid_rel t)\<^sup>* `` set (js @ ?fc) \<subseteq> (kid_rel t)\<^sup>* `` set js"
    by (auto simp: Image_Un) (meson Image_singleton_iff ImageE ImageI rtrancl_trans subsetD)
  moreover have disj: "set ?fc \<inter> set r = {}" using ok(3) by (auto simp: flag_def)
  ultimately show ?thesis
    using assms ok(1,2) unfolding drawn_def by (simp add: Int_Un_distrib) blast
qed

lemma mset_split_group:
  "mset (filter P js @ takeWhile (\<lambda>n. \<not> P n) js @ filter (\<lambda>n. \<not> P n) (dropWhile (\<lambda>n. \<not> P n) js)) = mset js"
  by (induction js) auto

locale child_renderer =
  fixes t :: tree and kids :: renderer
  assumes kids_fill: "kids ps r = Some (ns, r') \<Longrightarrow>
    fills t (\<Union>p \<in> set ps. set (list_at (children t) p)) r (all_rows ns) r'"
begin

lemma rows_drawn:
  "render_rows kids al js r = Some (ns, r') \<Longrightarrow> set js \<subseteq> set r \<Longrightarrow> drawn t js r (all_rows ns) r'"
proof (induction js arbitrary: r ns)
  case (Cons n js)
  then obtain ks r1 ms where k: "kids [n] (mark r n) = Some (ks, r1)"
    and m: "render_rows kids al js r1 = Some (ms, r')" and ns: "ns = Row n al # ks @ ms"
    by (auto split: option.splits)
  have f: "fills t (set (list_at (children t) n)) r (all_rows ks) r1"
    using kids_fill [OF k] Cons.prems(2) by (auto intro: fills_cong)
  then have "drawn t [n] r (n # all_rows ks) r1" using Cons.prems(2) by (auto intro: drawn_row)
  moreover have "drawn t js r1 (all_rows ms) r'"
    using Cons.IH [OF m] Cons.prems(2) f by (auto simp: fills_def)
  ultimately have "drawn t ([n] @ js) r ((n # all_rows ks) @ all_rows ms) r'"
    using Cons.prems(2) by (intro drawn_append) auto
  then show ?case by (simp add: ns)
qed (simp add: drawn_Nil)

lemma rows_then:
  assumes "render_rows kids al as r = Some (ns, r1)" and "set (as @ bs) \<subseteq> set r"
    and "set bs \<subseteq> set r1 \<Longrightarrow> drawn t bs r1 v r2"
  shows "drawn t (as @ bs) r (all_rows ns @ v) r2"
proof -
  have d: "drawn t as r (all_rows ns) r1" using rows_drawn [OF assms(1)] assms(2) by simp
  then have "set bs \<subseteq> set r1" using assms(2) by (auto simp: drawn_def)
  from drawn_append [OF d assms(3) [OF this] assms(2)] show ?thesis .
qed

lemma rows4_drawn:
  assumes "render_rows kids al1 as r = Some (n1, r1)" and "render_rows kids al2 bs r1 = Some (n2, r2)"
    and "render_rows kids al3 cs r2 = Some (n3, r3)" and "render_rows kids al4 ds r3 = Some (n4, r4)"
    and "set (as @ bs @ cs @ ds) \<subseteq> set r"
  shows "drawn t (as @ bs @ cs @ ds) r (all_rows n1 @ all_rows n2 @ all_rows n3 @ all_rows n4) r4"
  by (rule rows_then [OF assms(1,5)], rule rows_then [OF assms(2)], assumption,
      rule rows_then [OF assms(3)], assumption, rule rows_drawn [OF assms(4)])

lemma group_drawn:
  assumes "renderParallelGroup t js r kids = Some (nd, r')" and "set js \<subseteq> set r" and "plain_names js"
  shows "drawn t js r (rows nd) r'"
proof -
  let ?st = "fan_in t js r"
  let ?P = "flag (fanInParentSet ?st)" and ?h = "length (fanInChildren ?st) > 0"
  let ?ps = "if ?h then filter ?P js else []"
  let ?bs = "takeWhile (\<lambda>n. \<not> ?P n) js" and ?as = "filter (\<lambda>n. \<not> ?P n) (dropWhile (\<lambda>n. \<not> ?P n) js)"
  have ok: "fan_ok t js r ?st" by (rule fan_ok_fan_in)
  from assms(1) obtain sec r1 cont r2 bs r3 as where
    e: "render_rows kids False ?ps (fan_rendered ?st) = Some (sec, r1)"
       "render_rows kids False (fanInChildren ?st) r1 = Some (cont, r2)"
       "render_rows kids ?h ?bs r2 = Some (bs, r3)" "render_rows kids ?h ?as r3 = Some (as, r')"
    and nd: "nd = Group js (bs @ (if ?h then [FanIn sec cont] else []) @ as)"
    by (auto simp: renderParallelGroup_def Let_def split: option.splits)
  have "set (?ps @ fanInChildren ?st @ ?bs @ ?as) \<subseteq> set (fan_rendered ?st)"
    using ok assms(2) by (auto simp: fan_ok_def dest: set_takeWhileD set_dropWhileD)
  then have "drawn t (?ps @ fanInChildren ?st @ ?bs @ ?as) (fan_rendered ?st)
     (all_rows sec @ all_rows cont @ all_rows bs @ all_rows as) r'"
    by (rule rows4_drawn [OF e])
  moreover have "mset (?ps @ fanInChildren ?st @ ?bs @ ?as) = mset (js @ fanInChildren ?st)"
  proof (cases ?h)
    case True
    then show ?thesis using mset_split_group [of ?P js] by simp
  next
    case False
    then have "\<forall>n \<in> set js. \<not> ?P n"
      using ok assms(3) by (auto simp: fan_ok_def flag_def plain_names_def)
    then have "filter ?P js = []" by (simp add: filter_empty_conv)
    then show ?thesis using mset_split_group [of ?P js] by simp
  qed
  moreover have "mset (all_rows sec @ all_rows cont @ all_rows bs @ all_rows as) = mset (rows nd)"
  proof (cases ?h)
    case False
    with e(1,2) have "sec = []" "cont = []" by auto
    with False show ?thesis by (simp add: nd)
  qed (simp add: nd)
  ultimately have "drawn t (js @ fanInChildren ?st) (fan_rendered ?st) (rows nd) r'"
    by (rule drawn_perm)
  then show ?thesis using assms(2) by (rule drawn_fan_in)
qed

lemma one_group_fills:
  assumes "render_group t kids gr r = Some (ns, r1)"
    and "\<forall>n \<in> set gr. \<not> flag r n" and "uniq t \<longrightarrow> distinct gr"
  shows "fills t (set gr) r (all_rows ns) r1"
proof -
  consider "gr = []" | "length gr \<ge> 2" | n where "gr = [n]"
    by (cases gr rule: remdups_adj.cases) auto
  then show ?thesis
  proof cases
    case 1
    with assms(1) show ?thesis by (simp add: render_group_def fills_Nil)
  next
    case 2
    then obtain nd where g: "renderParallelGroup t gr (foldl mark r gr) kids = Some (nd, r1)" "ns = [nd]"
      using assms(1) by (cases gr) (auto simp: render_group_def)
    have "plain_names gr" using assms(2) by (auto simp: plain_names_def flag_def)
    from group_drawn [OF g(1) _ this] have "drawn t gr (foldl mark r gr) (rows nd) r1" by simp
    then show ?thesis using assms(2,3) by (simp add: g(2) drawn_fills)
  next
    case (3 n)
    then have "render_rows kids False [n] (mark r n) = Some (ns, r1)"
      using assms(1) by (simp add: render_group_def mark_def)
    from rows_drawn [OF this] have "drawn t [n] (mark r n) (all_rows ns) r1" by simp
    from drawn_fills [OF this] assms(2) show ?thesis by (simp add: 3)
  qed
qed

lemma groups_fill:
  "render_groups t kids gs r = Some (ns, r') \<Longrightarrow> (uniq t \<longrightarrow> (\<forall>g \<in> set gs. distinct g)) \<Longrightarrow>
   fills t (\<Union>g \<in> set gs. set g) r (all_rows ns) r'"
proof (induction gs arbitrary: r ns)
  case (Cons g gs)
  let ?g = "filter (\<lambda>n. \<not> flag r n) g"
  from Cons.prems(1) obtain n1 r1 n2 where
    o: "render_group t kids ?g r = Some (n1, r1)"
    and rest: "render_groups t kids gs r1 = Some (n2, r')" and ns: "ns = n1 @ n2"
    by (auto split: option.splits)
  have f: "fills t (set ?g) r (all_rows n1) r1"
    using one_group_fills [OF o] Cons.prems(2) by simp
  moreover have "\<forall>k \<in> set g. flag r1 k"
    using f by (auto simp: fills_def flag_def)
  ultimately have "fills t (set g) r (all_rows n1) r1"
    unfolding fills_def by (auto simp: Image_iff)
  from fills_append [OF this Cons.IH [OF rest]] Cons.prems(2) show ?case by (simp add: ns)
qed (simp add: fills_Nil)

lemma children_fill:
  "children_with t kids ps r = Some (ns, r') \<Longrightarrow>
   fills t (\<Union>p \<in> set ps. set (list_at (children t) p)) r (all_rows ns) r'"
proof (induction ps arbitrary: r ns)
  case (Cons p ps)
  let ?ks = "list_at (children t) p"
  from Cons.prems obtain n1 r1 n2 where
    g: "render_groups t kids (map snd (group_kids t ?ks r)) r = Some (n1, r1)"
    and rest: "children_with t kids ps r1 = Some (n2, r')" and ns: "ns = n1 @ n2"
    by (auto split: option.splits)
  have "(\<Union>g \<in> set (map snd (group_kids t ?ks r)). set g) = {k \<in> set ?ks. \<not> flag r k}"
    using group_kids_members [of t ?ks r] by (simp add: members_def)
  with groups_fill [OF g] have f: "fills t {k \<in> set ?ks. \<not> flag r k} r (all_rows n1) r1"
    using group_kids_distinct [of ?ks _ t r] by (auto simp: uniq_def)
  then have "\<forall>k \<in> set ?ks. flag r1 k" by (auto simp: fills_def flag_def)
  with f have "fills t (set ?ks) r (all_rows n1) r1" unfolding fills_def by (auto simp: Image_iff)
  from fills_append [OF this Cons.IH [OF rest]] show ?case by (simp add: ns)
qed (simp add: fills_Nil)

end

text \<open>Every level of the recursion meets the contract.\<close>

lemma renderChildren_renderer: "child_renderer t (renderChildren t f)"
proof (induction f)
  case 0
  have "child_renderer t (\<lambda>_ _. None)" by unfold_locales simp
  from child_renderer.children_fill [OF this] show ?case by unfold_locales simp
next
  case (Suc f)
  show ?case using child_renderer.children_fill [OF Suc] by unfold_locales simp
qed

interpretation tree_rows: child_renderer t "renderChildren t f" for t f
  by (rule renderChildren_renderer)

section \<open>Enough fuel\<close>

definition unmarked :: "tree \<Rightarrow> string list \<Rightarrow> string set" where
  "unmarked t r = {k \<in> Range (kid_rel t). \<not> flag r k}"

lemma finite_kids: "finite (Range (kid_rel t))"
proof -
  have "Range (kid_rel t) \<subseteq> members (children t)"
    using list_at_members by (fastforce simp: kid_rel_def)
  moreover have "finite (members (children t))" by (simp add: members_def)
  ultimately show ?thesis by (rule finite_subset)
qed

lemma card_unmarked_mono: "set r \<subseteq> set r' \<Longrightarrow> card (unmarked t r') \<le> card (unmarked t r)"
  using finite_kids by (intro card_mono) (auto simp: unmarked_def flag_def)

lemma card_unmarked_less:
  assumes "set r \<subseteq> set r'" and "n \<in> set r'" and "\<not> flag r n" and "n \<in> Range (kid_rel t)"
  shows "card (unmarked t r') < card (unmarked t r)"
proof (rule psubset_card_mono)
  show "finite (unmarked t r)" using finite_kids by (simp add: unmarked_def)
  have "n \<in> unmarked t r" "n \<notin> unmarked t r'" using assms by (auto simp: unmarked_def flag_def)
  moreover have "unmarked t r' \<subseteq> unmarked t r" using assms(1) by (auto simp: unmarked_def flag_def)
  ultimately show "unmarked t r' \<subset> unmarked t r" by blast
qed

text \<open>A renderer that returns whenever fewer than \<open>b\<close> jobs are left to draw.\<close>

locale bounded_renderer = child_renderer +
  fixes b :: nat
  assumes returns: "card (unmarked t r) < b \<Longrightarrow> \<exists>y. kids ps r = Some y"
begin

lemma rows_return: "card (unmarked t r) < b \<Longrightarrow> \<exists>ns r'. render_rows kids al js r = Some (ns, r') \<and> set r \<subseteq> set r'"
proof (induction js arbitrary: r)
  case (Cons n js)
  have "card (unmarked t (mark r n)) < b"
    using Cons.prems card_unmarked_mono [of r "mark r n" t] by (simp add: subset_insertI)
  then obtain ks r1 where k: "kids [n] (mark r n) = Some (ks, r1)" using returns by fastforce
  then have s: "set r \<subseteq> set r1" using kids_fill [OF k] by (auto simp: fills_def)
  then have "card (unmarked t r1) < b" using Cons.prems card_unmarked_mono [of r r1 t] by simp
  from Cons.IH [OF this] obtain ms r2 where "render_rows kids al js r1 = Some (ms, r2)" "set r1 \<subseteq> set r2"
    by blast
  with k s show ?case by auto
qed simp

lemma rows_next:
  assumes "card (unmarked t r) < b"
  obtains ns r' where "render_rows kids al js r = Some (ns, r')" "set r \<subseteq> set r'" "card (unmarked t r') < b"
  using rows_return [OF assms, of al js] card_unmarked_mono assms by (meson order.strict_trans1)

lemma group_returns:
  assumes "card (unmarked t r) < b"
  shows "\<exists>nd r'. renderParallelGroup t js r kids = Some (nd, r') \<and> set r \<subseteq> set r'"
proof -
  let ?st = "fan_in t js r"
  let ?P = "flag (fanInParentSet ?st)" and ?h = "length (fanInChildren ?st) > 0"
  have st: "set r \<subseteq> set (fan_rendered ?st)" using fan_ok_fan_in [of t js r] by (auto simp: fan_ok_def)
  then have "card (unmarked t (fan_rendered ?st)) < b" using assms card_unmarked_mono by (meson order.strict_trans1)
  then obtain n1 r1 where 1: "render_rows kids False (if ?h then filter ?P js else []) (fan_rendered ?st) = Some (n1, r1)"
    "set (fan_rendered ?st) \<subseteq> set r1" "card (unmarked t r1) < b" by (rule rows_next)
  from 1(3) obtain n2 r2 where 2: "render_rows kids False (fanInChildren ?st) r1 = Some (n2, r2)"
    "set r1 \<subseteq> set r2" "card (unmarked t r2) < b" by (rule rows_next)
  from 2(3) obtain n3 r3 where 3: "render_rows kids ?h (takeWhile (\<lambda>n. \<not> ?P n) js) r2 = Some (n3, r3)"
    "set r2 \<subseteq> set r3" "card (unmarked t r3) < b" by (rule rows_next)
  from 3(3) obtain n4 r4 where 4: "render_rows kids ?h (filter (\<lambda>n. \<not> ?P n) (dropWhile (\<lambda>n. \<not> ?P n) js)) r3 = Some (n4, r4)"
    "set r3 \<subseteq> set r4" "card (unmarked t r4) < b" by (rule rows_next)
  have "set r \<subseteq> set r4" using st 1(2) 2(2) 3(2) 4(2) by blast
  with 1(1) 2(1) 3(1) 4(1) show ?thesis unfolding renderParallelGroup_def Let_def by simp
qed

lemma one_group_returns:
  assumes "card (unmarked t (foldl mark r gr)) < b"
  shows "\<exists>ns r'. render_group t kids gr r = Some (ns, r') \<and> set r \<subseteq> set r'"
proof -
  consider "gr = []" | "gr \<noteq> []" "length gr \<ge> 2" | n where "gr = [n]"
    by (cases gr rule: remdups_adj.cases) auto
  then show ?thesis
  proof cases
    case 2
    with group_returns [OF assms, of gr] show ?thesis by (auto simp: render_group_def)
  next
    case (3 n)
    have "render_rows kids False [n] r = render_rows kids False [n] (mark r n)" by (simp add: mark_def)
    with rows_return [OF assms, of False gr] show ?thesis by (auto simp: render_group_def 3)
  qed (simp add: render_group_def)
qed

lemma groups_return:
  "card (unmarked t r) \<le> b \<Longrightarrow> (\<forall>g \<in> set gs. set g \<subseteq> Range (kid_rel t)) \<Longrightarrow>
   \<exists>ns r'. render_groups t kids gs r = Some (ns, r') \<and> set r \<subseteq> set r'"
proof (induction gs arbitrary: r)
  case (Cons g gs)
  let ?g = "filter (\<lambda>n. \<not> flag r n) g"
  have "\<exists>n1 r1. render_group t kids ?g r = Some (n1, r1) \<and> set r \<subseteq> set r1"
  proof (cases "?g = []")
    case False
    then obtain n where n: "n \<in> set ?g" by (cases ?g) auto
    have "card (unmarked t (foldl mark r ?g)) < card (unmarked t r)"
      using n Cons.prems(2) by (intro card_unmarked_less [of _ _ n]) auto
    with Cons.prems(1) show ?thesis using one_group_returns [of r ?g] by simp
  qed (simp add: render_group_def)
  then obtain n1 r1 where 1: "render_group t kids ?g r = Some (n1, r1)" "set r \<subseteq> set r1" by blast
  have "card (unmarked t r1) \<le> b" using card_unmarked_mono [OF 1(2)] Cons.prems(1) by (meson order.trans)
  from Cons.IH [OF this] Cons.prems(2) obtain n2 r2 where 2: "render_groups t kids gs r1 = Some (n2, r2)" "set r1 \<subseteq> set r2"
    by auto
  have "set r \<subseteq> set r2" using 1(2) 2(2) by blast
  then show ?case by (simp add: 1(1) 2(1))
qed simp

lemma children_return:
  "card (unmarked t r) \<le> b \<Longrightarrow> \<exists>ns r'. children_with t kids ps r = Some (ns, r') \<and> set r \<subseteq> set r'"
proof (induction ps arbitrary: r)
  case (Cons p ps)
  let ?gs = "map snd (group_kids t (list_at (children t) p) r)"
  have "\<forall>g \<in> set ?gs. set g \<subseteq> Range (kid_rel t)"
    using group_kids_members [of t "list_at (children t) p" r] by (force simp: members_def kid_rel_def)
  from groups_return [OF Cons.prems this] obtain n1 r1 where
    1: "render_groups t kids ?gs r = Some (n1, r1)" "set r \<subseteq> set r1" by blast
  have "card (unmarked t r1) \<le> b" using card_unmarked_mono [OF 1(2)] Cons.prems by (meson order.trans)
  from Cons.IH [OF this] 1 show ?case by fastforce
qed simp

end

lemma renderChildren_bounded: "bounded_renderer t (renderChildren t f) (Suc f)"
proof (induction f)
  case 0
  have "bounded_renderer t (\<lambda>_ _. None) 0" by unfold_locales simp_all
  from bounded_renderer.children_return [OF this] show ?case
    by (intro bounded_renderer.intro renderChildren_renderer bounded_renderer_axioms.intro) fastforce
next
  case (Suc f)
  from bounded_renderer.children_return [OF Suc] show ?case
    by (intro bounded_renderer.intro renderChildren_renderer bounded_renderer_axioms.intro)
      (fastforce simp: less_Suc_eq_le)
qed

interpretation tree_fuel: bounded_renderer t "renderChildren t f" "Suc f" for t f
  by (rule renderChildren_bounded)

lemma card_unmarked_links: "card (unmarked t r) \<le> length (concat (map snd (children t)))"
proof -
  have "unmarked t r \<subseteq> members (children t)"
    using list_at_members by (fastforce simp: kid_rel_def unmarked_def)
  also have "members (children t) = set (concat (map snd (children t)))" by (simp add: members_def)
  finally show ?thesis using card_length [of "concat (map snd (children t))"] card_mono
    by (meson List.finite_set order.trans)
qed

section \<open>The whole tree\<close>

text \<open>What the two kinds of top level have in common.\<close>

lemma renderTree_drawn:
  assumes "plain_names (roots t)"
  shows "\<exists>ns r. renderTree (Some rc) t = Some ns \<and> drawn t (roots t) (foldl mark [] (roots t)) (all_rows ns) r"
proof -
  let ?f = "length (concat (map snd (children t)))" let ?r = "foldl mark [] (roots t)"
  have lt: "card (unmarked t ?r) < Suc ?f" using card_unmarked_links by (simp add: less_Suc_eq_le)
  consider "length (roots t) \<ge> 2" | n where "roots t = [n]" | "roots t = []"
    by (cases "roots t" rule: remdups_adj.cases) auto
  then show ?thesis
  proof cases
    case 1
    from tree_fuel.group_returns [OF lt] obtain nd r where
      g: "renderParallelGroup t (roots t) ?r (renderChildren t ?f) = Some (nd, r)" by blast
    from tree_rows.group_drawn [OF g _ assms] have "drawn t (roots t) ?r (rows nd) r" by simp
    with 1 g show ?thesis by (auto simp: renderTree_def renderTree_fuel_def intro!: exI [of _ "[nd]"])
  next
    case (2 n)
    from tree_fuel.rows_return [OF lt] obtain ns r where
      g: "render_rows (renderChildren t ?f) False [n] ?r = Some (ns, r)" by blast
    from tree_rows.rows_drawn [OF g] have "drawn t (roots t) ?r (all_rows ns) r" by (simp add: 2)
    moreover from g have "render_rows (renderChildren t ?f) False [n] [] = Some (ns, r)" by (simp add: 2 mark_def)
    ultimately show ?thesis by (auto simp: renderTree_def renderTree_fuel_def 2)
  next
    case 3
    then show ?thesis using drawn_Nil by (auto simp: renderTree_def renderTree_fuel_def)
  qed
qed

lemma drawn_reachable:
  assumes "drawn t (roots t) (foldl mark [] (roots t)) w r" and "Range (kid_rel t) \<inter> set proto_keys = {}"
  shows "set w = (kid_rel t)\<^sup>* `` set (roots t)"
proof
  have r: "set r = set w" "set (roots t) \<subseteq> set w" "\<forall>n \<in> set w. covered t r n"
    using assms(1) by (auto simp: drawn_def)
  have step: "k \<in> set w" if "n \<in> set w" "(n, k) \<in> kid_rel t" for n k
    using that r assms(2) unfolding covered_def kid_rel_def flag_def by blast
  have "k \<in> set w" if "(n, k) \<in> (kid_rel t)\<^sup>*" "n \<in> set w" for n k
    using that by (induction rule: rtrancl_induct) (auto intro: step)
  then show "(kid_rel t)\<^sup>* `` set (roots t) \<subseteq> set w" using r(2) by blast
qed (use assms(1) in \<open>simp add: drawn_def\<close>)

text \<open>The tree of a chain.\<close>

definition chain_tree :: "pipeline \<Rightarrow> string \<Rightarrow> tree \<Rightarrow> bool" where
  "chain_tree p rc t \<longleftrightarrow> buildTree p (resolveChain p rc) = Inr t"

lemma links_inside:
  "chain_tree p rc t \<Longrightarrow> n \<in> set (resolveChain p rc) \<Longrightarrow> u \<in> set (job_links p (resolveChain p rc) n) \<Longrightarrow>
   u \<in> set (resolveChain p rc)"
  using buildTree_fails by (fastforce simp: chain_tree_def)

lemma chain_plain: "set (resolveChain p rc) \<inter> set proto_keys = {}"
proof -
  have "n \<notin> set proto_keys" if "(e, n) \<in> (chain_edges js)\<^sup>*" "e \<in> entry_jobs rc js" for e n js
    using that by (induction rule: rtrancl_induct) (auto simp: chain_edges_def entry_jobs_def)
  then show ?thesis using resolveChain_spec [of p rc] by fastforce
qed

lemma chain_tree_fields:
  assumes "chain_tree p rc t"
  shows "list_at (children t) u = map snd (filter (\<lambda>l. fst l = u) (chain_links p (resolveChain p rc)))"
    and "k \<in> set (resolveChain p rc) \<Longrightarrow>
      list_at (parents t) k = map fst (filter (\<lambda>l. snd l = k) (chain_links p (resolveChain p rc)))"
    and "roots t = filter (\<lambda>n. list_at (parents t) n = []) (resolveChain p rc)"
proof -
  let ?c = "resolveChain p rc"
  have inside: "\<forall>n \<in> set ?c. set (job_links p ?c n) \<subseteq> set ?c" using links_inside [OF assms] by blast
  from buildTree_ok [OF inside] assms have
    par: "k \<in> set ?c \<Longrightarrow> list_at (parents t) k = map fst (filter (\<lambda>l. snd l = k) (chain_links p ?c))"
    and chi: "k \<in> set ?c \<Longrightarrow> list_at (children t) k = map snd (filter (\<lambda>l. fst l = k) (chain_links p ?c))"
    and out: "k \<notin> set ?c \<Longrightarrow> list_at (children t) k = []"
    and rts: "roots t = filter (\<lambda>n. list_at (parents t) n = []) ?c" for k
    by (auto simp: chain_tree_def)
  have ends: "fst l \<in> set ?c" if "l \<in> set (chain_links p ?c)" for l
    using that inside by (auto simp: chain_links_def subset_iff)
  show "list_at (children t) u = map snd (filter (\<lambda>l. fst l = u) (chain_links p ?c))"
    using chi out ends by (cases "u \<in> set ?c") (auto simp: filter_empty_conv)
  show "k \<in> set ?c \<Longrightarrow> list_at (parents t) k = map fst (filter (\<lambda>l. snd l = k) (chain_links p ?c))"
    "roots t = filter (\<lambda>n. list_at (parents t) n = []) ?c"
    by (fact par rts)+
qed

lemma kid_rel_links: "chain_tree p rc t \<Longrightarrow> kid_rel t = set (chain_links p (resolveChain p rc))"
  by (force simp: kid_rel_def chain_tree_fields(1))

lemma roots_chain:
  "chain_tree p rc t \<Longrightarrow> set (roots t) \<subseteq> set (resolveChain p rc) \<and> distinct (roots t)"
  using resolveChain_spec [of p rc] by (auto simp: chain_tree_fields(3))

lemma rootless:
  assumes "chain_tree p rc t" and "n \<in> set (resolveChain p rc)" and "n \<notin> set (roots t)"
  shows "\<exists>u. (u, n) \<in> kid_rel t"
proof -
  have "list_at (parents t) n \<noteq> []" using assms by (simp add: chain_tree_fields(3))
  then show ?thesis using assms by (auto simp: chain_tree_fields(2) kid_rel_links filter_empty_conv)
qed

lemma job_link_edge:
  assumes "n \<notin> set proto_keys" and "u \<in> set (job_links p c n)"
  shows "(u, n) \<in> chain_edges (jobs_of p)"
proof -
  from assms(2) obtain pj st g ps where
    f: "List.find (\<lambda>j. j_name j = n) (jobs_of p) = Some pj" and st: "st \<in> set (plan_of pj)"
    and g: "get_of st = Some g" "g_passed g = Some ps" "u \<in> set ps"
    unfolding job_links_def by (auto split: option.splits) metis
  from g have "step_passes u st" by (simp add: step_passes_def)
  with st have "downstream u pj" by (auto simp: downstream_def)
  from f have "pj \<in> set (jobs_of p)" "j_name pj = n" by (auto simp: find_Some_iff)
  with \<open>downstream u pj\<close> assms(1) show ?thesis by (auto simp: chain_edges_def)
qed

lemma kid_rel_chain:
  assumes "chain_tree p rc t"
  shows "kid_rel t \<subseteq> chain_edges (jobs_of p) \<inter> (set (resolveChain p rc) \<times> set (resolveChain p rc))"
proof -
  have "n \<notin> set proto_keys" if "n \<in> set (resolveChain p rc)" for n using that chain_plain by blast
  then show ?thesis using links_inside [OF assms]
    by (auto simp: kid_rel_links [OF assms] chain_links_def intro: job_link_edge)
qed

lemma chain_tree_plain:
  assumes "chain_tree p rc t"
  shows "Range (kid_rel t) \<inter> set proto_keys = {}" and "plain_names (roots t)"
proof -
  show "Range (kid_rel t) \<inter> set proto_keys = {}"
    using kid_rel_chain [OF assms] chain_plain [of p rc] by blast
  show "plain_names (roots t)"
    using roots_chain [OF assms] chain_plain [of p rc] by (auto simp: plain_names_def)
qed

lemma distinct_links:
  "distinct c \<Longrightarrow> (\<forall>n \<in> set c. distinct (f n)) \<Longrightarrow>
   distinct (map snd (filter (\<lambda>l. fst l = u) (concat (map (\<lambda>n. map (\<lambda>u. (u, n)) (f n)) c))))"
proof (induction c)
  case (Cons n c)
  have "filter (\<lambda>x. x = u) xs = (if u \<in> set xs then [u] else [])" if "distinct xs" for xs
    using that by (induction xs) (auto simp: filter_empty_conv)
  with Cons.prems(2) have "map snd (filter (\<lambda>l. fst l = u) (map (\<lambda>u. (u, n)) (f n))) = (if u \<in> set (f n) then [n] else [])"
    by (simp add: filter_map o_def)
  with Cons show ?case by auto
qed simp

lemma uniq_links:
  assumes "chain_tree p rc t" and "\<forall>n \<in> set (resolveChain p rc). distinct (job_links p (resolveChain p rc) n)"
  shows "uniq t"
  using distinct_links [OF _ assms(2)] resolveChain_spec [of p rc]
  by (simp add: uniq_def chain_tree_fields(1) [OF assms(1)] chain_links_def)

lemma all_reached:
  assumes "chain_tree p rc t" and "acyclic (chain_edges (jobs_of p))"
  shows "(kid_rel t)\<^sup>* `` set (roots t) = set (resolveChain p rc)"
proof
  let ?c = "resolveChain p rc"
  note sub = kid_rel_chain [OF assms(1)]
  have "finite (kid_rel t)" by (simp add: kid_rel_links [OF assms(1)])
  moreover have "acyclic (kid_rel t)" using assms(2) sub by (meson acyclic_subset le_infE)
  ultimately have wf: "wf (kid_rel t)" by (rule finite_acyclic_wf)
  have "n \<in> (kid_rel t)\<^sup>* `` set (roots t)" if "n \<in> set ?c" for n
    using wf that
  proof (induction n rule: wf_induct_rule)
    case (less n)
    show ?case
    proof (cases "n \<in> set (roots t)")
      case False
      then obtain u where u: "(u, n) \<in> kid_rel t" using rootless [OF assms(1) less.prems] by blast
      with sub have "u \<in> set ?c" by auto
      from less.IH [OF u this] u show ?thesis by (auto intro: rtrancl_into_rtrancl)
    qed auto
  qed
  then show "set ?c \<subseteq> (kid_rel t)\<^sup>* `` set (roots t)" by blast
  have "n \<in> set ?c" if "(m, n) \<in> (kid_rel t)\<^sup>*" "m \<in> set ?c" for m n
    using that sub by (induction rule: rtrancl_induct) auto
  then show "(kid_rel t)\<^sup>* `` set (roots t) \<subseteq> set ?c" using roots_chain [OF assms(1)] by blast
qed

section \<open>Properties\<close>

text \<open>
  C5. \<open>renderTree\<close> returns on the tree of any chain, cyclic or not (with one unit of fuel per link),
  and the jobs with a row are exactly those reachable from the roots.
\<close>

theorem renderTree_draws_reachable:
  assumes "buildTree p (resolveChain p rc) = Inr t"
  shows "\<exists>ns. renderTree (Some rc) t = Some ns \<and> set (all_rows ns) = (kid_rel t)\<^sup>* `` set (roots t)"
proof -
  have ct: "chain_tree p rc t" using assms by (simp add: chain_tree_def)
  from renderTree_drawn [OF chain_tree_plain(2) [OF ct]] obtain ns r where
    "renderTree (Some rc) t = Some ns" "drawn t (roots t) (foldl mark [] (roots t)) (all_rows ns) r" by blast
  with drawn_reachable [OF _ chain_tree_plain(1) [OF ct]] show ?thesis by blast
qed

text \<open>
  C6. No job twice, on any chain, cyclic or not, in which no job names the same upstream job twice: the rows
  are distinct and are the jobs reachable from the roots. When the \<open>passed\<close> constraints have no cycle these are
  all jobs of the chain, so every one gets exactly one row.
\<close>

theorem renderTree_once:
  assumes "buildTree p (resolveChain p rc) = Inr t"
    and "\<forall>n \<in> set (resolveChain p rc). distinct (job_links p (resolveChain p rc) n)"
  shows "\<exists>ns. renderTree (Some rc) t = Some ns \<and> distinct (all_rows ns)
    \<and> set (all_rows ns) = (kid_rel t)\<^sup>* `` set (roots t)
    \<and> (acyclic (chain_edges (jobs_of p)) \<longrightarrow> mset (all_rows ns) = mset (resolveChain p rc))"
proof -
  have ct: "chain_tree p rc t" using assms by (simp add: chain_tree_def)
  from renderTree_drawn [OF chain_tree_plain(2) [OF ct]] obtain ns r where
    r: "renderTree (Some rc) t = Some ns" and d: "drawn t (roots t) (foldl mark [] (roots t)) (all_rows ns) r" by blast
  have rows: "set (all_rows ns) = (kid_rel t)\<^sup>* `` set (roots t)"
    using drawn_reachable [OF d chain_tree_plain(1) [OF ct]] by simp
  moreover have dist: "distinct (all_rows ns)"
    using d uniq_links [OF ct assms(2)] roots_chain [OF ct] by (auto simp: drawn_def)
  moreover have "mset (all_rows ns) = mset (resolveChain p rc)" if "acyclic (chain_edges (jobs_of p))"
    using all_reached [OF ct that] rows dist resolveChain_spec [of p rc] set_eq_iff_mset_eq_distinct by metis
  ultimately show ?thesis using r by blast
qed

text \<open>
  A chain whose every job has a parent has no root: no row is drawn, although the chain has jobs.
\<close>

lemma renderTree_cycle_empty:
  "(let p = demo_pipeline [demo_job ''a'' [get_passing ''r'' [], get_passing ''s'' [''b'']], demo_job ''b'' [get_passing ''r'' [''a'']]]
    in resolveChain p ''git.r'' = [''a'', ''b'']
      \<and> (case buildTree p [''a'', ''b''] of Inl e \<Rightarrow> False | Inr t \<Rightarrow> map_option all_rows (renderTree (Some ''git.r'') t) = Some []))"
  by code_simp

text \<open>
  A job with two \<open>get\<close> steps that both passed the same job is drawn twice, as a parallel group
  of two copies of itself: \<open>buildTree\<close> pushes it once per step, and the grouping does not notice.
\<close>

theorem renderTree_repeats_job:
  "map_option (map rows)
     (case buildTree (demo_pipeline [demo_job ''build'' [get_passing ''code'' []],
         demo_job ''deploy'' [get_passing ''code'' [''build''], get_passing ''image'' [''build'']]])
        (resolveChain (demo_pipeline [demo_job ''build'' [get_passing ''code'' []],
         demo_job ''deploy'' [get_passing ''code'' [''build''], get_passing ''image'' [''build'']]]) ''git.code'') of
        Inl e \<Rightarrow> None | Inr t \<Rightarrow> renderTree (Some ''git.code'') t)
   = Some [[''build''], [''deploy'', ''deploy'']]"
  by code_simp

section \<open>Examples\<close>

abbreviation two_jobs :: pipeline where
  "two_jobs \<equiv> demo_pipeline [demo_job ''a'' [get_passing ''r'' []], demo_job ''b'' [get_passing ''r'' [''a'']]]"

lemma two_jobs_chain: "resolveChain two_jobs ''git.r'' = [''a'', ''b'']"
  by code_simp

lemma two_jobs_tree:
  "buildTree two_jobs (resolveChain two_jobs ''git.r'')
   = Inr \<lparr>roots = [''a''], children = [(''a'', [''b'']), (''b'', [])], parents = [(''a'', []), (''b'', [''a''])]\<rparr>"
  by code_simp

theorem renderTree_draws_reachable_witness:
  "\<exists>ns t. renderTree (Some ''git.r'') t = Some ns \<and> set (all_rows ns) = (kid_rel t)\<^sup>* `` {''a''}"
  using renderTree_draws_reachable [OF two_jobs_tree] by force

theorem renderTree_once_witness:
  "\<exists>ns t. renderTree (Some ''git.r'') t = Some ns \<and> distinct (all_rows ns) \<and> mset (all_rows ns) = mset [''a'', ''b'']"
proof -
  have "chain_edges (jobs_of two_jobs) \<subseteq> {(''a'', ''b'')}"
    by (auto simp: chain_edges_def downstream_def step_passes_def demo_defs)
  moreover have "acyclic {(''a'', ''b'')}" by (simp add: acyclic_insert acyclic_def [of "{}"])
  ultimately have "acyclic (chain_edges (jobs_of two_jobs))" using acyclic_subset by blast
  moreover have "\<forall>n \<in> set (resolveChain two_jobs ''git.r''). distinct (job_links two_jobs (resolveChain two_jobs ''git.r'') n)"
    unfolding two_jobs_chain by (simp add: job_links_def demo_defs)
  ultimately show ?thesis using renderTree_once [OF two_jobs_tree] unfolding two_jobs_chain by blast
qed

end
