(* ===== verification/Html.thy ===== *)
theory Html
  imports JsPrelude
begin

text \<open>
  The output of the \<open>html\<close> templates: elements with attributes, event handlers and children. A
  handler is a value of an action type of the component, so that what a page offers to the user is
  a list that can be computed (\<open>handlers\<close>), without the handlers of disabled controls (\<open>live\<close>).
  Kept of the markup: the tags, the ids, the classes and attributes that depend on the state, titles,
  texts and handlers. Dropped: icons, constant layout classes and constant \<open>style\<close> attributes.
  Dashes, dots and arrows outside ASCII are written with ASCII characters.
  \<open>null\<close> and \<open>false\<close> render nothing: a conditional child is a list.
\<close>

datatype 'a html = El string "(string \<times> string) list" "(string \<times> 'a) list" "'a html list" | Txt string

definition show_if :: "bool \<Rightarrow> 'a html list \<Rightarrow> 'a html list" where
  "show_if b xs = (if b then xs else [])"

definition disabled_if :: "bool \<Rightarrow> (string \<times> string) list" where
  "disabled_if b = (if b then [(''disabled'', '''')] else [])"

text \<open>A button with a title, a handler for clicks, a disabled flag and a label.\<close>

definition button :: "string \<Rightarrow> 'a \<Rightarrow> bool \<Rightarrow> string \<Rightarrow> 'a html" where
  "button ttl act dis label =
     El ''button'' ((''title'', ttl) # disabled_if dis) [(''onClick'', act)] [Txt label]"

fun handlers :: "'a html \<Rightarrow> 'a list" where
  "handlers (Txt s) = []"
| "handlers (El tag at hs ks) = map snd hs @ concat (map handlers ks)"

text \<open>
  The submit buttons of a form, each with its disabled flag. A form is submitted by a submit button or by the
  Enter key, which a browser refuses when the form's button is disabled; a form without one obeys the key.
\<close>

fun submit_buttons :: "'a html \<Rightarrow> bool list" where
  "submit_buttons (Txt s) = []"
| "submit_buttons (El tag at hs ks) =
     (if tag = ''button'' \<and> (''type'', ''submit'') \<in> set at then [(''disabled'', '''') \<in> set at] else [])
     @ concat (map submit_buttons ks)"

definition can_submit :: "'a html list \<Rightarrow> bool" where
  "can_submit ks = (let bs = concat (map submit_buttons ks) in bs = [] \<or> False \<in> set bs)"

fun live :: "'a html \<Rightarrow> 'a list" where
  "live (Txt s) = []"
| "live (El tag at hs ks) =
     (if (''disabled'', '''') \<in> set at then []
      else map snd (filter (\<lambda>(n, a). n = ''onSubmit'' \<longrightarrow> can_submit ks) hs)) @ concat (map live ks)"

definition live_all :: "'a html list \<Rightarrow> 'a list" where
  "live_all hs = concat (map live hs)"

fun text_of :: "'a html \<Rightarrow> string" where
  "text_of (Txt s) = s"
| "text_of (El tag at hs ks) = concat (map text_of ks)"

lemma live_all_simps [simp]:
  "live_all [] = []" "live_all (h # hs) = live h @ live_all hs" "live_all (gs @ hs) = live_all gs @ live_all hs"
  by (simp_all add: live_all_def)

lemma live_all_map: "live_all (map f xs) = concat (map (\<lambda>x. live (f x)) xs)"
  by (simp add: live_all_def o_def)

lemma live_El [simp]:
  "live (El tag at hs ks) =
     (if (''disabled'', '''') \<in> set at then []
      else map snd (filter (\<lambda>(n, a). n = ''onSubmit'' \<longrightarrow> can_submit ks) hs)) @ live_all ks"
  by (simp add: live_all_def)

declare live.simps(2) [simp del]

lemma live_show_if [simp]: "live_all (show_if b xs) = (if b then live_all xs else [])"
  by (simp add: show_if_def)

lemma live_button [simp]: "live (button ttl act dis label) = (if dis then [] else [act])"
  by (simp add: button_def disabled_if_def)

lemma live_handlers: "set (live h) \<subseteq> set (handlers h)"
  by (induction h rule: handlers.induct) (auto simp: live_all_def)

text \<open>A component drawn inside another: its actions under the name the outer one gives them.\<close>

lemma submit_map_html [simp]: "submit_buttons (map_html f h) = submit_buttons h"
proof (induction h)
  case (El tag at hs ks)
  then have "concat (map submit_buttons (map (map_html f) ks)) = concat (map submit_buttons ks)" by (induction ks) auto
  then show ?case by simp
qed simp

lemma can_submit_map_html [simp]: "can_submit (map (map_html f) ks) = can_submit ks"
  by (simp add: can_submit_def comp_def)

lemma live_map_html [simp]: "live (map_html f h) = map f (live h)"
proof (induction h)
  case (El tag at hs ks)
  then have "live_all (map (map_html f) ks) = map f (live_all ks)"
    by (induction ks) (auto simp: live_all_def)
  then show ?case by (simp add: filter_map comp_def case_prod_unfold)
qed simp

lemma live_all_map_html: "live_all (map (map_html f) hs) = map f (live_all hs)"
  by (simp add: live_all_map live_map_html live_all_def map_concat o_def)

lemma show_if_simps [simp]: "show_if True xs = xs" "show_if False xs = []"
  by (simp_all add: show_if_def)

lemma disabled_if_mem [simp]: "(''disabled'', '''') \<in> set (disabled_if b) \<longleftrightarrow> b"
  by (simp add: disabled_if_def)

end
