(* ===== verification/WebUrl.thy ===== *)
theory WebUrl
  imports JsPrelude
begin

text \<open>
  The URL part of the standard library that the front end uses: \<open>encodeURIComponent\<close> and
  \<open>URLSearchParams\<close> (application/x-www-form-urlencoded), on strings of bytes. The codec is an
  interface (\<open>query_codec\<close>): an encoder with a decoder that inverts it and an alphabet that has no
  separator. The round trip of whole query strings is proved from that contract alone and the two
  encoders of the platform are interpretations of it.
\<close>

section \<open>Percent encoding\<close>

definition hex_char :: "nat \<Rightarrow> char" where
  "hex_char d = (if d < 10 then char_of (48 + d) else char_of (55 + d))"

definition hex_val :: "char \<Rightarrow> nat option" where
  "hex_val c = (let n = (of_char c :: nat) in
     if 48 \<le> n \<and> n \<le> 57 then Some (n - 48)
     else if 65 \<le> n \<and> n \<le> 70 then Some (n - 55)
     else if 97 \<le> n \<and> n \<le> 102 then Some (n - 87)
     else None)"

definition is_alnum :: "char \<Rightarrow> bool" where
  "is_alnum c \<longleftrightarrow> (let n = (of_char c :: nat) in
     (48 \<le> n \<and> n \<le> 57) \<or> (65 \<le> n \<and> n \<le> 90) \<or> (97 \<le> n \<and> n \<le> 122))"

definition pct :: "char \<Rightarrow> string" where
  "pct c = [CHR ''%'', hex_char (of_char c div 16), hex_char (of_char c mod 16)]"

text \<open>\<open>encodeURIComponent\<close> keeps letters, digits and \<open>- _ . ! ~ * ' ( )\<close>.\<close>

definition uri_plain :: "char \<Rightarrow> bool" where
  "uri_plain c \<longleftrightarrow> is_alnum c \<or> c \<in> set ''-_.!~*'' \<or> of_char c \<in> {39, 40, 41 :: nat}"

definition encodeURIComponent :: "string \<Rightarrow> string" where
  "encodeURIComponent s = concat (map (\<lambda>c. if uri_plain c then [c] else pct c) s)"

text \<open>The form serializer keeps letters, digits and \<open>* - . _\<close>, and writes a blank as \<open>+\<close>.\<close>

definition form_plain :: "char \<Rightarrow> bool" where
  "form_plain c \<longleftrightarrow> is_alnum c \<or> c \<in> set ''*-._''"

definition form_encode :: "string \<Rightarrow> string" where
  "form_encode s = concat (map (\<lambda>c. if form_plain c then [c]
     else if c = CHR '' '' then ''+'' else pct c) s)"

text \<open>Percent decoding; a malformed escape is left as it is. \<open>pl\<close>: also read \<open>+\<close> as a blank.\<close>

fun pct_decode :: "bool \<Rightarrow> string \<Rightarrow> string" where
  "pct_decode pl [] = []"
| "pct_decode pl (c # s) =
     (if c = CHR ''+'' \<and> pl then CHR '' '' # pct_decode pl s
      else if c = CHR ''%'' then
        (case s of
           a # b # t \<Rightarrow>
             (case (hex_val a, hex_val b) of
                (Some m, Some n) \<Rightarrow> char_of (16 * m + n) # pct_decode pl t
              | _ \<Rightarrow> c # pct_decode pl s)
         | _ \<Rightarrow> c # pct_decode pl s)
      else c # pct_decode pl s)"

lemma hex_val_hex_char [simp]: "d < 16 \<Longrightarrow> hex_val (hex_char d) = Some d"
  by (auto simp: hex_val_def hex_char_def Let_def)

lemma char_nibble: "(of_char c :: nat) div 16 < 16"
proof -
  have "of_char c < (16 * 16 :: nat)" by simp
  then show ?thesis by (rule less_mult_imp_div_less)
qed

lemma pct_decode_pct [simp]: "pct_decode pl (pct c @ s) = c # pct_decode pl s"
  using char_nibble [of c] by (simp add: pct_def)

lemma plain_not_escape [simp]:
  "uri_plain c \<Longrightarrow> c \<noteq> CHR ''%''" "form_plain c \<Longrightarrow> c \<noteq> CHR ''%''" "form_plain c \<Longrightarrow> c \<noteq> CHR ''+''"
  by (auto simp: uri_plain_def form_plain_def is_alnum_def)

lemma decode_encodeURIComponent: "pct_decode False (encodeURIComponent s) = s"
  by (induction s) (auto simp: encodeURIComponent_def)

lemma decode_form_encode: "pct_decode True (form_encode s) = s"
  by (induction s) (auto simp: form_encode_def)

lemma hex_char_alnum: "d < 16 \<Longrightarrow> is_alnum (hex_char d)"
  by (auto simp: is_alnum_def hex_char_def Let_def)

lemma set_pct: "x \<in> set (pct c) \<Longrightarrow> is_alnum x \<or> x = CHR ''%''"
proof -
  assume x: "x \<in> set (pct c)"
  have "is_alnum (hex_char (of_char c div 16))" "is_alnum (hex_char (of_char c mod 16))"
    using char_nibble [of c] by (simp_all add: hex_char_alnum)
  with x show ?thesis by (auto simp: pct_def)
qed

lemma set_encodeURIComponent:
  "x \<in> set (encodeURIComponent s) \<Longrightarrow> uri_plain x \<or> x = CHR ''%''"
  unfolding encodeURIComponent_def using set_pct by (fastforce simp: uri_plain_def split: if_splits)

lemma set_form_encode:
  "x \<in> set (form_encode s) \<Longrightarrow> form_plain x \<or> x = CHR ''%'' \<or> x = CHR ''+''"
  unfolding form_encode_def using set_pct by (fastforce simp: form_plain_def split: if_splits)

section \<open>Query strings\<close>

type_synonym params = "(string \<times> string) list"

definition pair_string :: "(string \<Rightarrow> string) \<Rightarrow> string \<times> string \<Rightarrow> string" where
  "pair_string enc kv = enc (fst kv) @ ''='' @ enc (snd kv)"

definition params_string :: "(string \<Rightarrow> string) \<Rightarrow> params \<Rightarrow> string" where
  "params_string enc ps = join_with ''&'' (map (pair_string enc) ps)"

definition parse_pair :: "(string \<Rightarrow> string) \<Rightarrow> string \<Rightarrow> string \<times> string" where
  "parse_pair dec p =
     (let k = takeWhile (\<lambda>c. c \<noteq> CHR ''='') p; r = dropWhile (\<lambda>c. c \<noteq> CHR ''='') p
      in (dec k, dec (drop 1 r)))"

definition parse_params :: "(string \<Rightarrow> string) \<Rightarrow> string \<Rightarrow> params" where
  "parse_params dec s = map (parse_pair dec) (filter (\<lambda>p. p \<noteq> []) (split_on CHR ''&'' s))"

locale query_codec =
  fixes enc :: "string \<Rightarrow> string"
    and dec :: "string \<Rightarrow> string"
  assumes dec_enc: "dec (enc s) = s"
    and enc_amp: "CHR ''&'' \<notin> set (enc s)"
    and enc_eq: "CHR ''='' \<notin> set (enc s)"
begin

lemma enc_inj: "enc s = enc t \<Longrightarrow> s = t"
  by (metis dec_enc)

lemma parse_pair_string: "parse_pair dec (pair_string enc kv) = kv"
proof -
  have "\<forall>c \<in> set (enc (fst kv)). c \<noteq> CHR ''=''" using enc_eq by metis
  then show ?thesis
    by (simp add: parse_pair_def pair_string_def dec_enc Let_def takeWhile_append dropWhile_append)
qed

lemma parse_params_string: "parse_params dec (params_string enc ps) = ps"
proof (cases "ps = []")
  case True
  then show ?thesis by (simp add: parse_params_def params_string_def)
next
  case False
  have "split_on CHR ''&'' (params_string enc ps) = map (pair_string enc) ps"
    unfolding params_string_def using False enc_amp
    by (intro split_join) (auto simp: pair_string_def)
  moreover have "filter (\<lambda>p. p \<noteq> []) (map (pair_string enc) ps) = map (pair_string enc) ps"
    by (auto simp: pair_string_def filter_id_conv)
  ultimately show ?thesis
    by (simp add: parse_params_def parse_pair_string o_def)
qed

end

interpretation form: query_codec form_encode "pct_decode True"
  by unfold_locales
    (auto simp: decode_form_encode form_plain_def is_alnum_def dest: set_form_encode)

interpretation component: query_codec encodeURIComponent "pct_decode False"
  by unfold_locales
    (auto simp: decode_encodeURIComponent uri_plain_def is_alnum_def dest: set_encodeURIComponent)

text \<open>\<open>new URLSearchParams(..).toString()\<close> and \<open>new URLSearchParams(window.location.search)\<close>.\<close>

definition usp_string :: "params \<Rightarrow> string" where
  "usp_string ps = params_string form_encode ps"

definition usp_parse :: "string \<Rightarrow> params" where
  "usp_parse s = parse_params (pct_decode True) (case s of c # t \<Rightarrow> if c = CHR ''?'' then t else s | [] \<Rightarrow> [])"

definition usp_get :: "params \<Rightarrow> string \<Rightarrow> string option" where
  "usp_get ps k = map_of ps k"

lemma params_string_no_qmark: "CHR ''?'' \<notin> set (params_string form_encode ps)"
proof (induction ps)
  case (Cons p ps)
  have "CHR ''?'' \<notin> set (form_encode s)" for s
    using set_form_encode [of "CHR ''?''" s] by (auto simp: form_plain_def is_alnum_def)
  with Cons.IH show ?case
    by (cases ps) (auto simp: params_string_def pair_string_def)
qed (simp add: params_string_def)

lemma usp_roundtrip [simp]:
  "usp_parse (usp_string ps) = ps" "usp_parse (CHR ''?'' # usp_string ps) = ps"
proof -
  show "usp_parse (CHR ''?'' # usp_string ps) = ps"
    by (simp add: usp_parse_def usp_string_def form.parse_params_string)
  show "usp_parse (usp_string ps) = ps"
    using params_string_no_qmark [of ps] form.parse_params_string [of ps]
    by (cases "params_string form_encode ps") (auto simp: usp_parse_def usp_string_def)
qed

end
