(* ===== verification/ApiClient.thy ===== *)
theory ApiClient
  imports AppState WebUrl
begin

text \<open>
  \<open>api.js\<close>: the single entry point for requests and the endpoint table.

  A call of \<open>api(url, opts)\<close> has two atomic parts, because \<open>await fetch\<close> lets other code run in
  between: \<open>api_send\<close> builds the request from the session at call time, \<open>api_recv\<close> handles the
  outcome against the state at arrival time. The network is not modelled; an outcome is an
  argument. \<open>fetch\<close> rejects when no HTTP response arrives (\<open>NetworkError\<close>) and resolves otherwise.
  A body has an optional \<open>error\<close> text and an optional \<open>data\<close> part, whose type is a parameter.

  Lemmas: one equation per branch of \<open>api_recv\<close> (errors, expired session, polling, silent calls);
  the endpoint table is a list of requests whose paths are stated as the code concatenates them.
\<close>

section \<open>Requests and outcomes\<close>

datatype json = JNull | JBool bool | JNum int | JStr string | JArr "json list" | JObj "(string \<times> json) list"

datatype http_method = GET | POST | PUT | DELETE

record opts =
  verb :: http_method
  body :: "json option"
  silent :: bool
  isInterval :: bool

definition default_opts :: opts where
  "default_opts = \<lparr>verb = GET, body = None, silent = False, isInterval = False\<rparr>"

record request =
  rq_url :: string
  rq_method :: http_method
  rq_body :: "json option"
  rq_headers :: "(string \<times> string) list"

record 'd payload =
  perror :: "string option"
  pdata :: "'d option"

record 'd response =
  status :: nat
  statusText :: string
  refresh_header :: "string option"
  rjson :: "'d payload option"

datatype 'd outcome = NetworkError | Response "'d response"

definition res_ok :: "'d response \<Rightarrow> bool" where
  "res_ok res \<longleftrightarrow> 200 \<le> status res \<and> status res \<le> 299"

record api_error =
  message :: string
  err_status :: nat

datatype 'd result = Returned "'d payload" | Thrown api_error | FetchFailed | BadJson

text \<open>\<open>body?.error || response.statusText || 'Unknown error'\<close>.\<close>

definition ApiError :: "'d response \<Rightarrow> 'd payload option \<Rightarrow> api_error" where
  "ApiError res b =
     \<lparr>message =
        (case Option.bind b perror of
           Some e \<Rightarrow> if e \<noteq> '''' then e else if statusText res \<noteq> '''' then statusText res else ''Unknown error''
         | None \<Rightarrow> if statusText res \<noteq> '''' then statusText res else ''Unknown error''),
      err_status = status res\<rparr>"

section \<open>Token refresh\<close>

definition refreshToken_request :: "app \<Rightarrow> request" where
  "refreshToken_request a =
     \<lparr>rq_url = ''/refresh-token'', rq_method = POST, rq_body = None,
      rq_headers = [(''Authorization'', ''Bearer '' @ (case jwt (sess a) of Some j \<Rightarrow> j | None \<Rightarrow> ''undefined'')),
                    (''Content-Type'', ''application/json'')]\<rparr>"

text \<open>The data of a login answer: a token and a user. Any failure is ignored.\<close>

definition refreshToken_response :: "(string option \<times> user option) outcome \<Rightarrow> app \<Rightarrow> app" where
  "refreshToken_response out a =
     (case out of
        NetworkError \<Rightarrow> a
      | Response res \<Rightarrow>
          (case rjson res of
             None \<Rightarrow> a
           | Some p \<Rightarrow>
               (case pdata p of
                  Some (Some j, u) \<Rightarrow> if j \<noteq> '''' then login j u a else a
                | _ \<Rightarrow> a)))"

section \<open>The request function\<close>

definition api_send :: "string \<Rightarrow> opts \<Rightarrow> app \<Rightarrow> request" where
  "api_send url ops a =
     \<lparr>rq_url = url, rq_method = verb ops, rq_body = body ops,
      rq_headers = (''Content-Type'', ''application/json'') #
        (case jwt (sess a) of
           Some j \<Rightarrow> if j \<noteq> '''' then [(''Authorization'', ''Bearer '' @ j)] else []
         | None \<Rightarrow> [])\<rparr>"

text \<open>
  What \<open>api\<close> does once the fetch has settled: the new state, whether a token refresh is started,
  and what the promise settles with.
\<close>

definition api_recv :: "opts \<Rightarrow> 'd outcome \<Rightarrow> app \<Rightarrow> app \<times> bool \<times> 'd result" where
  "api_recv ops out a =
     (case out of
        NetworkError \<Rightarrow> (a, False, FetchFailed)
      | Response res \<Rightarrow>
          (let refresh = (refresh_header res = Some ''true'') in
           if \<not> res_ok res then
             (let err = ApiError res (rjson res) in
              if message err = ''Authentication required'' \<and> truthy_str (jwt (sess a))
              then (route ''/login'' False (logout a), refresh, Thrown err)
              else if isInterval ops \<and> error (apiNotice a) \<noteq> ''''
              then (a, refresh, Thrown err)
              else
                (let msg = (if status res = 0 \<or> status res = 502 \<or> status res = 503 \<or> status res = 504
                            then ''Connection lost. Retrying...'' else message err) in
                 if \<not> silent ops
                 then (toast msg ''error'' (a\<lparr>apiNotice := (apiNotice a)\<lparr>error := msg\<rparr>\<rparr>), refresh, Thrown err)
                 else (a, refresh, Thrown err)))
           else
             (let a' =
                (if \<not> silent ops
                 then (if isInterval ops
                       then (if error (apiNotice a) \<noteq> ''''
                             then a\<lparr>apiNotice := (apiNotice a)\<lparr>error := ''''\<rparr>\<rparr> else a)
                       else a\<lparr>apiNotice := \<lparr>error = '''', success = ''''\<rparr>\<rparr>)
                 else a)
              in (a', refresh, case rjson res of None \<Rightarrow> BadJson | Some p \<Rightarrow> Returned p))))"

text \<open>\<open>apiInterval(url, opts)\<close> is \<open>api\<close> with the polling flag set.\<close>

definition interval_opts :: "opts \<Rightarrow> opts" where
  "interval_opts ops = ops\<lparr>isInterval := True\<rparr>"

definition apiInterval_recv :: "opts \<Rightarrow> 'd outcome \<Rightarrow> app \<Rightarrow> app \<times> bool \<times> 'd result" where
  "apiInterval_recv ops = api_recv (interval_opts ops)"

section \<open>Branch equations\<close>

lemma ApiError_message_ne [simp]: "message (ApiError res b) \<noteq> ''''"
  by (auto simp: ApiError_def split: option.splits)

lemma default_opts_simps [simp]:
  "verb default_opts = GET" "body default_opts = None"
  "silent default_opts = False" "isInterval default_opts = False"
  by (simp_all add: default_opts_def)

lemma interval_opts_simps [simp]:
  "isInterval (interval_opts ops) = True" "silent (interval_opts ops) = silent ops"
  "verb (interval_opts ops) = verb ops" "body (interval_opts ops) = body ops"
  by (simp_all add: interval_opts_def)

lemma toast_simps [simp]:
  "apiNotice (toast m t a) = apiNotice a" "sess (toast m t a) = sess a"
  "toasts (toast m t a) = toasts a @ [(m, t)]" "localStorage (toast m t a) = localStorage a"
  "navigations (toast m t a) = navigations a"
  by (simp_all add: toast_def)

lemma route_simps [simp]:
  "apiNotice (route u r a) = apiNotice a" "sess (route u r a) = sess a"
  "toasts (route u r a) = toasts a" "localStorage (route u r a) = localStorage a"
  by (simp_all add: route_def)

lemma logout_simps [simp]:
  "apiNotice (logout a) = apiNotice a" "sess (logout a) = empty_session" "toasts (logout a) = toasts a"
  by (simp_all add: logout_def)

text \<open>A failed answer that does not end the session.\<close>

definition plain_failure :: "app \<Rightarrow> 'd outcome \<Rightarrow> bool" where
  "plain_failure a out \<longleftrightarrow>
     (case out of
        NetworkError \<Rightarrow> False
      | Response res \<Rightarrow> \<not> res_ok res \<and>
          \<not> (message (ApiError res (rjson res)) = ''Authentication required'' \<and> truthy_str (jwt (sess a))))"

definition failure_message :: "'d outcome \<Rightarrow> string" where
  "failure_message out =
     (case out of
        NetworkError \<Rightarrow> ''''
      | Response res \<Rightarrow>
          if status res = 0 \<or> status res = 502 \<or> status res = 503 \<or> status res = 504
          then ''Connection lost. Retrying...'' else message (ApiError res (rjson res)))"

lemma failure_message_ne: "plain_failure a out \<Longrightarrow> failure_message out \<noteq> ''''"
  by (auto simp: plain_failure_def failure_message_def split: outcome.splits)

lemma recv_plain_failure:
  assumes "plain_failure a out"
  shows "fst (api_recv ops out a) =
    (if isInterval ops \<and> error (apiNotice a) \<noteq> '''' \<or> silent ops then a
     else toast (failure_message out) ''error'' (a\<lparr>apiNotice := (apiNotice a)\<lparr>error := failure_message out\<rparr>\<rparr>))"
proof (cases out)
  case (Response res)
  with assms have nok: "\<not> res_ok res"
    and nauth: "\<not> (message (ApiError res (rjson res)) = ''Authentication required'' \<and> truthy_str (jwt (sess a)))"
    by (simp_all add: plain_failure_def)
  have if_swap: "(if p \<or> q then x else y) = (if p then x else if q then x else y)" for p q and x y :: app
    by simp
  from nok nauth show ?thesis
    unfolding api_recv_def Response failure_message_def Let_def if_swap
    by (simp only: outcome.case if_False if_True not_False_eq_True fst_conv prod.case_eq_if split: if_splits)
       (auto simp: if_distrib [of fst] cong: if_cong)
qed (use assms in \<open>simp add: plain_failure_def\<close>)

lemma recv_success:
  assumes "res_ok res"
  shows "fst (api_recv ops (Response res) a) =
    (if silent ops then a
     else if isInterval ops then a\<lparr>apiNotice := (apiNotice a)\<lparr>error := ''''\<rparr>\<rparr>
     else clearNotice a)"
  using assms by (cases a) (auto simp: api_recv_def Let_def clearNotice_def)

section \<open>Polling\<close>

text \<open>A poll of \<open>apiInterval\<close> settles; a run of polls is the sequence of their outcomes.\<close>

definition poll :: "opts \<Rightarrow> app \<Rightarrow> 'd outcome \<Rightarrow> app" where
  "poll ops a out = fst (apiInterval_recv ops out a)"

text \<open>A rejected fetch: \<open>api\<close> passes the rejection on before it reaches any of its branches.\<close>

definition fetch_rejected :: "'d outcome \<Rightarrow> bool" where
  "fetch_rejected out = (case out of NetworkError \<Rightarrow> True | Response _ \<Rightarrow> False)"

definition failing_poll :: "app \<Rightarrow> 'd outcome \<Rightarrow> bool" where
  "failing_poll a out \<longleftrightarrow> fetch_rejected out \<or> plain_failure a out"

lemma poll_rejected: "fetch_rejected out \<Longrightarrow> poll ops a out = a"
  by (cases out) (simp_all add: fetch_rejected_def poll_def apiInterval_recv_def api_recv_def)

lemma poll_plain_failure:
  "plain_failure a out \<Longrightarrow> poll ops a out =
    (if error (apiNotice a) \<noteq> '''' \<or> silent ops then a
     else toast (failure_message out) ''error'' (a\<lparr>apiNotice := (apiNotice a)\<lparr>error := failure_message out\<rparr>\<rparr>))"
  by (simp add: poll_def apiInterval_recv_def recv_plain_failure)

lemma poll_failures_keep:
  "(\<forall>out \<in> set outs. failing_poll a out) \<Longrightarrow> error (apiNotice a) \<noteq> '''' \<or> silent ops \<Longrightarrow> run (poll ops) a outs = a"
  by (induction outs) (auto simp: failing_poll_def poll_rejected poll_plain_failure)

lemma failing_poll_cong: "sess a' = sess a \<Longrightarrow> failing_poll a' out = failing_poll a out"
  by (simp add: failing_poll_def plain_failure_def cong: outcome.case_cong)

section \<open>Properties\<close>

text \<open>
  C2. A run of failing polls. The failures are rejected fetches and error answers, without those that end the
  session. Rejected fetches show nothing. The first error answer is shown, once, in the notice and as a toast,
  unless a notice is already shown or the calls are silent; nothing else changes. A successful poll after the
  run clears the error of the notice (unless silent) and keeps its success message.
\<close>

theorem poll_failures_show_once:
  assumes "\<forall>out \<in> set outs. failing_poll a out" and "res_ok res"
  shows "run (poll ops) a outs =
      (case dropWhile fetch_rejected outs of
         [] \<Rightarrow> a
       | out # _ \<Rightarrow>
           if error (apiNotice a) \<noteq> '''' \<or> silent ops then a
           else toast (failure_message out) ''error'' (a\<lparr>apiNotice := (apiNotice a)\<lparr>error := failure_message out\<rparr>\<rparr>))
    \<and> apiNotice (poll ops (run (poll ops) a outs) (Response res)) =
      (if silent ops then apiNotice a else \<lparr>error = '''', success = success (apiNotice a)\<rparr>)"
proof -
  have final: "run (poll ops) a outs =
      (case dropWhile fetch_rejected outs of
         [] \<Rightarrow> a
       | out # _ \<Rightarrow>
           if error (apiNotice a) \<noteq> '''' \<or> silent ops then a
           else toast (failure_message out) ''error'' (a\<lparr>apiNotice := (apiNotice a)\<lparr>error := failure_message out\<rparr>\<rparr>))"
    using assms(1)
  proof (induction outs)
    case (Cons out rest)
    show ?case
    proof (cases "fetch_rejected out")
      case False
      let ?a = "toast (failure_message out) ''error'' (a\<lparr>apiNotice := (apiNotice a)\<lparr>error := failure_message out\<rparr>\<rparr>)"
      from False Cons.prems have f: "plain_failure a out" by (simp add: failing_poll_def)
      have "run (poll ops) ?a rest = ?a"
        using Cons.prems failure_message_ne [OF f] failing_poll_cong [of ?a a] by (intro poll_failures_keep) auto
      moreover have "run (poll ops) a rest = a" if "error (apiNotice a) \<noteq> '''' \<or> silent ops"
        using Cons.prems that by (intro poll_failures_keep) auto
      ultimately show ?thesis using False by (auto simp: poll_plain_failure [OF f])
    qed (use Cons in \<open>simp add: poll_rejected\<close>)
  qed simp
  moreover have "apiNotice (poll ops b (Response res)) =
      (if silent ops then apiNotice b else \<lparr>error = '''', success = success (apiNotice b)\<rparr>)" for b
    using assms(2) by (simp add: poll_def apiInterval_recv_def recv_success)
  ultimately show ?thesis by (auto split: list.splits)
qed

text \<open>
  C1. An expired session: when the server answers "Authentication required" to a call made with a
  token, the session is dropped from memory and from storage, the user is sent to the login page,
  and neither a notice nor a toast appears, whatever the options of the call.
\<close>

theorem expired_session_logs_out:
  assumes "\<not> res_ok res" and "rjson res = Some p" and "perror p = Some ''Authentication required''"
    and "truthy_str (jwt (sess a))"
  shows "\<exists>a' err. api_recv ops (Response res) a = (a', refresh_header res = Some ''true'', Thrown err)
    \<and> message err = ''Authentication required''
    \<and> \<not> isLoggedIn (sess a') \<and> load_session (localStorage a') = empty_session
    \<and> last (navigations a') = \<lparr>target = ''/login'', replaces = False\<rparr>
    \<and> apiNotice a' = apiNotice a \<and> toasts a' = toasts a"
proof -
  have msg: "message (ApiError res (rjson res)) = ''Authentication required''"
    using assms(2,3) by (simp add: ApiError_def)
  have "api_recv ops (Response res) a =
      (route ''/login'' False (logout a), refresh_header res = Some ''true'', Thrown (ApiError res (rjson res)))"
    using assms(1,4) msg by (simp add: api_recv_def Let_def)
  with msg show ?thesis
    by (simp add: isLoggedIn_def truthy_str_def route_def) (simp add: logout_def load_session_def)
qed

text \<open>
  Frame of the request function: whatever the outcome, a call changes the session only by the
  logout above, keeps the stored session in step with the one in memory, adds at most one toast
  (and then an error toast with a non-empty text), and never sets a success message.
\<close>

theorem api_recv_frame:
  assumes "session_synced a"
  shows "let a' = fst (api_recv ops out a) in
     session_synced a'
     \<and> (sess a' = sess a \<or> sess a' = empty_session)
     \<and> (toasts a' = toasts a \<or> (\<exists>m. m \<noteq> '''' \<and> toasts a' = toasts a @ [(m, ''error'')]))
     \<and> success (apiNotice a') \<in> {success (apiNotice a), ''''}"
proof (cases out)
  case NetworkError
  with assms show ?thesis by (simp add: api_recv_def)
next
  case (Response res)
  consider (ok) "res_ok res" | (plain) "plain_failure a out"
    | (expired) "\<not> res_ok res" "message (ApiError res (rjson res)) = ''Authentication required''"
        "truthy_str (jwt (sess a))"
    by (auto simp: Response plain_failure_def)
  then show ?thesis
  proof cases
    case ok
    with assms show ?thesis by (simp add: Response recv_success session_synced_def clearNotice_def Let_def)
  next
    case plain
    with assms failure_message_ne [OF plain] show ?thesis
      by (simp add: recv_plain_failure session_synced_def Let_def)
  next
    case expired
    then have "fst (api_recv ops out a) = route ''/login'' False (logout a)"
      by (simp add: Response api_recv_def Let_def)
    then show ?thesis
      using synced_logout [of a] by (simp add: session_synced_def)
  qed
qed

section \<open>Witnesses\<close>

definition demo_app :: app where
  "demo_app = login ''t'' (Some no_user_fields) (boot (\<lambda>_. None))"

definition demo_fail :: "nat \<Rightarrow> string \<Rightarrow> unit outcome" where
  "demo_fail st e = Response \<lparr>status = st, statusText = ''err'', refresh_header = None,
     rjson = Some \<lparr>perror = Some e, pdata = None\<rparr>\<rparr>"

lemma demo_app_simps [simp]:
  "apiNotice demo_app = \<lparr>error = '''', success = ''''\<rparr>" "toasts demo_app = []" "jwt (sess demo_app) = Some ''t''"
  by (simp_all add: demo_app_def boot_def login_def Let_def)

theorem poll_failures_show_once_witness:
  "toasts (run (poll default_opts) demo_app [NetworkError, demo_fail 502 ''x'', NetworkError, demo_fail 500 ''y''])
     = [(''Connection lost. Retrying...'', ''error'')]"
proof -
  let ?outs = "[NetworkError, demo_fail 502 ''x'', NetworkError, demo_fail 500 ''y'']"
  let ?ok = "\<lparr>status = 200, statusText = '''', refresh_header = None, rjson = None\<rparr> :: unit response"
  have "\<forall>out \<in> set ?outs. failing_poll demo_app out" "res_ok ?ok"
    by (simp_all add: failing_poll_def fetch_rejected_def plain_failure_def demo_fail_def res_ok_def ApiError_def)
  from poll_failures_show_once [OF this, THEN conjunct1, of default_opts] show ?thesis
    by (simp only:) (simp add: fetch_rejected_def demo_fail_def failure_message_def)
qed

theorem expired_session_logs_out_witness:
  "\<not> isLoggedIn (sess (fst (api_recv default_opts (demo_fail 401 ''Authentication required'') demo_app)))"
proof -
  let ?p = "\<lparr>perror = Some ''Authentication required'', pdata = None\<rparr> :: unit payload"
  let ?r = "\<lparr>status = 401, statusText = ''err'', refresh_header = None, rjson = Some ?p\<rparr>"
  have "demo_fail 401 ''Authentication required'' = Response ?r" by (simp add: demo_fail_def)
  with expired_session_logs_out [of ?r ?p demo_app default_opts] show ?thesis
    by (auto simp: res_ok_def truthy_str_def)
qed

theorem api_recv_frame_witness:
  "session_synced (fst (api_recv default_opts (demo_fail 500 ''boom'') demo_app))"
  using api_recv_frame [of demo_app default_opts "demo_fail 500 ''boom''"]
  by (simp add: Let_def demo_app_def js_inv)

end
