(* ===== verification/UtilFns.thy ===== *)
theory UtilFns
  imports ApiClient "HOL-Library.Product_Lexorder"
begin

text \<open>
  \<open>utils.js\<close>: the pure helpers every page shares (durations, relative times, log clean-up, build
  ordering and selection, version labels), the theme switch, the database export, and the block
  table of the editor. The record \<open>build\<close> has the fields of the server's build objects that the
  front end reads; \<open>number\<close> is the property the sort reads, which the server's objects do not have.

  Numbers are integers. \<open>Math.floor(x / y)\<close> on doubles is \<open>x div y\<close> here; the two agree for the
  divisions below as long as a duration is under 2048 hours.
\<close>

section \<open>Constants\<close>

definition fetchInterval :: nat where "fetchInterval = 2000"

definition buildListCap :: nat where "buildListCap = 500"

section \<open>Durations\<close>

text \<open>\<open>hours = hours || "00"; hours += ""; if (hours.length === 1) hours = "0" + hours\<close>.\<close>

definition two_digits :: "int \<Rightarrow> string" where
  "two_digits n =
     (let t = (if n = 0 then ''00'' else int_str n)
      in if length t = 1 then ''0'' @ t else t)"

definition secConst :: int where "secConst = 1000 * 1000 * 1000"

definition minConst :: int where "minConst = secConst * 60"

definition hourConst :: int where "hourConst = minConst * 60"

definition durationToString :: "int \<Rightarrow> string" where
  "durationToString duration =
     (if duration = 0 then ''00:00:00''
      else
        (let hours = duration div hourConst;
             minutes = (duration - hours * hourConst) div minConst;
             seconds = (duration - hours * hourConst - minutes * minConst) div secConst
         in two_digits hours @ '':'' @ two_digits minutes @ '':'' @ two_digits seconds))"

section \<open>Logs\<close>

abbreviation LF :: char where "LF \<equiv> CHR 0x0A"

abbreviation CR :: char where "CR \<equiv> CHR 0x0D"

definition process_line :: "string \<Rightarrow> string" where
  "process_line line = (if CR \<in> set line then last (split_on CR line) else line)"

text \<open>A null or empty text is returned as it is.\<close>

definition processLogs :: "string option \<Rightarrow> string option" where
  "processLogs txt =
     (case txt of
        None \<Rightarrow> None
      | Some t \<Rightarrow> if t = '''' then Some t
                  else Some (join_with [LF] (map process_line (split_on LF t))))"

section \<open>Relative times\<close>

text \<open>
  \<open>parse_date\<close> is \<open>new Date(s).getTime()\<close> in milliseconds, \<open>None\<close> for an invalid date; \<open>now\<close> is
  \<open>Date.now()\<close>. Every comparison with NaN is false, so an invalid date falls through to the end.
\<close>

definition pikoTimeAgo :: "(string \<Rightarrow> int option) \<Rightarrow> int \<Rightarrow> string option \<Rightarrow> string" where
  "pikoTimeAgo parse_date now dateStr =
     (case dateStr of
        None \<Rightarrow> ''never''
      | Some ds \<Rightarrow>
          if ds = '''' \<or> prefix ''0001-01-01'' ds then ''never''
          else (case parse_date ds of
                  None \<Rightarrow> ''NaNd ago''
                | Some t \<Rightarrow>
                    (let seconds = (now - t) div 1000 in
                     if seconds < 60 then ''just now''
                     else if seconds < 3600 then int_str (seconds div 60) @ ''m ago''
                     else if seconds < 86400 then int_str (seconds div 3600) @ ''h ago''
                     else int_str (seconds div 86400) @ ''d ago'')))"

section \<open>Editor blocks\<close>

record block_type =
  bt_type :: string
  bt_label :: string
  bt_icon :: string
  bt_letter :: string

definition blockTypes :: "block_type list" where
  "blockTypes =
    [\<lparr>bt_type = ''resource_type'', bt_label = ''Resource Types'', bt_icon = ''rt'', bt_letter = ''R''\<rparr>,
     \<lparr>bt_type = ''resource'', bt_label = ''Resources'', bt_icon = ''rs'', bt_letter = ''R''\<rparr>,
     \<lparr>bt_type = ''job'', bt_label = ''Jobs'', bt_icon = ''jb'', bt_letter = ''J''\<rparr>,
     \<lparr>bt_type = ''secret_type'', bt_label = ''Secret Types'', bt_icon = ''st'', bt_letter = ''S''\<rparr>,
     \<lparr>bt_type = ''runner_type'', bt_label = ''Runner Types'', bt_icon = ''rn'', bt_letter = ''R''\<rparr>,
     \<lparr>bt_type = ''service_type'', bt_label = ''Service Types'', bt_icon = ''sv'', bt_letter = ''S''\<rparr>,
     \<lparr>bt_type = ''notification_type'', bt_label = ''Notification Types'', bt_icon = ''nt'', bt_letter = ''N''\<rparr>,
     \<lparr>bt_type = ''notification'', bt_label = ''Notifications'', bt_icon = ''no'', bt_letter = ''N''\<rparr>,
     \<lparr>bt_type = ''variable'', bt_label = ''Variables'', bt_icon = ''vr'', bt_letter = ''V''\<rparr>]"

section \<open>Theme\<close>

text \<open>The root element's \<open>data-theme\<close>, the stored choice, and the switch (\<open>None\<close>: not on the page).\<close>

record theme =
  data_theme :: "string option"
  piko_theme :: "string option"
  switch_on :: "bool option"

definition syncThemeSwitch :: "theme \<Rightarrow> theme" where
  "syncThemeSwitch t =
     (case switch_on t of
        None \<Rightarrow> t
      | Some _ \<Rightarrow> if data_theme t = Some ''dark'' then t\<lparr>switch_on := Some True\<rparr>
                  else t\<lparr>switch_on := Some False\<rparr>)"

definition toggleTheme :: "theme \<Rightarrow> theme" where
  "toggleTheme t =
     (let isDark = (data_theme t = Some ''dark'') in
      syncThemeSwitch
        (if isDark then t\<lparr>data_theme := None, piko_theme := Some ''light''\<rparr>
         else t\<lparr>data_theme := Some ''dark'', piko_theme := Some ''dark''\<rparr>))"

section \<open>Database export\<close>

text \<open>The request, only with a token; then a download, or an error that nothing catches.\<close>

definition exportDatabase :: "string option \<Rightarrow> request option" where
  "exportDatabase j =
     (if truthy_str j
      then Some \<lparr>rq_url = ''/admin/export'', rq_method = GET, rq_body = None,
                 rq_headers = [(''Authorization'', ''Bearer '' @ the j)]\<rparr>
      else None)"

datatype export_end = Uncaught string | Download string

definition exportDatabase_settle :: "bool \<Rightarrow> string \<Rightarrow> string \<Rightarrow> export_end" where
  "exportDatabase_settle ok txt stText =
     (if \<not> ok then Uncaught (if txt \<noteq> '''' then txt else stText) else Download ''pikoci.db'')"

section \<open>Builds\<close>

datatype step = Step (st_type: string) (st_name: string) (st_status: string) (st_duration: int)
  (st_logs: string) (st_started_at: "string option") (sub_steps: "step list option")

record approval =
  ap_username :: string
  ap_action :: string
  ap_message :: string

record build =
  bid :: nat
  number :: "string option"
  build_number :: string
  bstatus :: string
  bduration :: int
  bstarted_at :: "string option"
  berror :: string
  bsteps :: "step list option"
  bjob :: "step list option"
  approvals :: "approval list option"
  version_id :: "nat option"
  resource_canonical :: "string option"
  version_metadata :: "json jsobj option"
  pinned_versions :: "json jsobj jsobj option"
  input_values :: "string jsobj option"

text \<open>\<open>Number(s)\<close> on the pieces of a build number: digits, the empty string is 0, else NaN.\<close>

definition js_Number :: "string \<Rightarrow> int option" where
  "js_Number s = (if s = '''' then Some 0
     else if list_all is_digit s then Some (int (digits_val s)) else None)"

text \<open>\<open>(a.number || '0').split('.').map(Number)\<close>.\<close>

definition number_parts :: "string option \<Rightarrow> int option list" where
  "number_parts n =
     map js_Number (split_on CHR ''.'' (if truthy_str n then the n else ''0''))"

definition major_of :: "string option \<Rightarrow> int option" where
  "major_of n = hd (number_parts n)"

text \<open>\<open>minor || 0\<close>: an absent or unreadable minor counts as 0.\<close>

definition minor_of :: "string option \<Rightarrow> int" where
  "minor_of n = (case number_parts n of _ # Some m # _ \<Rightarrow> m | _ \<Rightarrow> 0)"

text \<open>The comparator; a NaN result counts as 0 in a sort.\<close>

definition build_cmp :: "build \<Rightarrow> build \<Rightarrow> int" where
  "build_cmp a b =
     (case (major_of (number a), major_of (number b)) of
        (Some aMajor, Some bMajor) \<Rightarrow>
          if bMajor \<noteq> aMajor then bMajor - aMajor else minor_of (number b) - minor_of (number a)
      | _ \<Rightarrow> 0)"

definition sortBuilds :: "build list \<Rightarrow> build list" where
  "sortBuilds builds = js_sort build_cmp builds"

text \<open>\<open>requestedID\<close> is a number or null; 0 counts as absent.\<close>

definition selectActiveBuild :: "build list \<Rightarrow> nat option \<Rightarrow> build option" where
  "selectActiveBuild builds requestedID =
     (if builds = [] then None
      else
        (case (case requestedID of
                 None \<Rightarrow> None
               | Some r \<Rightarrow> if r = 0 then None
                   else List.find (\<lambda>b. nat_str (bid b) = nat_str r) builds) of
           Some found \<Rightarrow> Some found
         | None \<Rightarrow>
             (case List.find (\<lambda>b. bstatus b = ''started'' \<or> bstatus b = ''pending''
                                  \<or> bstatus b = ''waiting_for_approval'') builds of
                Some active \<Rightarrow> Some active
              | None \<Rightarrow> Some (hd builds))))"

section \<open>Version labels\<close>

fun js_truthy :: "json \<Rightarrow> bool" where
  "js_truthy JNull = False"
| "js_truthy (JBool b) = b"
| "js_truthy (JNum n) = (n \<noteq> 0)"
| "js_truthy (JStr s) = (s \<noteq> '''')"
| "js_truthy _ = True"

fun js_string :: "json \<Rightarrow> string" where
  "js_string JNull = ''null''"
| "js_string (JBool b) = (if b then ''true'' else ''false'')"
| "js_string (JNum n) = int_str n"
| "js_string (JStr s) = s"
| "js_string (JArr xs) = join_with '','' (map (\<lambda>x. if x = JNull then '''' else js_string x) xs)"
| "js_string (JObj _) = ''[object Object]''"

datatype version = NoVersion | VersionText string | VersionMap "json jsobj"

definition truthy_field :: "json jsobj \<Rightarrow> string \<Rightarrow> json option" where
  "truthy_field m k = (case map_of m k of Some v \<Rightarrow> if js_truthy v then Some v else None | None \<Rightarrow> None)"

definition versionRef :: "version \<Rightarrow> json" where
  "versionRef v =
     (case v of
        NoVersion \<Rightarrow> JStr ''''
      | VersionText s \<Rightarrow> JStr s
      | VersionMap m \<Rightarrow>
          (case truthy_field m ''ref'' of Some x \<Rightarrow> x
           | None \<Rightarrow> (case truthy_field m ''digest'' of Some x \<Rightarrow> x
           | None \<Rightarrow> (case truthy_field m ''tag'' of Some x \<Rightarrow> x
           | None \<Rightarrow> (case map_of m ''version'' of Some (JStr s) \<Rightarrow> JStr s
           | _ \<Rightarrow> (case m of [] \<Rightarrow> JStr ''''
                   | (k, x) # _ \<Rightarrow> JStr (k @ '': '' @ js_string x)))))))"

section \<open>Lemmas\<close>

lemma digit_char_0 [simp]: "digit_char 0 = CHR ''0''"
  by (simp add: digit_char_def char_of_def bit_0)

lemma two_digits_nat:
  "two_digits (int n) = (if n < 10 then [CHR ''0'', digit_char n] else nat_str n)"
proof (cases "n < 10")
  case True
  then have "nat_str n = [digit_char n]" by (simp add: nat_str.simps [of n])
  then show ?thesis
    using True by (cases "n = 0") (simp_all add: two_digits_def int_str_def digit_char_0)
next
  case False
  then have "length (nat_str n) \<noteq> 1" using length_nat_str_1 [of n] by metis
  with False show ?thesis by (simp add: two_digits_def int_str_def)
qed

lemma digits_val_two_digits [simp]: "digits_val (two_digits (int n)) = n"
proof (cases "n < 10")
  case True
  then show ?thesis by (simp add: two_digits_nat digits_val_def digit_val_def)
next
  case False
  then show ?thesis by (simp add: two_digits_nat)
qed

lemma colon_notin_two_digits [simp]: "CHR '':'' \<notin> set (two_digits (int n))"
proof -
  have "\<not> is_digit CHR '':''" by (simp add: is_digit_def)
  then have "CHR '':'' \<noteq> digit_char n" if "n < 10" using that is_digit_digit_char by metis
  with \<open>\<not> is_digit CHR '':''\<close> show ?thesis
    by (simp add: two_digits_nat not_digit_notin_nat_str)
qed

lemma length_two_digits: "n < 100 \<Longrightarrow> length (two_digits (int n)) = 2"
proof (cases "n < 10")
  case True
  then show ?thesis by (simp add: two_digits_nat)
next
  case False
  assume "n < 100"
  with False have "n div 10 < 10" by simp
  with False show ?thesis
    by (simp add: two_digits_nat nat_str.simps [of n] nat_str.simps [of "n div 10"])
qed

lemma mod_div_swap: "(d::int) mod (b * c) div b = d div b mod c" if "0 < b" "0 < c" for b c :: int
proof -
  have "d mod (b * c) = b * (d div b mod c) + d mod b"
    using that by (simp add: zmod_zmult2_eq)
  with that show ?thesis by simp
qed

lemma hms_split:
  fixes d :: int
  defines "e \<equiv> d div secConst"
  shows "d div hourConst = e div 3600"
    and "(d - d div hourConst * hourConst) div minConst = e div 60 mod 60"
    and "(d - d div hourConst * hourConst - (d - d div hourConst * hourConst) div minConst * minConst) div secConst
         = e mod 60"
proof -
  have pos: "0 < secConst" by (simp add: secConst_def)
  have H: "hourConst = minConst * 60" and M: "minConst = secConst * 60"
    by (simp_all add: hourConst_def minConst_def)
  have HS: "hourConst = secConst * 3600" by (simp add: H M)
  show "d div hourConst = e div 3600"
    unfolding HS e_def using pos by (simp add: zdiv_zmult2_eq)
  have r: "d - d div hourConst * hourConst = d mod hourConst"
    by (simp add: minus_div_mult_eq_mod)
  have m: "d mod hourConst div minConst = d div minConst mod 60"
    unfolding H using pos by (intro mod_div_swap) (simp_all add: M)
  also have "d div minConst = e div 60"
    unfolding M e_def using pos by (simp add: zdiv_zmult2_eq)
  finally show "(d - d div hourConst * hourConst) div minConst = e div 60 mod 60"
    by (simp add: r)
  have "d mod hourConst - d mod hourConst div minConst * minConst = d mod hourConst mod minConst"
    by (simp add: minus_div_mult_eq_mod)
  also have "\<dots> = d mod minConst"
    unfolding H by (simp add: mod_mod_cancel)
  also have "\<dots> div secConst = e mod 60"
    unfolding M e_def using pos by (intro mod_div_swap) simp_all
  finally show "(d - d div hourConst * hourConst - (d - d div hourConst * hourConst) div minConst * minConst) div secConst
         = e mod 60"
    by (simp add: r)
qed

lemma durationToString_hms:
  assumes "0 \<le> d"
  shows "durationToString d =
    (let e = nat (d div secConst)
     in two_digits (int (e div 3600)) @ '':'' @ two_digits (int (e div 60 mod 60)) @ '':'' @ two_digits (int (e mod 60)))"
proof -
  define e where "e = nat (d div secConst)"
  have e: "d div secConst = int e"
    using assms by (simp add: e_def secConst_def pos_imp_zdiv_nonneg_iff)
  show ?thesis
  proof (cases "d = 0")
    case True
    then show ?thesis by (simp add: durationToString_def two_digits_def Let_def)
  next
    case False
    define H where "H = d div hourConst"
    define M where "M = (d - H * hourConst) div minConst"
    define S where "S = (d - H * hourConst - M * minConst) div secConst"
    have "durationToString d = two_digits H @ '':'' @ two_digits M @ '':'' @ two_digits S"
      using False by (simp only: durationToString_def Let_def H_def M_def S_def if_False)
    moreover have "H = int e div 3600" "M = int e div 60 mod 60" "S = int e mod 60"
      using hms_split [of d] by (simp_all add: H_def M_def S_def e)
    ultimately have "durationToString d = two_digits (int e div 3600) @ '':'' @ two_digits (int e div 60 mod 60)
        @ '':'' @ two_digits (int e mod 60)"
      by simp
    then show ?thesis
      by (simp add: e_def [symmetric] Let_def zdiv_int zmod_int)
  qed
qed

lemma last_split_no_sep: "CR \<notin> set (last (split_on CR l))"
  using split_on_no_sep [of "last (split_on CR l)" CR l] by simp

lemma process_line_no_CR: "CR \<notin> set (process_line l)"
  by (simp add: process_line_def last_split_no_sep)

lemma process_line_no_LF: "LF \<notin> set l \<Longrightarrow> LF \<notin> set (process_line l)"
proof -
  assume "LF \<notin> set l"
  moreover have "set (last (split_on CR l)) \<subseteq> set l"
  proof -
    have "p \<in> set (split_on c l) \<Longrightarrow> set p \<subseteq> set l" for p c and l :: string
      by (induction l arbitrary: p) (fastforce split: list.splits if_splits)+
    from this [of "last (split_on CR l)" CR l] show ?thesis by simp
  qed
  ultimately show ?thesis by (auto simp: process_line_def)
qed

lemma process_line_id: "CR \<notin> set l \<Longrightarrow> process_line l = l"
  by (simp add: process_line_def)

lemma split_processed:
  "split_on LF (join_with [LF] (map process_line (split_on LF t))) = map process_line (split_on LF t)"
  by (rule split_join) (use process_line_no_LF split_on_no_sep in fastforce)+

lemma processLogs_Some:
  "processLogs (Some t) = Some (join_with [LF] (map process_line (split_on LF t)))"
  by (simp add: processLogs_def process_line_def)

lemma js_Number_nat_str [simp]: "js_Number (nat_str n) = Some (int n)"
  by (simp add: js_Number_def list_all_iff nat_str_digits)

definition wf_number :: "build \<Rightarrow> bool" where
  "wf_number b \<longleftrightarrow> major_of (number b) \<noteq> None"

definition build_key :: "build \<Rightarrow> int \<times> int" where
  "build_key b = (the (major_of (number b)), minor_of (number b))"

interpretation build_order: descending_by build_cmp build_key wf_number
  by unfold_locales (auto simp: wf_number_def build_key_def build_cmp_def less_eq_prod_simp split: if_splits)

lemma build_cmp_no_number: "number a = None \<Longrightarrow> number b = None \<Longrightarrow> build_cmp a b = 0"
  by (simp add: build_cmp_def split: option.splits)

lemma sortBuilds_no_number: "(\<forall>b \<in> set bs. number b = None) \<Longrightarrow> sortBuilds bs = bs"
  unfolding sortBuilds_def
  by (rule js_sort_id) (auto simp: sorted_wrt_iff_nth_less build_cmp_no_number)

lemma find_SomeD: "List.find P xs = Some x \<Longrightarrow> x \<in> set xs \<and> P x"
  by (induction xs) (auto split: if_splits)

lemma find_NoneD: "List.find P xs = None \<Longrightarrow> x \<in> set xs \<Longrightarrow> \<not> P x"
  by (induction xs) (auto split: if_splits)

lemma case_list_append:
  "(case xs @ ys of [] \<Rightarrow> n | x # _ \<Rightarrow> f x) = (case xs of [] \<Rightarrow> (case ys of [] \<Rightarrow> n | y # _ \<Rightarrow> f y) | x # _ \<Rightarrow> f x)"
  by (cases xs) auto

lemma nat_str_inj [simp]: "nat_str m = nat_str n \<longleftrightarrow> m = n"
  by (metis digits_val_nat_str)

section \<open>Properties\<close>

text \<open>Reading a duration text back: hours, minutes and seconds to seconds.\<close>

definition parse_hms :: "string \<Rightarrow> nat option" where
  "parse_hms s = (case split_on CHR '':'' s of
     [h, m, t] \<Rightarrow> if length m = 2 \<and> length t = 2 \<and> digits_val m < 60 \<and> digits_val t < 60
       then Some (digits_val h * 3600 + digits_val m * 60 + digits_val t) else None
   | _ \<Rightarrow> None)"

text \<open>
  A duration is printed without loss: for every non-negative number of nanoseconds the text has
  the form h:mm:ss with two-digit minutes and seconds below 60, and reading it back gives the whole
  number of seconds.
\<close>

theorem durationToString_roundtrip:
  assumes "0 \<le> d"
  shows "parse_hms (durationToString d) = Some (nat (d div secConst))"
proof -
  define e where "e = nat (d div secConst)"
  let ?f = "\<lambda>n. two_digits (int n)"
  have "durationToString d = join_with [CHR '':''] [?f (e div 3600), ?f (e div 60 mod 60), ?f (e mod 60)]"
    using durationToString_hms [OF assms] by (simp add: e_def [symmetric] Let_def)
  then have "split_on CHR '':'' (durationToString d) = [?f (e div 3600), ?f (e div 60 mod 60), ?f (e mod 60)]"
    by (simp only:) (rule split_join; auto)
  moreover have "e div 3600 * 3600 + e div 60 mod 60 * 60 + e mod 60 = e"
  proof -
    have "e div 3600 = e div 60 div 60" by (simp add: div_mult2_eq [symmetric])
    then have "e div 3600 * 3600 + e div 60 mod 60 * 60 = (e div 60 div 60 * 60 + e div 60 mod 60) * 60"
      by (simp only: distrib_right mult.assoc)
    also have "\<dots> = e div 60 * 60" by (simp only: div_mult_mod_eq)
    finally show ?thesis by (simp only: div_mult_mod_eq)
  qed
  ultimately show ?thesis
    by (simp add: parse_hms_def length_two_digits e_def [symmetric])
qed

theorem durationToString_roundtrip_witness:
  "parse_hms (durationToString 3723000000000) = Some 3723"
  using durationToString_roundtrip [of 3723000000000] by (simp add: secConst_def)

text \<open>
  Log clean-up keeps the line structure: the result has the same number of lines, no carriage
  return, leaves lines without one as they are, and cleaning twice changes nothing.
\<close>

theorem processLogs_lines:
  "\<exists>r. processLogs (Some t) = Some r
     \<and> length (split_on LF r) = length (split_on LF t)
     \<and> CR \<notin> (\<Union>l \<in> set (split_on LF r). set l)
     \<and> processLogs (Some r) = Some r
     \<and> list_all2 (\<lambda>old new. CR \<in> set old \<or> new = old) (split_on LF t) (split_on LF r)"
proof (intro exI conjI)
  let ?r = "join_with [LF] (map process_line (split_on LF t))"
  show "processLogs (Some t) = Some ?r" by (rule processLogs_Some)
  show "length (split_on LF ?r) = length (split_on LF t)" by (simp add: split_processed)
  show "CR \<notin> (\<Union>l \<in> set (split_on LF ?r). set l)"
    by (auto simp: split_processed process_line_no_CR)
  have "map process_line (split_on LF ?r) = split_on LF ?r"
    by (simp add: split_processed process_line_id process_line_no_CR)
  then show "processLogs (Some ?r) = Some ?r"
    by (simp add: processLogs_Some join_split)
  show "list_all2 (\<lambda>old new. CR \<in> set old \<or> new = old) (split_on LF t) (split_on LF ?r)"
    using process_line_id by (auto simp: split_processed list_all2_conv_all_nth)
qed

text \<open>
  Windows line ends: in a text whose lines are separated by CR LF, every line but the last is
  shown empty, because the part after the carriage return is what is kept.
\<close>

theorem processLogs_CRLF_blanks_lines:
  assumes "\<forall>l \<in> set ls. CR \<notin> set l \<and> LF \<notin> set l" and "CR \<notin> set fin" and "LF \<notin> set fin"
  shows "processLogs (Some (concat (map (\<lambda>l. l @ [CR, LF]) ls) @ fin)) = Some (replicate (length ls) LF @ fin)"
proof -
  have "split_on LF (concat (map (\<lambda>l. l @ [CR, LF]) ls) @ fin) = map (\<lambda>l. l @ [CR]) ls @ [fin]"
    using assms(1)
  proof (induction ls)
    case Nil
    with assms(3) show ?case by (simp add: split_on_id)
  next
    case (Cons l ls)
    have "split_on LF ((l @ [CR]) @ LF # (concat (map (\<lambda>l. l @ [CR, LF]) ls) @ fin))
        = (l @ [CR]) # split_on LF (concat (map (\<lambda>l. l @ [CR, LF]) ls) @ fin)"
      by (rule split_on_append_sep) (use Cons.prems in auto)
    with Cons show ?case by simp
  qed
  moreover have "process_line (l @ [CR]) = ''''" if "l \<in> set ls" for l
  proof -
    have "split_on CR (l @ CR # []) = l # split_on CR []"
      by (rule split_on_append_sep) (use assms(1) that in auto)
    then show ?thesis by (simp add: process_line_def)
  qed
  moreover have "map process_line (map (\<lambda>l. l @ [CR]) ls) = replicate (length ls) ''''"
    using calculation(2) by (simp add: map_replicate_const [symmetric] cong: map_cong)
  moreover have "join_with [LF] (replicate n '''' @ [fin]) = replicate n LF @ fin" for n
    by (induction n) (auto simp: join_with_Cons)
  ultimately show ?thesis
    by (simp add: processLogs_Some process_line_id assms(2) del: map_map)
qed

theorem processLogs_CRLF_blanks_lines_witness:
  "processLogs (Some (''ok'' @ [CR, LF] @ ''done'')) = Some ([LF] @ ''done'')"
  using processLogs_CRLF_blanks_lines [of "[''ok'']" "''done''"] by simp

text \<open>
  Build order on numbered builds: for builds whose \<open>number\<close> is readable the result is a
  permutation, ordered by major and then minor number, largest first (as numbers, so 1.10 comes
  before 1.9), and builds with equal numbers keep their order.
\<close>

theorem sortBuilds_orders:
  assumes "\<forall>b \<in> set bs. wf_number b"
  shows "mset (sortBuilds bs) = mset bs
    \<and> sorted_wrt (\<lambda>a b. build_key b \<le> build_key a) (sortBuilds bs)
    \<and> filter (\<lambda>b. build_key b = k) (sortBuilds bs) = filter (\<lambda>b. build_key b = k) bs
    \<and> sortBuilds (sortBuilds bs) = sortBuilds bs"
  using assms
  by (simp add: sortBuilds_def build_order.sort_sorted build_order.sort_stable build_order.sort_idem)

definition demo_build :: "nat \<Rightarrow> string option \<Rightarrow> string \<Rightarrow> string \<Rightarrow> build" where
  "demo_build i n bn st = \<lparr>bid = i, number = n, build_number = bn, bstatus = st, bduration = 0,
     bstarted_at = None, berror = '''', bsteps = None, bjob = None, approvals = None, version_id = None,
     resource_canonical = None, version_metadata = None, pinned_versions = None, input_values = None\<rparr>"

theorem sortBuilds_orders_witness:
  "sorted_wrt (\<lambda>a b. build_key b \<le> build_key a)
     (sortBuilds [demo_build 1 (Some ''1.9'') ''1.9'' ''failed'', demo_build 2 (Some ''1.10'') ''1.10'' ''failed''])"
  using sortBuilds_orders
    [of "[demo_build 1 (Some ''1.9'') ''1.9'' ''failed'', demo_build 2 (Some ''1.10'') ''1.10'' ''failed'']"]
  by (simp add: wf_number_def demo_build_def major_of_def number_parts_def truthy_str_def js_Number_def is_digit_def)

text \<open>
  Build order on the server's builds: they carry \<open>build_number\<close> and no \<open>number\<close>, so the sort
  leaves every list of them exactly as it is, whatever their build numbers.
\<close>

theorem sortBuilds_ignores_build_number:
  assumes "\<forall>b \<in> set bs. number b = None"
  shows "sortBuilds bs = bs"
  using assms by (rule sortBuilds_no_number)

theorem sortBuilds_ignores_build_number_witness:
  "sortBuilds [demo_build 1 None ''1.1'' ''failed'', demo_build 2 None ''2.1'' ''started'']
     = [demo_build 1 None ''1.1'' ''failed'', demo_build 2 None ''2.1'' ''started'']"
  using sortBuilds_ignores_build_number
    [of "[demo_build 1 None ''1.1'' ''failed'', demo_build 2 None ''2.1'' ''started'']"]
  by (simp add: demo_build_def)

text \<open>
  Which build is opened: the first element of the list made of the builds with the requested id
  (0 counts as no request), then the builds that are running, pending or waiting for approval, then
  all builds; so nothing is opened exactly when there is no build.
\<close>

theorem selectActiveBuild_priority:
  "selectActiveBuild bs req =
     (case filter (\<lambda>b. bid b \<noteq> 0 \<and> req = Some (bid b)) bs
           @ filter (\<lambda>b. bstatus b \<in> {''started'', ''pending'', ''waiting_for_approval''}) bs @ bs of
        [] \<Rightarrow> None | b # _ \<Rightarrow> Some b)"
proof -
  have req: "(case req of None \<Rightarrow> None | Some r \<Rightarrow> if r = 0 then None else List.find (\<lambda>b. nat_str (bid b) = nat_str r) bs)
      = List.find (\<lambda>b. bid b \<noteq> 0 \<and> req = Some (bid b)) bs"
  proof (cases req)
    case (Some r)
    show ?thesis
    proof (cases "r = 0")
      case False
      with Some have "(\<lambda>b. nat_str (bid b) = nat_str r) = (\<lambda>b. bid b \<noteq> 0 \<and> req = Some (bid b))"
        by auto
      then have "List.find (\<lambda>b. nat_str (bid b) = nat_str r) bs = List.find (\<lambda>b. bid b \<noteq> 0 \<and> req = Some (bid b)) bs"
        by (rule arg_cong)
      with Some False show ?thesis by simp
    qed (use Some in \<open>auto simp: find_None_iff eq_commute [of None]\<close>)
  qed (simp add: find_None_iff eq_commute [of None])
  have act: "(\<lambda>b. bstatus b = ''started'' \<or> bstatus b = ''pending'' \<or> bstatus b = ''waiting_for_approval'')
      = (\<lambda>b. bstatus b \<in> {''started'', ''pending'', ''waiting_for_approval''})"
    by auto
  show ?thesis
    unfolding selectActiveBuild_def unfolding req unfolding act unfolding find_filter
    by (cases bs) (simp_all add: case_list_append split: list.split)
qed

end
