(* ===== verification/Endpoints.thy ===== *)
theory Endpoints
  imports ApiClient
begin

text \<open>
  The endpoint table of \<open>api.js\<close>: each exported function is the call it makes, that is the URL as
  the source concatenates it, the options, and the part of the answer it resolves with
  (\<open>r => r.data\<close>, \<open>r => r.token\<close>, or the whole answer). Path segments are inserted verbatim, except
  the secret name, which goes through \<open>encodeURIComponent\<close>.
\<close>

datatype unwrap = Whole | Data | Token

record call =
  curl :: string
  copts :: opts
  cresult :: unwrap

definition mk_call :: "http_method \<Rightarrow> string \<Rightarrow> json option \<Rightarrow> unwrap \<Rightarrow> call" where
  "mk_call m u b w = \<lparr>curl = u, copts = default_opts\<lparr>verb := m, body := b\<rparr>, cresult = w\<rparr>"

text \<open>\<open>params ? '?' + new URLSearchParams(params) : ''\<close>.\<close>

definition qs_of :: "params option \<Rightarrow> string" where
  "qs_of ps = (case ps of None \<Rightarrow> '''' | Some kvs \<Rightarrow> ''?'' @ usp_string kvs)"

text \<open>\<open>pn ? '/teams/..pipelines/../secrets' : '/teams/../secrets'\<close>.\<close>

definition secretsPath :: "string \<Rightarrow> string option \<Rightarrow> string" where
  "secretsPath tc pno =
     (if truthy_str pno then ''/teams/'' @ tc @ ''/pipelines/'' @ the pno @ ''/secrets''
      else ''/teams/'' @ tc @ ''/secrets'')"

section \<open>Simple endpoints\<close>

definition postLogin :: "json \<Rightarrow> call" where
  "postLogin data = mk_call POST (''/login'') (Some data) Whole"

definition postRefreshToken :: "call" where
  "postRefreshToken = mk_call POST (''/refresh-token'') (None) Whole"

definition fetchVersion :: "call" where
  "fetchVersion = mk_call GET (''/version'') (None) Whole"

definition fetchTeams :: "call" where
  "fetchTeams = mk_call GET (''/teams'') (None) Data"

definition createTeam :: "json \<Rightarrow> call" where
  "createTeam data = mk_call POST (''/teams'') (Some data) Data"

definition fetchTeam :: "string \<Rightarrow> call" where
  "fetchTeam tc = mk_call GET (''/teams/'' @ tc) (None) Data"

definition updateTeam :: "string \<Rightarrow> json \<Rightarrow> call" where
  "updateTeam tc data = mk_call PUT (''/teams/'' @ tc) (Some data) Whole"

definition deleteTeam :: "string \<Rightarrow> call" where
  "deleteTeam tc = mk_call DELETE (''/teams/'' @ tc) (None) Whole"

definition fetchTeamMembers :: "string \<Rightarrow> call" where
  "fetchTeamMembers tc = mk_call GET (''/teams/'' @ tc @ ''/members'') (None) Data"

definition addTeamMember :: "string \<Rightarrow> json \<Rightarrow> call" where
  "addTeamMember tc data = mk_call POST (''/teams/'' @ tc @ ''/members'') (Some data) Whole"

definition updateTeamMember :: "string \<Rightarrow> string \<Rightarrow> json \<Rightarrow> call" where
  "updateTeamMember tc uname data = mk_call PUT (''/teams/'' @ tc @ ''/members/'' @ uname) (Some data) Whole"

definition removeTeamMember :: "string \<Rightarrow> string \<Rightarrow> call" where
  "removeTeamMember tc uname = mk_call DELETE (''/teams/'' @ tc @ ''/members/'' @ uname) (None) Whole"

definition fetchPipelines :: "string \<Rightarrow> call" where
  "fetchPipelines tc = mk_call GET (''/teams/'' @ tc @ ''/pipelines'') (None) Data"

definition fetchPipeline :: "string \<Rightarrow> string \<Rightarrow> call" where
  "fetchPipeline tc pn = mk_call GET (''/teams/'' @ tc @ ''/pipelines/'' @ pn) (None) Data"

definition createPipeline :: "string \<Rightarrow> json \<Rightarrow> call" where
  "createPipeline tc data = mk_call POST (''/teams/'' @ tc @ ''/pipelines'') (Some data) Whole"

definition updatePipeline :: "string \<Rightarrow> string \<Rightarrow> json \<Rightarrow> call" where
  "updatePipeline tc pn data = mk_call PUT (''/teams/'' @ tc @ ''/pipelines/'' @ pn) (Some data) Whole"

definition deletePipeline :: "string \<Rightarrow> string \<Rightarrow> call" where
  "deletePipeline tc pn = mk_call DELETE (''/teams/'' @ tc @ ''/pipelines/'' @ pn) (None) Whole"

definition pausePipeline :: "string \<Rightarrow> string \<Rightarrow> call" where
  "pausePipeline tc pn = mk_call POST (''/teams/'' @ tc @ ''/pipelines/'' @ pn @ ''/pause'') (None) Whole"

definition unpausePipeline :: "string \<Rightarrow> string \<Rightarrow> call" where
  "unpausePipeline tc pn = mk_call POST (''/teams/'' @ tc @ ''/pipelines/'' @ pn @ ''/unpause'') (None) Whole"

definition fetchPipelineImage :: "string \<Rightarrow> string \<Rightarrow> params option \<Rightarrow> call" where
  "fetchPipelineImage tc pn ps = mk_call GET (''/teams/'' @ tc @ ''/pipelines/'' @ pn @ ''/image.dot'' @ qs_of ps) (None) Whole"

definition previewPipelineImage :: "string \<Rightarrow> json \<Rightarrow> call" where
  "previewPipelineImage tc data = mk_call POST (''/teams/'' @ tc @ ''/pipelines/image.dot'') (Some data) Whole"

definition fetchJobs :: "string \<Rightarrow> string \<Rightarrow> call" where
  "fetchJobs tc pn = mk_call GET (''/teams/'' @ tc @ ''/pipelines/'' @ pn @ ''/jobs'') (None) Data"

definition fetchJob :: "string \<Rightarrow> string \<Rightarrow> string \<Rightarrow> call" where
  "fetchJob tc pn jn = mk_call GET (''/teams/'' @ tc @ ''/pipelines/'' @ pn @ ''/jobs/'' @ jn) (None) Data"

definition pauseJob :: "string \<Rightarrow> string \<Rightarrow> string \<Rightarrow> call" where
  "pauseJob tc pn jn = mk_call POST (''/teams/'' @ tc @ ''/pipelines/'' @ pn @ ''/jobs/'' @ jn @ ''/pause'') (None) Whole"

definition unpauseJob :: "string \<Rightarrow> string \<Rightarrow> string \<Rightarrow> call" where
  "unpauseJob tc pn jn = mk_call POST (''/teams/'' @ tc @ ''/pipelines/'' @ pn @ ''/jobs/'' @ jn @ ''/unpause'') (None) Whole"

definition cancelBuild :: "string \<Rightarrow> string \<Rightarrow> string \<Rightarrow> string \<Rightarrow> call" where
  "cancelBuild tc pn jn bid = mk_call POST (''/teams/'' @ tc @ ''/pipelines/'' @ pn @ ''/jobs/'' @ jn @ ''/builds/'' @ bid @ ''/cancel'') (None) Whole"

definition fetchBuild :: "string \<Rightarrow> string \<Rightarrow> string \<Rightarrow> string \<Rightarrow> call" where
  "fetchBuild tc pn jn bid = mk_call GET (''/teams/'' @ tc @ ''/pipelines/'' @ pn @ ''/jobs/'' @ jn @ ''/builds/'' @ bid) (None) Data"

definition retryBuild :: "string \<Rightarrow> string \<Rightarrow> string \<Rightarrow> string \<Rightarrow> call" where
  "retryBuild tc pn jn bid = mk_call POST (''/teams/'' @ tc @ ''/pipelines/'' @ pn @ ''/jobs/'' @ jn @ ''/builds/'' @ bid @ ''/retry'') (None) Whole"

definition approveBuild :: "string \<Rightarrow> string \<Rightarrow> string \<Rightarrow> string \<Rightarrow> string \<Rightarrow> call" where
  "approveBuild tc pn jn bid msg = mk_call POST (''/teams/'' @ tc @ ''/pipelines/'' @ pn @ ''/jobs/'' @ jn @ ''/builds/'' @ bid @ ''/approve'') (Some (JObj [(''message'', JStr msg)])) Whole"

definition rejectBuild :: "string \<Rightarrow> string \<Rightarrow> string \<Rightarrow> string \<Rightarrow> string \<Rightarrow> call" where
  "rejectBuild tc pn jn bid msg = mk_call POST (''/teams/'' @ tc @ ''/pipelines/'' @ pn @ ''/jobs/'' @ jn @ ''/builds/'' @ bid @ ''/reject'') (Some (JObj [(''message'', JStr msg)])) Whole"

definition markBuildAsWarning :: "string \<Rightarrow> string \<Rightarrow> string \<Rightarrow> string \<Rightarrow> call" where
  "markBuildAsWarning tc pn jn bid = mk_call PUT (''/teams/'' @ tc @ ''/pipelines/'' @ pn @ ''/jobs/'' @ jn @ ''/builds/'' @ bid @ ''/warning'') (None) Whole"

definition fetchBuildReport :: "string \<Rightarrow> string \<Rightarrow> string \<Rightarrow> string \<Rightarrow> call" where
  "fetchBuildReport tc pn jn bid = mk_call GET (''/teams/'' @ tc @ ''/pipelines/'' @ pn @ ''/jobs/'' @ jn @ ''/builds/'' @ bid @ ''/report'') (None) Whole"

definition fetchResources :: "string \<Rightarrow> string \<Rightarrow> call" where
  "fetchResources tc pn = mk_call GET (''/teams/'' @ tc @ ''/pipelines/'' @ pn @ ''/resources'') (None) Data"

definition fetchResource :: "string \<Rightarrow> string \<Rightarrow> string \<Rightarrow> call" where
  "fetchResource tc pn rCan = mk_call GET (''/teams/'' @ tc @ ''/pipelines/'' @ pn @ ''/resources/'' @ rCan) (None) Data"

definition triggerResource :: "string \<Rightarrow> string \<Rightarrow> string \<Rightarrow> call" where
  "triggerResource tc pn rCan = mk_call POST (''/teams/'' @ tc @ ''/pipelines/'' @ pn @ ''/resources/'' @ rCan @ ''/trigger'') (None) Whole"

definition pinResource :: "string \<Rightarrow> string \<Rightarrow> string \<Rightarrow> int \<Rightarrow> call" where
  "pinResource tc pn rCan versionID = mk_call POST (''/teams/'' @ tc @ ''/pipelines/'' @ pn @ ''/resources/'' @ rCan @ ''/pin'') (Some (JObj [(''version_id'', JNum versionID)])) Whole"

definition unpinResource :: "string \<Rightarrow> string \<Rightarrow> string \<Rightarrow> call" where
  "unpinResource tc pn rCan = mk_call POST (''/teams/'' @ tc @ ''/pipelines/'' @ pn @ ''/resources/'' @ rCan @ ''/unpin'') (None) Whole"

definition fetchResourceVersions :: "string \<Rightarrow> string \<Rightarrow> string \<Rightarrow> params option \<Rightarrow> call" where
  "fetchResourceVersions tc pn rCan ps = mk_call GET (''/teams/'' @ tc @ ''/pipelines/'' @ pn @ ''/resources/'' @ rCan @ ''/versions'' @ qs_of ps) (None) Whole"

definition triggerVersion :: "string \<Rightarrow> string \<Rightarrow> string \<Rightarrow> string \<Rightarrow> call" where
  "triggerVersion tc pn rCan vid = mk_call POST (''/teams/'' @ tc @ ''/pipelines/'' @ pn @ ''/resources/'' @ rCan @ ''/versions'' @ ''/'' @ vid @ ''/trigger'') (None) Whole"

definition fetchUsers :: "call" where
  "fetchUsers = mk_call GET (''/users'') (None) Data"

definition fetchUser :: "string \<Rightarrow> call" where
  "fetchUser uname = mk_call GET (''/users/'' @ uname) (None) Data"

definition createUser :: "json \<Rightarrow> call" where
  "createUser data = mk_call POST (''/users'') (Some data) Whole"

definition updateUser :: "string \<Rightarrow> json \<Rightarrow> call" where
  "updateUser uname data = mk_call PUT (''/users/'' @ uname) (Some data) Whole"

definition deleteUser :: "string \<Rightarrow> call" where
  "deleteUser uname = mk_call DELETE (''/users/'' @ uname) (None) Whole"

definition updateProfile :: "json \<Rightarrow> call" where
  "updateProfile data = mk_call PUT (''/profile'') (Some data) Whole"

definition changePassword :: "json \<Rightarrow> call" where
  "changePassword data = mk_call POST (''/users/change-password'') (Some data) Whole"

definition fetchSecrets :: "string \<Rightarrow> string option \<Rightarrow> call" where
  "fetchSecrets tc pno = mk_call GET (secretsPath tc pno) (None) Data"

definition setSecret :: "string \<Rightarrow> string option \<Rightarrow> json \<Rightarrow> call" where
  "setSecret tc pno data = mk_call POST (secretsPath tc pno) (Some data) Whole"

definition deleteSecret :: "string \<Rightarrow> string option \<Rightarrow> string \<Rightarrow> call" where
  "deleteSecret tc pno nm = mk_call DELETE (secretsPath tc pno @ ''/'' @ encodeURIComponent nm) (None) Whole"

definition fetchApiTokens :: "call" where
  "fetchApiTokens = mk_call GET (''/api-tokens'') (None) Data"

definition createApiToken :: "json \<Rightarrow> call" where
  "createApiToken data = mk_call POST (''/api-tokens'') (Some data) Whole"

definition deleteApiToken :: "string \<Rightarrow> call" where
  "deleteApiToken tid = mk_call DELETE (''/api-tokens/'' @ tid) (None) Whole"

definition fetchWorkers :: "call" where
  "fetchWorkers = mk_call GET (''/workers'') (None) Data"

definition fetchWorkersHealth :: "call" where
  "fetchWorkersHealth = mk_call GET (''/workers/health'') (None) Whole"

definition deleteWorker :: "string \<Rightarrow> call" where
  "deleteWorker nm = mk_call DELETE (''/workers/'' @ nm) (None) Whole"

definition generateTeamWorkerToken :: "string \<Rightarrow> call" where
  "generateTeamWorkerToken tc = mk_call POST (''/teams/'' @ tc @ ''/worker-token'') (None) Token"

definition getTeamWorkerToken :: "string \<Rightarrow> call" where
  "getTeamWorkerToken tc = mk_call GET (''/teams/'' @ tc @ ''/worker-token'') (None) Token"

definition regenerateWebhookToken :: "string \<Rightarrow> string \<Rightarrow> string \<Rightarrow> call" where
  "regenerateWebhookToken tc pn rCan = mk_call POST (''/teams/'' @ tc @ ''/pipelines/'' @ pn @ ''/resources/'' @ rCan @ ''/webhook_token'') (None) Whole"

definition postOAuthCompleteProfile :: "json \<Rightarrow> call" where
  "postOAuthCompleteProfile data = mk_call POST (''/auth/oauth/complete-profile'') (Some data) Whole"

definition fetchOAuthProviders :: "call" where
  "fetchOAuthProviders = mk_call GET (''/admin/oauth-providers'') (None) Data"

definition createOAuthProvider :: "json \<Rightarrow> call" where
  "createOAuthProvider data = mk_call POST (''/admin/oauth-providers'') (Some data) Whole"

definition updateOAuthProvider :: "string \<Rightarrow> json \<Rightarrow> call" where
  "updateOAuthProvider canonical data = mk_call PUT (''/admin/oauth-providers/'' @ canonical) (Some data) Whole"

definition deleteOAuthProvider :: "string \<Rightarrow> call" where
  "deleteOAuthProvider canonical = mk_call DELETE (''/admin/oauth-providers/'' @ canonical) (None) Whole"

definition fetchAdminAuthSettings :: "call" where
  "fetchAdminAuthSettings = mk_call GET (''/admin/auth-settings'') (None) Data"

definition updateAdminAuthSettings :: "json \<Rightarrow> call" where
  "updateAdminAuthSettings data = mk_call PUT (''/admin/auth-settings'') (Some data) Whole"

definition fetchLinkedAccounts :: "call" where
  "fetchLinkedAccounts = mk_call GET (''/profile/linked-accounts'') (None) Data"

definition unlinkAccount :: "string \<Rightarrow> call" where
  "unlinkAccount canonical = mk_call DELETE (''/profile/linked-accounts/'' @ canonical) (None) Whole"

definition saveLocalConfig :: "json \<Rightarrow> call" where
  "saveLocalConfig data = mk_call POST (''/local/save'') (Some data) Whole"


section \<open>Endpoints with their own logic\<close>

text \<open>One page of summaries: \<open>limit\<close>, \<open>offset\<close> and \<open>sort\<close> always, \<open>q\<close> only when it is not empty.\<close>

definition fetchPipelinesPage :: "string \<Rightarrow> nat \<Rightarrow> nat \<Rightarrow> string \<Rightarrow> string \<Rightarrow> call" where
  "fetchPipelinesPage tc lim off q so =
     (let ps = [(''limit'', nat_str lim), (''offset'', nat_str off), (''sort'', so)];
          ps' = (if q \<noteq> '''' then obj_set ps ''q'' q else ps)
      in mk_call GET (''/teams/'' @ tc @ ''/pipelines?'' @ usp_string ps') None Whole)"

text \<open>\<open>inputValues && Object.keys(inputValues).length > 0\<close> decides whether there is a body.\<close>

definition triggerJob :: "string \<Rightarrow> string \<Rightarrow> string \<Rightarrow> string jsobj option \<Rightarrow> call" where
  "triggerJob tc pn jn inputValues =
     mk_call POST (''/teams/'' @ tc @ ''/pipelines/'' @ pn @ ''/jobs/'' @ jn @ ''/trigger'')
       (case inputValues of
          None \<Rightarrow> None
        | Some vs \<Rightarrow> if length vs > 0
            then Some (JObj [(''input_values'', JObj (map (\<lambda>(k, v). (k, JStr v)) vs))]) else None)
       Whole"

text \<open>A parameter value is one item or an array, whose items become repeated keys.\<close>

datatype pvalue = One string | Many "string list"

definition append_param :: "params \<Rightarrow> string \<times> pvalue \<Rightarrow> params" where
  "append_param sp kv =
     (case snd kv of One v \<Rightarrow> sp @ [(fst kv, v)] | Many vs \<Rightarrow> sp @ map (\<lambda>v. (fst kv, v)) vs)"

definition fetchBuilds :: "string \<Rightarrow> string \<Rightarrow> string \<Rightarrow> pvalue jsobj option \<Rightarrow> call" where
  "fetchBuilds tc pn jn ps =
     mk_call GET (''/teams/'' @ tc @ ''/pipelines/'' @ pn @ ''/jobs/'' @ jn @ ''/builds'' @
       (case ps of None \<Rightarrow> '''' | Some kvs \<Rightarrow> ''?'' @ usp_string (foldl append_param [] kvs)))
       None Whole"

text \<open>The caller's options are passed through (\<open>{ silent: true }\<close> or nothing).\<close>

definition fetchVersionPath :: "string \<Rightarrow> string \<Rightarrow> string \<Rightarrow> string \<Rightarrow> opts option \<Rightarrow> call" where
  "fetchVersionPath tc pn rCan vid ops =
     \<lparr>curl = ''/teams/'' @ tc @ ''/pipelines/'' @ pn @ ''/resources/'' @ rCan @ ''/versions/'' @ vid @ ''/path'',
      copts = (case ops of None \<Rightarrow> default_opts | Some o' \<Rightarrow> o'), cresult = Whole\<rparr>"

definition fetchAuditLog :: "string \<Rightarrow> params option \<Rightarrow> call" where
  "fetchAuditLog tc ps =
     (let qs = (case ps of None \<Rightarrow> '''' | Some kvs \<Rightarrow> usp_string kvs)
      in mk_call GET (''/teams/'' @ tc @ ''/audit'' @ (if qs \<noteq> '''' then ''?'' @ qs else '''')) None Whole)"

text \<open>Any failure to learn the authentication methods falls back to local login.\<close>

record 'p auth_methods =
  local_auth_enabled :: bool
  providers :: "'p list"

definition fetchAuthMethods :: call where
  "fetchAuthMethods = \<lparr>curl = ''/auth/methods'', copts = default_opts\<lparr>silent := True\<rparr>, cresult = Data\<rparr>"

definition fetchAuthMethods_settle :: "'p auth_methods result \<Rightarrow> 'p auth_methods option" where
  "fetchAuthMethods_settle r =
     (case r of Returned p \<Rightarrow> pdata p | _ \<Rightarrow> Some \<lparr>local_auth_enabled = True, providers = []\<rparr>)"

section \<open>Lemmas\<close>

lemma curl_mk_call [simp]: "curl (mk_call m u b w) = u"
  and method_mk_call [simp]: "verb (copts (mk_call m u b w)) = m"
  and body_mk_call [simp]: "body (copts (mk_call m u b w)) = b"
  by (simp_all add: mk_call_def)

lemma encodeURIComponent_one_segment:
  "c \<in> set (encodeURIComponent s) \<Longrightarrow> c \<notin> {CHR ''/'', CHR ''?'', CHR ''#''}"
  using set_encodeURIComponent [of c s] by (auto simp: uri_plain_def is_alnum_def)

lemma split_after_slash:
  assumes "CHR ''/'' \<notin> set p" "CHR ''/'' \<notin> set q" "a @ CHR ''/'' # p = b @ CHR ''/'' # q"
  shows "a = b \<and> p = q"
proof -
  have "rev p @ CHR ''/'' # rev a = rev q @ CHR ''/'' # rev b"
    using arg_cong [OF assms(3), of rev] by simp
  moreover have "takeWhile (\<lambda>c. c \<noteq> CHR ''/'') (rev r @ CHR ''/'' # t) = rev r"
    if "CHR ''/'' \<notin> set r" for r t :: string
    using that by (subst takeWhile_append2) auto
  ultimately have "rev p = rev q" using assms(1,2) by metis
  with assms(3) show ?thesis by simp
qed

text \<open>The query a call carries, as the server reads it.\<close>

definition call_query :: "call \<Rightarrow> params" where
  "call_query c = usp_parse (dropWhile (\<lambda>x. x \<noteq> CHR ''?'') (curl c))"

lemma call_query_mk [simp]:
  "CHR ''?'' \<notin> set u \<Longrightarrow> call_query (mk_call m (u @ CHR ''?'' # usp_string ps) b w) = ps"
  by (simp add: call_query_def dropWhile_append)

section \<open>Properties\<close>

text \<open>
  C39. Deleting a secret addresses exactly that secret: the URL is the secrets path followed by one
  path segment that contains no separator and decodes to the name, so two different names of the
  same scope never address the same URL.
\<close>

theorem deleteSecret_one_segment:
  "\<exists>seg. curl (deleteSecret tc pno nm) = secretsPath tc pno @ ''/'' @ seg
     \<and> set seg \<inter> {CHR ''/'', CHR ''?'', CHR ''#''} = {} \<and> pct_decode False seg = nm
     \<and> inj (\<lambda>nm'. curl (deleteSecret tc pno nm'))"
proof (intro exI conjI)
  show "curl (deleteSecret tc pno nm) = secretsPath tc pno @ ''/'' @ encodeURIComponent nm"
    by (simp add: deleteSecret_def)
  show "set (encodeURIComponent nm) \<inter> {CHR ''/'', CHR ''?'', CHR ''#''} = {}"
    using encodeURIComponent_one_segment by blast
  show "pct_decode False (encodeURIComponent nm) = nm" by (rule component.dec_enc)
  show "inj (\<lambda>nm'. curl (deleteSecret tc pno nm'))"
    by (auto simp: deleteSecret_def inj_def dest: component.enc_inj)
qed

lemma foldl_append_param:
  "foldl append_param acc kvs =
     acc @ concat (map (\<lambda>(k, v). case v of One x \<Rightarrow> [(k, x)] | Many xs \<Rightarrow> map (Pair k) xs) kvs)"
  by (induction kvs arbitrary: acc) (auto simp: append_param_def split: pvalue.splits)

text \<open>
  The query of a build listing reaches the server as given: parsing the URL the call requests
  gives back every parameter in order, an array as one pair per item, whatever characters the
  values contain (the three path names contain no question mark).
\<close>

theorem fetchBuilds_query:
  assumes "CHR ''?'' \<notin> set tc" and "CHR ''?'' \<notin> set pn" and "CHR ''?'' \<notin> set jn"
  shows "call_query (fetchBuilds tc pn jn (Some kvs)) =
    concat (map (\<lambda>(k, v). case v of One x \<Rightarrow> [(k, x)] | Many xs \<Rightarrow> map (Pair k) xs) kvs)"
proof -
  let ?u = "''/teams/'' @ tc @ ''/pipelines/'' @ pn @ ''/jobs/'' @ jn @ ''/builds''"
  have "fetchBuilds tc pn jn (Some kvs) =
      mk_call GET (?u @ CHR ''?'' # usp_string (foldl append_param [] kvs)) None Whole"
    by (simp add: fetchBuilds_def)
  also have "call_query \<dots> = foldl append_param [] kvs"
    by (rule call_query_mk) (use assms in simp)
  also have "\<dots> = concat (map (\<lambda>(k, v). case v of One x \<Rightarrow> [(k, x)] | Many xs \<Rightarrow> map (Pair k) xs) kvs)"
    by (simp add: foldl_append_param)
  finally show ?thesis .
qed

theorem fetchBuilds_query_witness:
  "call_query (fetchBuilds ''main'' ''p'' ''build'' (Some [(''status'', Many [''pending'', ''a&b=c''])])) =
     [(''status'', ''pending''), (''status'', ''a&b=c'')]"
  using fetchBuilds_query [of "''main''" "''p''" "''build''" "[(''status'', Many [''pending'', ''a&b=c''])]"]
  by simp

end
