(* ===== verification/BuildViews.thy ===== *)
theory BuildViews
  imports Html UtilFns Endpoints PipelineChain
begin

text \<open>
  The build page of \<open>Jobs.js\<close>, as far as one build is concerned: badges and icons, the display form
  of a build (\<open>prepareBuild\<close>), step rows and step groups, the approval gate, the control bar, and the
  timers and toggles of \<open>BuildContent\<close>. Each component is a function from its props and state to
  \<open>html\<close>; \<open>job_action\<close> names the handlers.
\<close>

section \<open>Badges and icons\<close>

definition stepIcon :: "string jsobj" where
  "stepIcon = [(''get'', ''bi-cloud-download''), (''task'', ''bi-terminal''), (''put'', ''bi-cloud-upload''),
     (''notify'', ''bi-bell''), (''service'', ''bi-hdd-stack''), (''runner'', ''bi-gear''),
     (''job'', ''bi-braces''), (''input'', ''bi-sliders2''), (''if'', ''bi-signpost-split'')]"

text \<open>\<open>stepIcon[type] || 'bi-terminal'\<close>, for a type that is not an inherited key.\<close>

definition getStepIcon :: "string \<Rightarrow> string" where
  "getStepIcon ty = (case map_of stepIcon ty of Some i \<Rightarrow> i | None \<Rightarrow> ''bi-terminal'')"

definition badge :: "string \<Rightarrow> string \<Rightarrow> 'a html list" where
  "badge cls txt = [El ''span'' [(''class'', ''piko-badge piko-badge-'' @ cls)] [] [Txt txt]]"

definition statusBadge :: "string \<Rightarrow> bool \<Rightarrow> 'a html list" where
  "statusBadge st hasLogs =
     (if st = ''failed'' then badge ''failed'' ''fail''
      else if st = ''started'' then badge ''started'' ''running''
      else if st = ''pending'' then badge ''pending'' ''pending''
      else if st = ''cancelled'' then badge ''cancelled'' ''cancel''
      else if st = ''warning'' then badge ''warning'' ''warn''
      else if st = ''skipped'' then badge ''skipped'' ''skip''
      else if st = ''succeeded'' \<or> hasLogs then badge ''succeeded'' ''ok''
      else [])"

definition buildStatusBadge :: "string \<Rightarrow> 'a html list" where
  "buildStatusBadge st =
     (if st = ''succeeded'' then badge ''succeeded'' ''Succeeded''
      else if st = ''failed'' then badge ''failed'' ''Failed''
      else if st = ''started'' then badge ''started'' ''Running''
      else if st = ''cancelled'' then badge ''cancelled'' ''Cancelled''
      else if st = ''pending'' then badge ''pending'' ''Pending''
      else if st = ''waiting_for_approval'' then badge ''waiting_for_approval'' ''Waiting for Approval''
      else if st = ''warning'' then badge ''warning'' ''Warning''
      else if st = ''skipped'' then badge ''skipped'' ''Skipped''
      else [])"

section \<open>Display form of a build\<close>

datatype pstep = PStep (ps_type: string) (ps_name: string) (ps_status: string) (ps_duration: string)
  (ps_logs: string) (ps_sub: "pstep list option")

fun prepareStep :: "step \<Rightarrow> pstep" where
  "prepareStep (Step ty nm st d lg sa sub) =
     PStep ty nm st (durationToString d) lg (map_option (map prepareStep) sub)"

text \<open>
  The prepared build keeps every field of the build; the duration is text, \<open>None\<close> for the number 0.
  For the entries of \<open>job\<close> only the duration changes, and only their flat fields are shown.
\<close>

record pbuild =
  raw :: build
  p_duration :: "string option"
  p_steps :: "pstep list"
  p_jobs :: "pstep list"

definition prepareBuild :: "build \<Rightarrow> pbuild" where
  "prepareBuild b =
     \<lparr>raw = b,
      p_duration = (if bduration b \<noteq> 0 then Some (durationToString (bduration b)) else None),
      p_steps = map prepareStep (case bsteps b of None \<Rightarrow> [] | Some ss \<Rightarrow> ss),
      p_jobs = map (\<lambda>j. PStep (st_type j) (st_name j) (st_status j) (durationToString (st_duration j)) (st_logs j) None)
        (case bjob b of None \<Rightarrow> [] | Some js \<Rightarrow> js)\<rparr>"

text \<open>The list entry wins over the fetched detail, except for the fields only the detail has.\<close>

definition mergedBuild :: "build \<Rightarrow> build option \<Rightarrow> build" where
  "mergedBuild rawBuild fullBuild =
     (case fullBuild of
        None \<Rightarrow> rawBuild
      | Some full \<Rightarrow>
          if bid rawBuild = bid full
          then rawBuild\<lparr>approvals := approvals full, version_metadata := version_metadata full,
                        pinned_versions := pinned_versions full\<rparr>
          else full)"

section \<open>Actions\<close>

datatype job_action =
    ToggleStep string | ToggleGroup nat | CopyLogs | GotoBottom | LogScroll
  | ToggleResource string | ApproveBuild | ApproveMsg | RejectBuild | RejectMsg
  | ToggleFollow | CancelBuild | RetryBuild | MarkWarning | ExportReport
  | TabClick nat | TriggerJob | PauseJob | UnpauseJob | BackToPipeline
  | InputSubmit | InputClose | InputChange string | MultiSelectChange string string

section \<open>Step rows\<close>

type_synonym expansion = "bool jsobj" \<comment> \<open>\<open>expandedSteps\<close>\<close>

definition is_expanded :: "expansion \<Rightarrow> string \<Rightarrow> bool" where
  "is_expanded e k \<longleftrightarrow> map_of e k = Some True"

definition toggleStep :: "expansion \<Rightarrow> string \<Rightarrow> expansion" where
  "toggleStep prev k = obj_set prev k (\<not> is_expanded prev k)"

definition display_of :: "bool \<Rightarrow> string \<times> string" where
  "display_of b = (''style'', if b then ''display:block'' else ''display:none'')"

definition StepRow :: "pstep \<Rightarrow> expansion \<Rightarrow> string \<Rightarrow> string jsobj \<Rightarrow> job_action html" where
  "StepRow st e key stepElapsed =
     El ''div'' [(''class'', ''piko-step-row''), (''data-status'', ps_status st)] []
       [El ''div'' [(''class'', ''piko-step-row-header'')] [(''onClick'', ToggleStep key)]
          ([Txt (if ps_type st \<noteq> '''' then ps_type st else ''step''), Txt (ps_name st),
            Txt (''('' @ (case map_of stepElapsed (ps_name st) of
                             Some t \<Rightarrow> if t \<noteq> '''' then t else ps_duration st
                           | None \<Rightarrow> ps_duration st) @ '')'')]
           @ show_if (ps_logs st \<noteq> '''') [button ''Copy logs'' CopyLogs False '''']
           @ statusBadge (ps_status st) (ps_logs st \<noteq> '''')),
        El ''div'' [(''class'', ''piko-step-row-body''), display_of (is_expanded e key)] []
          [button ''Go to bottom'' GotoBottom False '''',
           El ''pre'' [] [(''onScroll'', LogScroll)]
             [Txt (case processLogs (Some (ps_logs st)) of Some l \<Rightarrow> l | None \<Rightarrow> '''')]]]"

definition InputStep :: "string jsobj \<Rightarrow> expansion \<Rightarrow> job_action html" where
  "InputStep inputValues e =
     El ''div'' [(''class'', ''piko-step-row''), (''data-status'', ''succeeded'')] []
       [El ''div'' [(''class'', ''piko-step-row-header'')] [(''onClick'', ToggleStep ''inputs'')]
          ([Txt ''input'', Txt ''parameters'',
            Txt (''('' @ nat_str (length inputValues) @ '' '' @
                 (if length inputValues = 1 then ''value'' else ''values'') @ '')'')]
           @ statusBadge ''succeeded'' True),
        El ''div'' [(''class'', ''piko-step-row-body''), display_of (is_expanded e ''inputs'')] []
          [El ''pre'' [] []
             (map (\<lambda>(k, v). Txt (k @ ''='' @ (if v \<noteq> '''' then v else [CHR 34, CHR 34]) @ [LF])) inputValues)]]"

definition subs :: "pstep \<Rightarrow> pstep list" where
  "subs st = (case ps_sub st of None \<Rightarrow> [] | Some ss \<Rightarrow> ss)"

text \<open>\<open>closed\<close> are the groups whose \<open>groupExpanded\<close> is false.\<close>

definition ParallelGroup :: "pstep \<Rightarrow> expansion \<Rightarrow> nat \<Rightarrow> nat list \<Rightarrow> string jsobj \<Rightarrow> job_action html" where
  "ParallelGroup st e i closed stepElapsed =
     El ''div'' [(''class'', ''piko-step-row piko-parallel-group''), (''data-status'', ps_status st)] []
       [El ''div'' [(''class'', ''piko-step-row-header'')] [(''onClick'', ToggleGroup i)]
          ([Txt ''in_parallel'',
            Txt (''('' @ nat_str (length (subs st)) @ '' steps, '' @ ps_duration st @ '')'')]
           @ statusBadge (ps_status st) False),
        El ''div'' [(''class'', ''piko-step-row-body''), display_of (i \<notin> set closed)] []
          (map (\<lambda>(ci, child). StepRow child e (nat_str i @ ''_'' @ nat_str ci) stepElapsed) (enumerate 0 (subs st)))]"

text \<open>One branch of a conditional: its header (dead when skipped) and the steps of a branch entered.\<close>

definition branchKey :: "nat \<Rightarrow> nat \<Rightarrow> string" where
  "branchKey i bi = nat_str i @ ''_if_'' @ nat_str bi"

definition branch_view :: "expansion \<Rightarrow> nat \<Rightarrow> string jsobj \<Rightarrow> nat \<times> pstep \<Rightarrow> job_action html" where
  "branch_view e i stepElapsed = (\<lambda>(bi, branch).
     let isSkipped = (ps_status branch = ''skipped'') in
     El ''div'' [(''class'', ''piko-step-row '' @ (if isSkipped then ''piko-step-skipped'' else '''')),
                 (''data-status'', ps_status branch)] []
       ([El ''div'' [(''class'', ''piko-step-row-header'')]
           (if isSkipped then [] else [(''onClick'', ToggleStep (branchKey i bi))])
           ([Txt (ps_type branch), Txt (ps_name branch)]
            @ show_if (ps_duration branch \<noteq> '''') [Txt (''('' @ ps_duration branch @ '')'')]
            @ statusBadge (ps_status branch) False)]
        @ show_if (\<not> isSkipped \<and> length (subs branch) > 0)
            [El ''div'' [(''class'', ''piko-step-row-body''), (''style'', ''display:block'')] []
               (map (\<lambda>(ci, child). StepRow child e (branchKey i bi @ ''_'' @ nat_str ci) stepElapsed)
                  (enumerate 0 (subs branch)))]))"

definition ConditionalGroup :: "pstep \<Rightarrow> expansion \<Rightarrow> nat \<Rightarrow> nat list \<Rightarrow> string jsobj \<Rightarrow> job_action html" where
  "ConditionalGroup st e i closed stepElapsed =
     (let entered = List.find (\<lambda>b. ps_status b \<noteq> ''skipped'') (subs st) in
      El ''div'' [(''class'', ''piko-step-row piko-conditional-group''), (''data-status'', ps_status st)] []
       [El ''div'' [(''class'', ''piko-step-row-header'')] [(''onClick'', ToggleGroup i)]
          ([Txt ''if'', Txt (ps_name st),
            Txt (''('' @ (case entered of
                 Some b \<Rightarrow> ''entered '' @ (if ps_name b \<noteq> '''' then ps_name b else ps_type b)
               | None \<Rightarrow> ''skipped all'') @ '', '' @ ps_duration st @ '')'')]
           @ statusBadge (ps_status st) False),
        El ''div'' [(''class'', ''piko-step-row-body''), display_of (i \<notin> set closed)] []
          (map (branch_view e i stepElapsed) (enumerate 0 (subs st)))])"

text \<open>The list of steps of a build, then the entries of \<open>job\<close>.\<close>

definition step_view :: "expansion \<Rightarrow> nat list \<Rightarrow> string jsobj \<Rightarrow> nat \<times> pstep \<Rightarrow> job_action html" where
  "step_view e closed stepElapsed = (\<lambda>(i, s).
     if ps_type s = ''in_parallel'' then ParallelGroup s e i closed stepElapsed
     else if ps_type s = ''if'' then ConditionalGroup s e i closed stepElapsed
     else StepRow s e (''s_'' @ nat_str i) stepElapsed)"

definition job_step_view :: "expansion \<Rightarrow> string jsobj \<Rightarrow> nat \<times> pstep \<Rightarrow> job_action html" where
  "job_step_view e stepElapsed = (\<lambda>(ji, j).
     StepRow (PStep ''job'' (ps_name j) (ps_status j) (ps_duration j) (ps_logs j) (ps_sub j)) e (''j_'' @ nat_str ji) stepElapsed)"

definition steps_view :: "pbuild \<Rightarrow> expansion \<Rightarrow> nat list \<Rightarrow> string jsobj \<Rightarrow> job_action html list" where
  "steps_view b e closed stepElapsed =
     map (step_view e closed stepElapsed) (enumerate 0 (p_steps b))
     @ map (job_step_view e stepElapsed) (enumerate 0 (p_jobs b))"

text \<open>The rows that are open when a build is first shown: steps that are running.\<close>

definition init_step :: "expansion \<Rightarrow> nat \<times> pstep \<Rightarrow> expansion" where
  "init_step ex = (\<lambda>(i, s).
     if ps_type s = ''in_parallel''
     then foldl (\<lambda>ex (ci, c). if ps_status c = ''started'' then obj_set ex (nat_str i @ ''_'' @ nat_str ci) True else ex)
            ex (enumerate 0 (subs s))
     else if ps_status s = ''started'' then obj_set ex (''s_'' @ nat_str i) True else ex)"

definition init_expanded :: "pbuild \<Rightarrow> expansion" where
  "init_expanded b =
     foldl (\<lambda>ex (ji, j). if ps_status j = ''started'' then obj_set ex (''j_'' @ nat_str ji) True else ex)
       (foldl init_step [] (enumerate 0 (p_steps b))) (enumerate 0 (p_jobs b))"

section \<open>The job a build belongs to\<close>

record job_input =
  inp_name :: string
  inp_type :: string
  inp_default :: "string option"
  inp_description :: string
  inp_options :: "string list option"
  inp_multiple :: bool

record job_data =
  jd_name :: string
  jd_paused :: bool
  jd_plan :: "plan_step list option"
  approve_count :: nat
  disable_retry :: bool
  jd_inputs :: "job_input list option"

text \<open>The value an input starts with.\<close>

definition input_default :: "job_input \<Rightarrow> string" where
  "input_default inp =
     (case inp_default inp of
        Some d \<Rightarrow> d
      | None \<Rightarrow> if inp_type inp = ''bool'' then ''false'' else if inp_type inp = ''number'' then ''0'' else '''')"

definition inputs_of :: "job_data option \<Rightarrow> job_input list" where
  "inputs_of jd = (case jd of None \<Rightarrow> [] | Some j \<Rightarrow> (case jd_inputs j of None \<Rightarrow> [] | Some is \<Rightarrow> is))"

section \<open>Approval gate\<close>

record resource_row =
  rr_expanded :: bool
  fetchedData :: "json jsobj option"
  rr_loading :: bool

definition versionData :: "json jsobj option \<Rightarrow> resource_row \<Rightarrow> json jsobj option" where
  "versionData versionMeta s = (case versionMeta of Some v \<Rightarrow> Some v | None \<Rightarrow> fetchedData s)"

text \<open>A click: the row opens or closes; opening it without data sends one request.\<close>

definition resource_toggle :: "string \<Rightarrow> string \<Rightarrow> string \<Rightarrow> json jsobj option \<Rightarrow> resource_row \<Rightarrow> resource_row \<times> call list" where
  "resource_toggle tc pn rCan versionMeta s =
     (let fetches = (\<not> rr_expanded s \<and> versionData versionMeta s = None \<and> \<not> rr_loading s);
          s' = (if fetches then s\<lparr>rr_loading := True\<rparr> else s)
      in (s'\<lparr>rr_expanded := \<not> rr_expanded s\<rparr>,
          if fetches then [fetchResourceVersions tc pn rCan (Some [(''limit'', ''1'')])] else []))"

text \<open>The answer: the versions listed (each with its \<open>version\<close> field), or a failure.\<close>

definition resource_settled :: "json jsobj option list option \<Rightarrow> resource_row \<Rightarrow> resource_row" where
  "resource_settled resp s =
     (let s' = (case resp of Some (Some v # _) \<Rightarrow> s\<lparr>fetchedData := Some v\<rparr> | _ \<Rightarrow> s)
      in s'\<lparr>rr_loading := False\<rparr>)"

definition ApprovalResourceRow :: "string \<Rightarrow> string list option \<Rightarrow> json jsobj option \<Rightarrow> resource_row \<Rightarrow> job_action html" where
  "ApprovalResourceRow rCan passed versionMeta s =
     El ''div'' [] []
       ([El ''div'' [] [(''onClick'', ToggleResource rCan)]
          ([Txt rCan]
           @ (case passed of
                Some ps \<Rightarrow> show_if (ps \<noteq> []) [Txt (''passed: '' @ join_with '', '' ps)]
              | None \<Rightarrow> []))]
        @ show_if (rr_expanded s)
            [El ''div'' [] []
               (show_if (rr_loading s) [Txt ''Loading...'']
                @ show_if (versionMeta = None \<and> fetchedData s \<noteq> None)
                    [Txt ''Version not pinned - showing latest:'']
                @ (case versionData versionMeta s of
                     Some v \<Rightarrow> [El ''table'' [] [] (map (\<lambda>(k, x). El ''tr'' [] [] [Txt k, Txt (js_string x)]) v)]
                   | None \<Rightarrow> show_if (\<not> rr_loading s) [Txt ''Version resolved at build time.'']))])"

text \<open>The rows of the gate and the version each shows: the pinned one, or the triggering one.\<close>

definition gate_resources :: "build \<Rightarrow> job_data option \<Rightarrow> (string \<times> string list option \<times> json jsobj option) list" where
  "gate_resources b jd =
     (case Option.bind jd jd_plan of
        Some plan \<Rightarrow>
          map (\<lambda>g.
             let rCan = g_type g @ ''.'' @ g_name g;
                 pinnedMeta = (case pinned_versions b of None \<Rightarrow> None | Some m \<Rightarrow> map_of m rCan);
                 isTrigger = (Some rCan = resource_canonical b)
             in (rCan, g_passed g,
                 case pinnedMeta of Some m \<Rightarrow> Some m | None \<Rightarrow> if isTrigger then version_metadata b else None))
            (List.map_filter get_of plan)
      | None \<Rightarrow>
          (case resource_canonical b of
             Some rc \<Rightarrow> if rc \<noteq> '''' then [(rc, None, version_metadata b)] else []
           | None \<Rightarrow> []))"

record gate_state =
  approveMsg :: string
  rejectMsg :: string
  approveLoading :: bool
  rejectLoading :: bool
  resource_rows :: "string \<Rightarrow> resource_row"

definition votes :: "build \<Rightarrow> approval list" where
  "votes b = (case approvals b of None \<Rightarrow> [] | Some as \<Rightarrow> as)"

definition is_rejected :: "build \<Rightarrow> bool" where
  "is_rejected b = list_ex (\<lambda>a. ap_action a = ''rejected'') (votes b)"

text \<open>\<open>a.username === (session.value.user && session.value.user.username)\<close>.\<close>

definition has_voted :: "session \<Rightarrow> build \<Rightarrow> bool" where
  "has_voted s b = list_ex (\<lambda>a. Some (ap_username a) = map_option username (user s)) (votes b)"

definition vote_forms :: "gate_state \<Rightarrow> job_action html" where
  "vote_forms g =
     El ''div'' [] []
       [El ''form'' [] [(''onSubmit'', ApproveBuild)]
          [El ''input'' [(''value'', approveMsg g)] [(''onInput'', ApproveMsg)] [],
           El ''button'' ([(''type'', ''submit''), (''title'', ''Approve build'')] @ disabled_if (approveLoading g)) []
             [Txt (if approveLoading g then ''Approving...'' else ''Approve'')]],
        El ''form'' [] [(''onSubmit'', RejectBuild)]
          [El ''input'' [(''value'', rejectMsg g)] [(''onInput'', RejectMsg)] [],
           El ''button'' ([(''type'', ''submit''), (''title'', ''Reject build'')]
               @ disabled_if (rejectLoading g \<or> rejectMsg g = '''')) []
             [Txt (if rejectLoading g then ''Rejecting...'' else ''Reject'')]]]"

definition approval_gate :: "session \<Rightarrow> string \<Rightarrow> build \<Rightarrow> job_data option \<Rightarrow> gate_state \<Rightarrow> job_action html list" where
  "approval_gate s tc b jd g =
     (let isWaitingApproval = (bstatus b = ''waiting_for_approval'');
          isMaintainer = hasTeamRole s tc ''maintain'' in
      show_if (votes b \<noteq> [] \<or> isWaitingApproval)
        [El ''div'' [(''data-status'', if isWaitingApproval then ''started'' else if is_rejected b then ''failed'' else ''succeeded'')] []
           [El ''div'' [] []
              ([Txt ''Approval Gate'']
               @ (case jd of
                    Some j \<Rightarrow> show_if (isWaitingApproval \<and> approve_count j \<noteq> 0)
                      [Txt (nat_str (length (filter (\<lambda>a. ap_action a = ''approved'') (votes b))) @ ''/'' @ nat_str (approve_count j) @ '' approvals'')]
                  | None \<Rightarrow> [])
               @ buildStatusBadge (if isWaitingApproval then ''waiting_for_approval'' else if is_rejected b then ''failed'' else ''succeeded'')),
            El ''div'' [] []
              (map (\<lambda>(rCan, passed, vm). ApprovalResourceRow rCan passed vm (resource_rows g rCan)) (gate_resources b jd)
               @ (if votes b \<noteq> []
                  then map (\<lambda>a. El ''div'' [] []
                         ([El ''span'' [(''class'', if ap_action a = ''approved'' then ''bg-success'' else ''bg-danger'')] [] [Txt (ap_action a)],
                           Txt (ap_username a)] @ show_if (ap_message a \<noteq> '''') [Txt (ap_message a)])) (votes b)
                  else [Txt ''No votes yet.''])
               @ show_if (isWaitingApproval \<and> isMaintainer \<and> \<not> has_voted s b) [vote_forms g])]])"

section \<open>Control bar\<close>

record bar_state =
  autoFollow :: bool
  cancelLoading :: bool
  retryLoading :: bool
  warningLoading :: bool
  exportLoading :: bool

definition build_controls :: "session \<Rightarrow> string \<Rightarrow> build \<Rightarrow> job_data option \<Rightarrow> bar_state \<Rightarrow> job_action html" where
  "build_controls s tc b jd u =
     (let isReader = hasTeamRole s tc ''read''; isOperator = hasTeamRole s tc ''write'';
          isMaintainer = hasTeamRole s tc ''maintain'';
          isRunningOrPending = (bstatus b = ''started'' \<or> bstatus b = ''pending'');
          isWaitingApproval = (bstatus b = ''waiting_for_approval'') in
      El ''span'' [] []
        (if isRunningOrPending
         then show_if (bstatus b = ''started'')
                [button ''Auto-scroll logs'' ToggleFollow False (if autoFollow u then ''Following'' else ''Follow'')]
              @ show_if isOperator
                [button ''Cancel build'' CancelBuild (cancelLoading u) (if cancelLoading u then ''Cancelling...'' else ''Cancel'')]
         else show_if (isOperator \<and> \<not> isWaitingApproval \<and> \<not> (case jd of None \<Rightarrow> False | Some j \<Rightarrow> disable_retry j))
                [button ''Retry build'' RetryBuild (retryLoading u) (if retryLoading u then ''Retrying...'' else ''Retry'')]
              @ show_if (isMaintainer \<and> bstatus b = ''failed'')
                [button ''Mark as warning'' MarkWarning (warningLoading u) (if warningLoading u then ''Marking...'' else ''Mark Warning'')]
              @ show_if isReader
                [button ''Export build report'' ExportReport (exportLoading u) (if exportLoading u then ''Exporting...'' else ''Export'')]))"

text \<open>\<open>elapsed\<close> and \<open>timeAgo\<close> are the texts of the timer; \<open>rawBuild\<close> is the entry of the list.\<close>

definition build_meta :: "session \<Rightarrow> string \<Rightarrow> build \<Rightarrow> pbuild \<Rightarrow> job_data option \<Rightarrow> bar_state \<Rightarrow> string \<Rightarrow> string \<Rightarrow> job_action html" where
  "build_meta s tc rawBuild b jd u elapsed timeAgo =
     El ''div'' [(''class'', ''piko-build-meta'')] []
       (show_if (bstatus (raw b) \<noteq> ''pending'' \<and> bstatus (raw b) \<noteq> ''waiting_for_approval'')
          ([Txt ''Started'', Txt timeAgo]
           @ (if bstatus (raw b) = ''started'' \<and> bduration rawBuild = 0 then [Txt ''Duration'', Txt elapsed]
              else (case p_duration b of Some d \<Rightarrow> [Txt ''Duration'', Txt d] | None \<Rightarrow> [])))
        @ buildStatusBadge (bstatus (raw b))
        @ [build_controls s tc (raw b) jd u])"

section \<open>The content of a build\<close>

record content_state =
  fullBuild :: "build option"
  expandedSteps :: expansion
  closedGroups :: "nat list"
  elapsed_text :: string
  timeAgo_text :: string
  stepElapsed :: "string jsobj"
  gate :: gate_state
  bar :: bar_state

definition input_step_view :: "build \<Rightarrow> job_data option \<Rightarrow> expansion \<Rightarrow> job_action html list" where
  "input_step_view b jd e =
     show_if (inputs_of jd \<noteq> [])
       [InputStep (case input_values b of
            Some v \<Rightarrow> v
          | None \<Rightarrow> foldl (\<lambda>ob inp. obj_set ob (inp_name inp) (input_default inp)) [] (inputs_of jd)) e]"

definition BuildContent :: "session \<Rightarrow> string \<Rightarrow> build \<Rightarrow> job_data option \<Rightarrow> content_state \<Rightarrow> job_action html" where
  "BuildContent s tc rawBuild jd c =
     (let b = prepareBuild (mergedBuild rawBuild (fullBuild c)) in
      El ''div'' [(''class'', ''piko-build-content-inner'')] []
        (show_if (berror (raw b) \<noteq> '''' \<and> \<not> is_rejected (raw b))
           [El ''div'' [(''role'', ''alert'')] [] [Txt (berror (raw b))]]
         @ approval_gate s tc (raw b) jd (gate c)
         @ [build_meta s tc rawBuild b jd (bar c) (elapsed_text c) (timeAgo_text c)]
         @ input_step_view (raw b) jd (expandedSteps c)
         @ steps_view b (expandedSteps c) (closedGroups c) (stepElapsed c)))"

section \<open>Timers\<close>

text \<open>\<open>a % b\<close> for \<open>b > 0\<close>: the sign of the result is the sign of \<open>a\<close>.\<close>

definition js_rem :: "int \<Rightarrow> int \<Rightarrow> int" where
  "js_rem a b = (if a < 0 then - ((- a) mod b) else a mod b)"

definition elapsed_label :: "int \<Rightarrow> string" where
  "elapsed_label secs =
     (let h = secs div 3600; m = js_rem secs 3600 div 60; s = js_rem secs 60
      in ''('' @ (if h > 0 then int_str h @ ''h '' else '''')
           @ (if m > 0 \<or> h > 0 then int_str m @ ''m '' else '''') @ int_str s @ ''s)'')"

text \<open>The build's own timer; \<open>None\<close> leaves the text as it was. An invalid date is NaN.\<close>

definition update_elapsed :: "(string \<Rightarrow> int option) \<Rightarrow> int \<Rightarrow> build \<Rightarrow> build \<Rightarrow> string option" where
  "update_elapsed parse_date now shown rawBuild =
     (if bstatus shown = ''started'' \<and> bduration rawBuild = 0 \<and> truthy_str (bstarted_at rawBuild)
      then (case parse_date (the (bstarted_at rawBuild)) of
              Some t \<Rightarrow> Some (elapsed_label ((now - t) div 1000))
            | None \<Rightarrow> Some ''(NaNs)'')
      else None)"

text \<open>
  The timers of the running steps. \<open>first_seen\<close> remembers, across updates, when a step was first
  seen running; an inherited key reads as a function there, whose difference is NaN, which prints
  as zero. A server time that is invalid or 0 counts as absent.
\<close>

type_synonym seen_times = "int jsobj"

definition server_time :: "(string \<Rightarrow> int option) \<Rightarrow> string option \<Rightarrow> int option" where
  "server_time parse_date sa =
     (if truthy_str sa then (case parse_date (the sa) of Some t \<Rightarrow> if t = 0 then None else Some t | None \<Rightarrow> None) else None)"

definition note_running :: "(string \<Rightarrow> int option) \<Rightarrow> int \<Rightarrow> string \<Rightarrow> string option \<Rightarrow> seen_times \<times> string jsobj \<Rightarrow> seen_times \<times> string jsobj" where
  "note_running parse_date now nm sa st =
     (let serverTs = server_time parse_date sa;
          known = (nm \<in> set proto_keys \<or> (case map_of (fst st) nm of None \<Rightarrow> False | Some t \<Rightarrow> t \<noteq> 0));
          seen = (if known then fst st else obj_set (fst st) nm (case serverTs of Some t \<Rightarrow> t | None \<Rightarrow> now));
          startMs = (case serverTs of Some t \<Rightarrow> Some t | None \<Rightarrow> map_of seen nm)
      in (seen, obj_set (snd st) nm
            (case startMs of None \<Rightarrow> ''00:00:00''
             | Some t \<Rightarrow> durationToString (((now - t) div 1000) * 1000000000))))"

fun computeStepElapsed :: "(string \<Rightarrow> int option) \<Rightarrow> int \<Rightarrow> step list \<Rightarrow> seen_times \<times> string jsobj \<Rightarrow> seen_times \<times> string jsobj"
where
  "computeStepElapsed pd now [] st = st"
| "computeStepElapsed pd now (Step ty nm sta d lg sa sub # ss) st =
     (let st1 = (if sta = ''started'' then note_running pd now nm sa st else st);
          st2 = (case sub of None \<Rightarrow> st1 | Some us \<Rightarrow> computeStepElapsed pd now us st1)
      in computeStepElapsed pd now ss st2)"

section \<open>Handlers\<close>

datatype effect = Request call | Toast string | RefreshFull | NotifyParent | Download string

text \<open>The URL parts of the page.\<close>

record page =
  tcan :: string
  pname :: string
  jname :: string

definition refreshFullBuild :: "page \<Rightarrow> build \<Rightarrow> effect list" where
  "refreshFullBuild pg b =
     (if build_number b \<noteq> '''' then [Request (fetchBuild (tcan pg) (pname pg) (jname pg) (build_number b))] else [])"

text \<open>The fetch on a build switch: only when the id differs from the one fetched last.\<close>

definition switch_fetch :: "page \<Rightarrow> build \<Rightarrow> nat option \<Rightarrow> nat option \<times> effect list" where
  "switch_fetch pg b fetchedId =
     (if bid b \<noteq> 0 \<and> Some (bid b) \<noteq> fetchedId then (Some (bid b), refreshFullBuild pg b) else (fetchedId, []))"

text \<open>
  The first half of a handler (up to its \<open>await\<close>) and the second half, when the request settled. A
  rejected request ends the handler after clearing the loading flag.
\<close>

definition content_click :: "page \<Rightarrow> build \<Rightarrow> content_state \<Rightarrow> job_action \<Rightarrow> content_state \<times> effect list" where
  "content_click pg b c act =
     (let tc = tcan pg; pn = pname pg; jn = jname pg; n = build_number b in
      case act of
        CancelBuild \<Rightarrow> (c\<lparr>bar := (bar c)\<lparr>cancelLoading := True\<rparr>\<rparr>, [Request (cancelBuild tc pn jn n)])
      | RetryBuild \<Rightarrow> (c\<lparr>bar := (bar c)\<lparr>retryLoading := True\<rparr>\<rparr>, [Request (retryBuild tc pn jn n)])
      | MarkWarning \<Rightarrow> (c\<lparr>bar := (bar c)\<lparr>warningLoading := True\<rparr>\<rparr>, [Request (markBuildAsWarning tc pn jn n)])
      | ExportReport \<Rightarrow> (c\<lparr>bar := (bar c)\<lparr>exportLoading := True\<rparr>\<rparr>, [Request (fetchBuildReport tc pn jn n)])
      | ApproveBuild \<Rightarrow> (c\<lparr>gate := (gate c)\<lparr>approveLoading := True\<rparr>\<rparr>, [Request (approveBuild tc pn jn n (approveMsg (gate c)))])
      | RejectBuild \<Rightarrow>
          if rejectMsg (gate c) = '''' then (c, [])
          else (c\<lparr>gate := (gate c)\<lparr>rejectLoading := True\<rparr>\<rparr>, [Request (rejectBuild tc pn jn n (rejectMsg (gate c)))])
      | ToggleFollow \<Rightarrow> (c\<lparr>bar := (bar c)\<lparr>autoFollow := \<not> autoFollow (bar c)\<rparr>\<rparr>, [])
      | ToggleStep k \<Rightarrow> (c\<lparr>expandedSteps := toggleStep (expandedSteps c) k\<rparr>, [])
      | ToggleGroup i \<Rightarrow> (c\<lparr>closedGroups := (if i \<in> set (closedGroups c) then filter (\<lambda>j. j \<noteq> i) (closedGroups c) else i # closedGroups c)\<rparr>, [])
      | _ \<Rightarrow> (c, []))"

definition content_settled :: "page \<Rightarrow> build \<Rightarrow> content_state \<Rightarrow> job_action \<Rightarrow> bool \<Rightarrow> content_state \<times> effect list" where
  "content_settled pg b c act ok =
     (case act of
        CancelBuild \<Rightarrow> (c\<lparr>bar := (bar c)\<lparr>cancelLoading := False\<rparr>\<rparr>, if ok then [Toast ''Build cancelled''] else [])
      | RetryBuild \<Rightarrow> (c\<lparr>bar := (bar c)\<lparr>retryLoading := False\<rparr>\<rparr>, if ok then [Toast ''Build retried'', NotifyParent] else [])
      | MarkWarning \<Rightarrow> (c\<lparr>bar := (bar c)\<lparr>warningLoading := False\<rparr>\<rparr>,
          if ok then Toast ''Build marked as warning'' # refreshFullBuild pg b @ [NotifyParent] else [])
      | ExportReport \<Rightarrow> (c\<lparr>bar := (bar c)\<lparr>exportLoading := False\<rparr>\<rparr>,
          if ok then [Download (''build-report-'' @ build_number b @ ''.json'')] else [])
      | ApproveBuild \<Rightarrow>
          (c\<lparr>gate := (gate c)\<lparr>approveLoading := False, approveMsg := (if ok then '''' else approveMsg (gate c))\<rparr>\<rparr>,
           if ok then Toast ''Build approved'' # refreshFullBuild pg b @ [NotifyParent] else [])
      | RejectBuild \<Rightarrow>
          (c\<lparr>gate := (gate c)\<lparr>rejectLoading := False, rejectMsg := (if ok then '''' else rejectMsg (gate c))\<rparr>\<rparr>,
           if ok then Toast ''Build rejected'' # refreshFullBuild pg b @ [NotifyParent] else [])
      | _ \<Rightarrow> (c, []))"

text \<open>
  Following the log: a scroll of the user turns it on exactly at the bottom (within 20 pixels), a
  scroll the page made itself is ignored; while it is on, an open row scrolls to its end after every
  render. \<open>log_height\<close> and so on are the measurements of the \<open>pre\<close> element.
\<close>

record log_pane =
  scrollTop :: int
  clientHeight :: int
  scrollHeight :: int

definition log_scroll :: "bool \<Rightarrow> log_pane \<Rightarrow> bar_state \<Rightarrow> bar_state" where
  "log_scroll isAutoScrolling el b =
     (if isAutoScrolling then b else b\<lparr>autoFollow := (scrollTop el + clientHeight el \<ge> scrollHeight el - 20)\<rparr>)"

definition onGotoBottom :: "log_pane \<Rightarrow> log_pane" where
  "onGotoBottom el = el\<lparr>scrollTop := scrollHeight el\<rparr>"

definition log_rendered :: "bool \<Rightarrow> bool \<Rightarrow> log_pane \<Rightarrow> log_pane" where
  "log_rendered follow is_open el = (if follow \<and> is_open then onGotoBottom el else el)"

section \<open>Row keys\<close>

text \<open>
  Every row that can be opened has a key built from its position. \<open>row_key\<close> is injective, because
  the pieces between the underscores determine the position.
\<close>

datatype row_id = RInputs | RStep nat | RJob nat | RPar nat nat | RBranch nat nat | RCond nat nat nat

fun pieces :: "row_id \<Rightarrow> string list" where
  "pieces RInputs = [''inputs'']"
| "pieces (RStep i) = [''s'', nat_str i]"
| "pieces (RJob i) = [''j'', nat_str i]"
| "pieces (RPar i ci) = [nat_str i, nat_str ci]"
| "pieces (RBranch i bi) = [nat_str i, ''if'', nat_str bi]"
| "pieces (RCond i bi ci) = [nat_str i, ''if'', nat_str bi, nat_str ci]"

definition row_key :: "row_id \<Rightarrow> string" where
  "row_key r = join_with ''_'' (pieces r)"

lemma row_key_simps:
  "row_key RInputs = ''inputs''" "row_key (RStep i) = ''s_'' @ nat_str i" "row_key (RJob i) = ''j_'' @ nat_str i"
  "row_key (RPar i ci) = nat_str i @ ''_'' @ nat_str ci" "row_key (RBranch i bi) = branchKey i bi"
  "row_key (RCond i bi ci) = branchKey i bi @ ''_'' @ nat_str ci"
  by (simp_all add: row_key_def branchKey_def)

lemma nat_str_not_word: "\<not> is_digit c \<Longrightarrow> nat_str n \<noteq> c # cs"
  using nat_str_digits [of c n] by auto

lemma split_row_key: "split_on CHR ''_'' (row_key r) = pieces r"
  unfolding row_key_def
  by (rule split_join; cases r) (auto simp: not_digit_notin_nat_str is_digit_def)

lemma pieces_inj: "pieces r = pieces q \<longleftrightarrow> r = q"
  using nat_str_not_word [of "CHR ''s''"] nat_str_not_word [of "CHR ''j''"] nat_str_not_word [of "CHR ''i''"]
  by (cases r; cases q) (auto simp: is_digit_def dest: sym)

lemma row_key_inj: "row_key r = row_key q \<longleftrightarrow> r = q"
  using split_row_key pieces_inj by metis

text \<open>The rows of a build, in the order they are drawn.\<close>

definition step_rows :: "nat \<times> pstep \<Rightarrow> row_id list" where
  "step_rows = (\<lambda>(i, s).
     if ps_type s = ''in_parallel'' then map (\<lambda>(ci, c). RPar i ci) (enumerate 0 (subs s))
     else if ps_type s = ''if''
     then concat (map (\<lambda>(bi, br). if ps_status br = ''skipped'' then []
            else RBranch i bi # map (\<lambda>(ci, c). RCond i bi ci) (enumerate 0 (subs br))) (enumerate 0 (subs s)))
     else [RStep i])"

definition build_rows :: "pbuild \<Rightarrow> row_id list" where
  "build_rows b = concat (map step_rows (enumerate 0 (p_steps b))) @ map (\<lambda>(ji, j). RJob ji) (enumerate 0 (p_jobs b))"

definition toggle_keys :: "job_action list \<Rightarrow> string list" where
  "toggle_keys as = List.map_filter (\<lambda>a. case a of ToggleStep k \<Rightarrow> Some k | _ \<Rightarrow> None) as"

lemma toggle_keys_simps [simp]:
  "toggle_keys [] = []"
  "toggle_keys (a # as) = (case a of ToggleStep k \<Rightarrow> [k] | _ \<Rightarrow> []) @ toggle_keys as"
  by (auto simp: toggle_keys_def map_filter_simps split: job_action.splits)

lemma toggle_keys_append [simp]: "toggle_keys (as @ bs) = toggle_keys as @ toggle_keys bs"
  by (induction as) auto

lemma toggle_keys_concat: "toggle_keys (concat xss) = concat (map toggle_keys xss)"
  by (induction xss) auto

lemma toggle_keys_map: "toggle_keys (live_all (map f xs)) = concat (map (\<lambda>x. toggle_keys (live (f x))) xs)"
  by (induction xs) auto

lemma live_badge [simp]: "live_all (badge c t) = []"
  by (simp add: badge_def)

lemma live_statusBadge [simp]: "live_all (statusBadge st l) = []"
  by (simp add: statusBadge_def)

lemma live_buildStatusBadge [simp]: "live_all (buildStatusBadge st) = []"
  by (simp add: buildStatusBadge_def)

lemma live_StepRow:
  "live (StepRow st e k se) = ToggleStep k # (if ps_logs st \<noteq> '''' then [CopyLogs] else []) @ [GotoBottom, LogScroll]"
  by (simp add: StepRow_def)

lemma live_InputStep: "live (InputStep v e) = [ToggleStep ''inputs'']"
proof -
  have "live_all (map (\<lambda>(k, v). Txt (f k v)) xs) = ([] :: job_action list)" for f :: "string \<Rightarrow> string \<Rightarrow> string" and xs
    by (induction xs) auto
  then show ?thesis by (simp add: InputStep_def)
qed

lemma keys_StepRow: "toggle_keys (live (StepRow st e k se)) = [k]"
  by (simp add: live_StepRow)

lemmas keys_view = toggle_keys_map keys_StepRow concat_map_singleton row_key_simps comp_def case_prod_beta

lemma keys_step_view:
  "toggle_keys (live (step_view e closed se x)) = map row_key (step_rows x)"
proof (cases x)
  case (Pair i s)
  have br: "toggle_keys (live (branch_view e i se y)) =
      map row_key (case y of (bi, br) \<Rightarrow> if ps_status br = ''skipped'' then []
            else RBranch i bi # map (\<lambda>(ci, c). RCond i bi ci) (enumerate 0 (subs br)))" for y
    by (cases y) (auto simp: branch_view_def Let_def keys_view)
  show ?thesis
    unfolding Pair step_view_def step_rows_def prod.case
    by (auto simp: ParallelGroup_def ConditionalGroup_def Let_def keys_view br map_concat)
qed

lemma keys_steps_view: "toggle_keys (live_all (steps_view b e closed se)) = map row_key (build_rows b)"
proof -
  have "toggle_keys (live (job_step_view e se y)) = [row_key (RJob (fst y))]" for y
    by (cases y) (simp add: job_step_view_def live_StepRow row_key_simps)
  then show ?thesis
    by (simp add: steps_view_def build_rows_def keys_view keys_step_view map_concat)
qed

text \<open>The rows of a build are pairwise different.\<close>

lemma distinct_enumerate_concat:
  assumes "\<And>i x. distinct (f (i, x))" and "\<And>i x r. r \<in> set (f (i, x)) \<Longrightarrow> idx r = i"
  shows "distinct (concat (map f (enumerate n xs)))"
proof (induction xs arbitrary: n)
  case (Cons x xs)
  have "idx r > n" if "r \<in> set (concat (map f (enumerate (Suc n) xs)))" for r
    using that assms(2) by (fastforce simp: in_set_enumerate_eq)
  moreover have "idx r = n" if "r \<in> set (f (n, x))" for r using assms(2) that by blast
  ultimately have "set (f (n, x)) \<inter> set (concat (map f (enumerate (Suc n) xs))) = {}"
    by (metis disjoint_iff less_irrefl)
  with Cons assms(1) show ?case by auto
qed simp

fun row_top :: "row_id \<Rightarrow> nat" where
  "row_top (RStep i) = i" | "row_top (RPar i ci) = i" | "row_top (RBranch i bi) = i"
| "row_top (RCond i bi ci) = i" | "row_top (RJob i) = i" | "row_top RInputs = 0"

fun row_mid :: "row_id \<Rightarrow> nat" where
  "row_mid (RPar i ci) = ci" | "row_mid (RBranch i bi) = bi" | "row_mid (RCond i bi ci) = bi" | "row_mid r = 0"

lemma distinct_indices: "inj f \<Longrightarrow> distinct (map (\<lambda>(i, x). f i) (enumerate n xs))"
  by (induction xs arbitrary: n) (fastforce simp: in_set_enumerate_eq inj_def)+

lemma step_rows_ok: "distinct (step_rows x) \<and> (\<forall>r \<in> set (step_rows x). row_top r = fst x \<and> (\<forall>j. r \<noteq> RJob j))"
proof (cases x)
  case (Pair i s)
  have "distinct (concat (map (\<lambda>(bi, br). if ps_status br = ''skipped'' then []
            else RBranch i bi # map (\<lambda>(ci, c). RCond i bi ci) (enumerate 0 (subs br))) (enumerate 0 ss)))" for ss
    by (rule distinct_enumerate_concat [where idx = row_mid])
      (auto simp: distinct_indices inj_def split: if_splits)
  then show ?thesis by (auto simp: Pair step_rows_def distinct_indices inj_def split: if_splits)
qed

lemma build_rows_distinct: "distinct (build_rows b)"
proof -
  have "distinct (concat (map step_rows (enumerate 0 (p_steps b))))"
    using step_rows_ok by (intro distinct_enumerate_concat [where idx = row_top]) auto
  moreover have "set (concat (map step_rows (enumerate 0 (p_steps b)))) \<inter> range RJob = {}"
    using step_rows_ok by fastforce
  ultimately show ?thesis by (auto simp: build_rows_def distinct_indices inj_def)
qed

lemma inputs_not_row: "RInputs \<notin> set (build_rows b)"
  by (auto simp: build_rows_def step_rows_def split: if_splits)

section \<open>What the page offers\<close>

text \<open>The handlers that call the server.\<close>

definition server_actions :: "job_action set" where
  "server_actions = {CancelBuild, RetryBuild, MarkWarning, ExportReport, ApproveBuild, RejectBuild}"

definition quiet :: "job_action html list \<Rightarrow> bool" where
  "quiet hs \<longleftrightarrow> set (live_all hs) \<inter> server_actions = {}"

lemma quiet_map: "(\<And>x. quiet [f x]) \<Longrightarrow> quiet (map f xs)"
  by (induction xs) (auto simp: quiet_def)

lemma quiet_StepRow: "quiet [StepRow st e k se]"
  by (auto simp: quiet_def live_StepRow server_actions_def)

lemma quiet_rows:
  "a \<in> set (live_all (map (\<lambda>(ci, child). StepRow child e (K ci) se) xs)) \<Longrightarrow> a \<notin> server_actions"
  by (induction xs) (auto simp: live_StepRow server_actions_def split: if_splits)

lemma quiet_toggle [simp]: "ToggleStep k \<notin> server_actions" "ToggleGroup i \<notin> server_actions"
  by (simp_all add: server_actions_def)

lemma quiet_branch: "quiet [branch_view e i se y]"
  by (cases y) (auto simp: quiet_def branch_view_def Let_def dest: quiet_rows)

lemma quiet_step: "quiet [step_view e closed se y]"
proof (cases y)
  case (Pair i s)
  have "quiet (map (branch_view e i se) ys)" for ys by (intro quiet_map quiet_branch)
  then show ?thesis
    using quiet_StepRow unfolding Pair quiet_def step_view_def prod.case
    by (auto simp: ParallelGroup_def ConditionalGroup_def Let_def dest: quiet_rows)
qed

lemma quiet_steps: "quiet (steps_view b e closed se)"
proof -
  have "quiet [job_step_view e se y]" for y
    using quiet_StepRow by (cases y) (simp add: job_step_view_def)
  then have "quiet (map (step_view e closed se) xs)" "quiet (map (job_step_view e se) ys)" for xs ys
    by (auto intro: quiet_map quiet_step)
  then show ?thesis by (auto simp: quiet_def steps_view_def)
qed

lemma quiet_inputs: "quiet (input_step_view b jd e)"
  by (auto simp: quiet_def input_step_view_def live_InputStep server_actions_def)

lemma live_resource_row: "live (ApprovalResourceRow rc ps vm s) = [ToggleResource rc]"
proof -
  have "live_all (map (\<lambda>(k, x). El ''tr'' [] [] [Txt k, Txt (js_string x)]) v) = ([] :: job_action list)" for v
    by (induction v) auto
  then show ?thesis
    by (auto simp: ApprovalResourceRow_def split: option.splits)
qed

lemma live_vote_forms:
  "live (vote_forms g) = (if approveLoading g then [] else [ApproveBuild]) @ [ApproveMsg]
     @ (if rejectLoading g \<or> rejectMsg g = '''' then [] else [RejectBuild]) @ [RejectMsg]"
  by (simp add: vote_forms_def can_submit_def)

lemma live_gate:
  "set (live_all (approval_gate s tc b jd g)) \<inter> server_actions =
     (if bstatus b = ''waiting_for_approval'' \<and> hasTeamRole s tc ''maintain'' \<and> \<not> has_voted s b
      then (if approveLoading g then {} else {ApproveBuild}) \<union> (if rejectLoading g \<or> rejectMsg g = '''' then {} else {RejectBuild})
      else {})"
proof -
  have rows: "set (live_all (map (\<lambda>(rCan, passed, vm). ApprovalResourceRow rCan passed vm (R rCan)) rs)) \<inter> server_actions = {}" for R rs
    by (induction rs) (auto simp: live_resource_row server_actions_def)
  have vs: "live_all (map (\<lambda>a. El ''div'' [] []
       ([El ''span'' (C a) [] [Txt (ap_action a)], Txt (ap_username a)] @ show_if (ap_message a \<noteq> '''') [Txt (ap_message a)])) as)
     = ([] :: job_action list)" for C as
    by (induction as) auto
  show ?thesis
    using rows unfolding approval_gate_def Let_def
    by (auto simp: vs [simplified] live_vote_forms server_actions_def split: option.splits)
qed

lemma live_meta: "live (build_meta s tc rb b jd u el ta) = live (build_controls s tc (raw b) jd u)"
  by (auto simp: build_meta_def split: option.splits)

lemma live_content:
  "set (live (BuildContent s tc rb jd c)) \<inter> server_actions =
     (let b = mergedBuild rb (fullBuild c) in
      (set (live_all (approval_gate s tc b jd (gate c))) \<union> set (live (build_controls s tc b jd (bar c)))) \<inter> server_actions)"
proof -
  have [simp]: "raw (prepareBuild b) = b" for b by (simp add: prepareBuild_def)
  show ?thesis
    using quiet_steps quiet_inputs unfolding quiet_def BuildContent_def Let_def
    by (simp add: live_meta Int_Un_distrib2)
qed

section \<open>Which rows are open at first\<close>

lemma is_expanded_set: "is_expanded (obj_set ex k True) k' \<longleftrightarrow> k' = k \<or> is_expanded ex k'"
  by (auto simp: is_expanded_def)

lemma is_expanded_fold:
  "is_expanded (foldl (\<lambda>ex (i, x). if P i x then obj_set ex (K i x) True else ex) ex xs) k \<longleftrightarrow>
     is_expanded ex k \<or> (\<exists>(i, x) \<in> set xs. P i x \<and> K i x = k)"
  by (induction xs arbitrary: ex) (auto simp: is_expanded_set split: if_splits)

definition opens :: "nat \<times> pstep \<Rightarrow> row_id set" where
  "opens = (\<lambda>(i, s).
     if ps_type s = ''in_parallel'' then {RPar i ci | ci c. (ci, c) \<in> set (enumerate 0 (subs s)) \<and> ps_status c = ''started''}
     else if ps_status s = ''started'' then {RStep i} else {})"

lemma is_expanded_init_step:
  "is_expanded (init_step ex x) (row_key r) \<longleftrightarrow> is_expanded ex (row_key r) \<or> r \<in> opens x"
proof (cases x)
  case (Pair i s)
  have p: "nat_str i @ ''_'' @ nat_str ci = row_key (RPar i ci)" "''s_'' @ nat_str i = row_key (RStep i)" for ci
    by (simp_all add: row_key_simps)
  show ?thesis
    unfolding Pair init_step_def opens_def prod.case p
    by (auto simp: is_expanded_fold is_expanded_set row_key_inj)
qed

lemma is_expanded_init_steps:
  "is_expanded (foldl init_step ex xs) (row_key r) \<longleftrightarrow> is_expanded ex (row_key r) \<or> (\<exists>x \<in> set xs. r \<in> opens x)"
  by (induction xs arbitrary: ex) (auto simp: is_expanded_init_step)

text \<open>Toggling a row leaves every other row.\<close>

lemma is_expanded_toggle:
  "is_expanded (toggleStep e k) k' \<longleftrightarrow> (if k' = k then \<not> is_expanded e k else is_expanded e k')"
  by (auto simp: toggleStep_def is_expanded_def)

lemma StepRow_cong: "is_expanded e k = is_expanded e' k \<Longrightarrow> StepRow st e k se = StepRow st e' k se"
  by (simp add: StepRow_def)

definition no_branch :: "string \<Rightarrow> bool" where
  "no_branch k \<longleftrightarrow> (\<exists>r. k = row_key r \<and> (\<forall>i bi. r \<noteq> RBranch i bi))"

lemma no_branch_keys:
  "no_branch (''s_'' @ nat_str i)" "no_branch (''j_'' @ nat_str i)" "no_branch (nat_str i @ ''_'' @ nat_str ci)"
  "no_branch (branchKey i bi @ ''_'' @ nat_str ci)" "no_branch ''inputs''"
  unfolding no_branch_def by (metis row_key_simps row_id.distinct)+

lemma StepRow_branch_toggle:
  "no_branch k \<Longrightarrow> StepRow st (toggleStep e (branchKey i bi)) k se = StepRow st e k se"
proof (rule StepRow_cong)
  assume "no_branch k"
  then obtain r where "k = row_key r" "r \<noteq> RBranch i bi" by (auto simp: no_branch_def)
  then have "k \<noteq> branchKey i bi" by (simp add: row_key_simps(5) [symmetric] row_key_inj)
  then show "is_expanded (toggleStep e (branchKey i bi)) k = is_expanded e k" by (simp add: is_expanded_toggle)
qed

lemmas branch_toggle_rows = StepRow_branch_toggle [OF no_branch_keys(1)] StepRow_branch_toggle [OF no_branch_keys(2)]
  StepRow_branch_toggle [OF no_branch_keys(3)] StepRow_branch_toggle [OF no_branch_keys(4)]

lemma steps_branch_toggle: "steps_view b (toggleStep e (branchKey i bi)) closed se = steps_view b e closed se"
proof -
  have "branch_view (toggleStep e (branchKey i bi)) j se = branch_view e j se" for j
    by (rule ext) (simp only: branch_view_def branch_toggle_rows)
  then have "step_view (toggleStep e (branchKey i bi)) closed se = step_view e closed se"
    by (intro ext) (simp only: step_view_def ParallelGroup_def ConditionalGroup_def branch_toggle_rows)
  moreover have "job_step_view (toggleStep e (branchKey i bi)) se = job_step_view e se"
    by (rule ext) (simp only: job_step_view_def branch_toggle_rows)
  ultimately show ?thesis by (simp only: steps_view_def)
qed

section \<open>Timers of running steps\<close>

fun running_names :: "step list \<Rightarrow> string set" where
  "running_names [] = {}"
| "running_names (Step ty nm sta d lg sa sub # ss) =
     (if sta = ''started'' then {nm} else {})
     \<union> (case sub of None \<Rightarrow> {} | Some us \<Rightarrow> running_names us) \<union> running_names ss"

definition seen_kept :: "seen_times \<Rightarrow> seen_times \<Rightarrow> bool" where
  "seen_kept s s' \<longleftrightarrow> (\<forall>k t. map_of s k = Some t \<longrightarrow> t \<noteq> 0 \<longrightarrow> map_of s' k = Some t)"

lemma note_running_keys: "fst ` set (snd (note_running pd now nm sa st)) = insert nm (fst ` set (snd st))"
  by (simp add: note_running_def Let_def)

lemma note_running_kept: "seen_kept (fst st) (fst (note_running pd now nm sa st))"
  by (auto simp: note_running_def Let_def seen_kept_def)

lemma seen_kept_trans: "seen_kept a b \<Longrightarrow> seen_kept b c \<Longrightarrow> seen_kept a c"
  by (auto simp: seen_kept_def)

lemma seen_kept_refl: "seen_kept a a"
  by (simp add: seen_kept_def)

lemma computeStepElapsed_keys:
  "fst ` set (snd (computeStepElapsed pd now ss st)) = fst ` set (snd st) \<union> running_names ss"
proof (induction ss arbitrary: st rule: running_names.induct)
  case (2 ty nm sta d lg sa sub ss)
  then show ?case by (cases sub) (auto simp: Let_def note_running_keys)
qed simp

lemma computeStepElapsed_kept: "seen_kept (fst st) (fst (computeStepElapsed pd now ss st))"
proof (induction ss arbitrary: st rule: running_names.induct)
  case (2 ty nm sta d lg sa sub ss)
  let ?st1 = "if sta = ''started'' then note_running pd now nm sa st else st"
  have 1: "seen_kept (fst st) (fst ?st1)" by (simp add: note_running_kept seen_kept_refl)
  show ?case
  proof (cases sub)
    case None
    with seen_kept_trans [OF 1 "2.IH"(2) [of ?st1]] show ?thesis by (simp add: Let_def)
  next
    case (Some us)
    from seen_kept_trans [OF 1 seen_kept_trans [OF "2.IH"(1) [OF Some] "2.IH"(2)]] Some
    show ?thesis by (simp add: Let_def)
  qed
qed (simp add: seen_kept_refl)

section \<open>Properties\<close>

text \<open>
  C10. Who may do what on a build: the page offers a control that calls the server exactly under
  its conditions. Cancel needs the write role and a running or pending build; retry the write role,
  a build that is neither running, pending nor waiting, and a job that allows it; marking as warning
  the maintain role and a failed build; the report the read role and a build that is not running or
  pending; a vote the maintain role, a waiting build, and no earlier vote of the same user, a rejection
  also a message. A control whose request is under way is not offered.
\<close>

theorem BuildContent_offers:
  "set (live (BuildContent s tc rb jd c)) \<inter> server_actions =
     (let b = mergedBuild rb (fullBuild c);
          running = (bstatus b = ''started'' \<or> bstatus b = ''pending'');
          waiting = (bstatus b = ''waiting_for_approval'')
      in {a. a = CancelBuild \<and> running \<and> hasTeamRole s tc ''write'' \<and> \<not> cancelLoading (bar c)
           \<or> a = RetryBuild \<and> \<not> running \<and> \<not> waiting \<and> hasTeamRole s tc ''write''
               \<and> \<not> (\<exists>j. jd = Some j \<and> disable_retry j) \<and> \<not> retryLoading (bar c)
           \<or> a = MarkWarning \<and> bstatus b = ''failed'' \<and> hasTeamRole s tc ''maintain'' \<and> \<not> warningLoading (bar c)
           \<or> a = ExportReport \<and> \<not> running \<and> hasTeamRole s tc ''read'' \<and> \<not> exportLoading (bar c)
           \<or> a = ApproveBuild \<and> waiting \<and> hasTeamRole s tc ''maintain'' \<and> \<not> has_voted s b \<and> \<not> approveLoading (gate c)
           \<or> a = RejectBuild \<and> waiting \<and> hasTeamRole s tc ''maintain'' \<and> \<not> has_voted s b \<and> \<not> rejectLoading (gate c)
               \<and> rejectMsg (gate c) \<noteq> ''''})"
proof -
  have "set (live (build_controls s tc b jd u)) \<inter> server_actions =
    {a. a = CancelBuild \<and> (bstatus b = ''started'' \<or> bstatus b = ''pending'') \<and> hasTeamRole s tc ''write'' \<and> \<not> cancelLoading u
       \<or> a = RetryBuild \<and> \<not> (bstatus b = ''started'' \<or> bstatus b = ''pending'') \<and> bstatus b \<noteq> ''waiting_for_approval''
           \<and> hasTeamRole s tc ''write'' \<and> \<not> (\<exists>j. jd = Some j \<and> disable_retry j) \<and> \<not> retryLoading u
       \<or> a = MarkWarning \<and> bstatus b = ''failed'' \<and> hasTeamRole s tc ''maintain'' \<and> \<not> warningLoading u
       \<or> a = ExportReport \<and> \<not> (bstatus b = ''started'' \<or> bstatus b = ''pending'') \<and> hasTeamRole s tc ''read'' \<and> \<not> exportLoading u}"
    for b u
    by (auto simp: build_controls_def Let_def server_actions_def split: option.splits)
  then show ?thesis
    unfolding live_content Let_def Int_Un_distrib2 live_gate by auto
qed

text \<open>
  Every row of a build has its own key: the keys the row headers toggle, in the order of the
  page, are pairwise different, so opening or closing one row changes no other.
\<close>

theorem row_keys_distinct:
  "distinct (toggle_keys (live_all (steps_view b e closed se)))
   \<and> ''inputs'' \<notin> set (toggle_keys (live_all (steps_view b e closed se)))"
proof -
  have "inj row_key" by (simp add: inj_def row_key_inj)
  moreover have "''inputs'' = row_key RInputs" by (simp add: row_key_simps)
  ultimately show ?thesis
    using build_rows_distinct [of b] inputs_not_row [of b]
    by (auto simp: keys_steps_view distinct_map inj_on_def row_key_inj)
qed

text \<open>
  Rows open at first: exactly the running steps that are not parallel groups, the running
  members of parallel groups and the running job entries. The rows inside a conditional start closed
  even when they are running (their keys are never set).
\<close>

theorem init_expanded_rows:
  "is_expanded (init_expanded b) (row_key r) \<longleftrightarrow>
     (\<exists>x \<in> set (enumerate 0 (p_steps b)). r \<in> opens x)
     \<or> (\<exists>(ji, j) \<in> set (enumerate 0 (p_jobs b)). r = RJob ji \<and> ps_status j = ''started'')"
proof -
  have j: "''j_'' @ nat_str ji = row_key (RJob ji)" for ji by (simp add: row_key_simps)
  show ?thesis
    unfolding init_expanded_def j is_expanded_fold is_expanded_init_steps row_key_inj
    by (auto simp: is_expanded_def)
qed

text \<open>
  The header of a conditional's branch is a dead control: it toggles a key that no part of the
  page reads, so clicking it changes nothing that is shown.
\<close>

theorem branch_header_dead:
  "BuildContent s tc rb jd (c\<lparr>expandedSteps := toggleStep (expandedSteps c) (branchKey i bi)\<rparr>)
   = BuildContent s tc rb jd c"
proof -
  have "''inputs'' \<noteq> branchKey i bi"
    using row_key_inj [of RInputs "RBranch i bi"] by (simp add: row_key_simps)
  then have "input_step_view b jd (toggleStep e (branchKey i bi)) = input_step_view b jd e" for b e
    by (simp add: input_step_view_def InputStep_def is_expanded_toggle)
  then show ?thesis by (simp add: BuildContent_def steps_branch_toggle)
qed

text \<open>
  Step timers: one update labels exactly the steps that are running, at every depth, and a step
  keeps the time at which it was first seen running.
\<close>

theorem computeStepElapsed_running:
  "fst ` set (snd (computeStepElapsed pd now ss (seen, []))) = running_names ss
   \<and> seen_kept seen (fst (computeStepElapsed pd now ss (seen, [])))"
  using computeStepElapsed_keys [of pd now ss "(seen, [])"] computeStepElapsed_kept [of "(seen, [])" pd now ss]
  by simp

end
