(* ===== verification/Hooks.thy ===== *)
theory Hooks
  imports AppState
begin

text \<open>
  \<open>hooks.js\<close>: the page guard \<open>useRequireAuth\<close>, the polling hook \<open>usePolling\<close> and \<open>useLoading\<close>.

  One mounted \<open>usePolling\<close> effect is the record \<open>polling\<close>: its two closure variables, the browser's
  armed timers, the number of calls of \<open>fn\<close> that have not settled, and the call counter. The events
  are what the browser can do to it; \<open>enabled_event\<close> says when each can happen, and \<open>reachable\<close>
  states are given by an inductive relation. A chain is an armed timer or a call in flight: each
  call in flight leads to one timer, each timer to one call.

  Lemmas: after unmount \<open>fn\<close> is never called again; there is exactly one chain while the page is
  visible, provided the visibility never changes during a call; each hide and show during a call
  adds a chain, and a call in flight survives hiding.
\<close>

section \<open>The page guard\<close>

record guard_opts =
  adminOnly :: bool
  requiredRole :: "string option"
  teamCanonical :: "string option"
  redirectTo :: "string option"

definition str_or :: "string option \<Rightarrow> string" where
  "str_or s = (case s of None \<Rightarrow> '''' | Some t \<Rightarrow> t)"

definition must_change :: "session \<Rightarrow> bool" where
  "must_change s = (case user s of None \<Rightarrow> False | Some u \<Rightarrow> must_change_password u)"

text \<open>The effect of the hook, and the value it returns. A missing team is no team's name.\<close>

definition guard_denied :: "guard_opts \<Rightarrow> session \<Rightarrow> bool" where
  "guard_denied g s =
     (if truthy_str (requiredRole g)
      then \<not> hasTeamRole s (str_or (teamCanonical g)) (str_or (requiredRole g))
      else adminOnly g \<and> \<not> isTeamAdmin s (str_or (teamCanonical g)))"

definition useRequireAuth :: "guard_opts \<Rightarrow> string \<Rightarrow> app \<Rightarrow> app" where
  "useRequireAuth g pathname a =
     (if \<not> isLoggedIn (sess a) then route ''/login'' True a
      else if must_change (sess a) \<and> pathname \<noteq> ''/profile'' then route ''/profile'' True a
      else if guard_denied g (sess a) then
        (if truthy_str (redirectTo g) then route (str_or (redirectTo g)) True a
         else if truthy_str (teamCanonical g)
         then route (''/teams/'' @ str_or (teamCanonical g) @ ''/pipelines'') True a
         else route ''/'' True a)
      else a)"

section \<open>Polling\<close>

record polling =
  timeoutId :: "nat option"
  stopped :: bool
  timers :: "nat list"
  next_timer :: nat
  in_flight :: nat
  doc_hidden :: bool
  listening :: bool
  fn_calls :: nat

definition schedule :: "polling \<Rightarrow> polling" where
  "schedule s =
     (if stopped s then s
      else s\<lparr>timeoutId := Some (next_timer s), timers := timers s @ [next_timer s],
             next_timer := Suc (next_timer s)\<rparr>)"

text \<open>\<open>tick\<close> up to its \<open>await\<close>, and from there on (whether the call resolved or rejected).\<close>

definition tick :: "polling \<Rightarrow> polling" where
  "tick s = (if stopped s then s else s\<lparr>fn_calls := Suc (fn_calls s), in_flight := Suc (in_flight s)\<rparr>)"

definition tick_settled :: "polling \<Rightarrow> polling" where
  "tick_settled s = schedule (s\<lparr>in_flight := in_flight s - 1\<rparr>)"

definition start :: "polling \<Rightarrow> polling" where
  "start s = (if timeoutId s \<noteq> None then s else tick s)"

text \<open>\<open>clearTimeout\<close> of a timer that has fired does nothing.\<close>

definition stop :: "polling \<Rightarrow> polling" where
  "stop s = (case timeoutId s of
       None \<Rightarrow> s
     | Some i \<Rightarrow> s\<lparr>timers := filter (\<lambda>j. j \<noteq> i) (timers s), timeoutId := None\<rparr>)"

definition onVisibility :: "polling \<Rightarrow> polling" where
  "onVisibility s = (if doc_hidden s then stop s else start s)"

text \<open>The effect itself: mounting (only when enabled) and the clean-up function.\<close>

definition usePolling :: "bool \<Rightarrow> bool \<Rightarrow> polling" where
  "usePolling is_enabled hid =
     (let s = \<lparr>timeoutId = None, stopped = False, timers = [], next_timer = 0, in_flight = 0,
               doc_hidden = hid, listening = is_enabled, fn_calls = 0\<rparr>
      in if \<not> is_enabled then s else if \<not> hid then start s else s)"

definition unmount :: "polling \<Rightarrow> polling" where
  "unmount s = (stop (s\<lparr>stopped := True\<rparr>))\<lparr>listening := False\<rparr>"

datatype poll_event = Fire nat | Settle | Visibility bool | Unmount

text \<open>A browser event: a timer fires, a call settles, the page is hidden or shown, the unmount.\<close>

definition poll_step :: "polling \<Rightarrow> poll_event \<Rightarrow> polling" where
  "poll_step s e =
     (case e of
        Fire i \<Rightarrow> tick (s\<lparr>timers := filter (\<lambda>j. j \<noteq> i) (timers s)\<rparr>)
      | Settle \<Rightarrow> tick_settled s
      | Visibility h \<Rightarrow>
          (let s' = s\<lparr>doc_hidden := h\<rparr> in if listening s then onVisibility s' else s')
      | Unmount \<Rightarrow> unmount s)"

definition enabled_event :: "polling \<Rightarrow> poll_event \<Rightarrow> bool" where
  "enabled_event s e =
     (case e of
        Fire i \<Rightarrow> i \<in> set (timers s)
      | Settle \<Rightarrow> in_flight s > 0
      | Visibility h \<Rightarrow> h \<noteq> doc_hidden s
      | Unmount \<Rightarrow> \<not> stopped s)"

inductive reachable :: "(polling \<Rightarrow> poll_event \<Rightarrow> bool) \<Rightarrow> polling \<Rightarrow> polling \<Rightarrow> bool" for ok where
  reach_refl: "reachable ok s s"
| reach_step: "reachable ok s t \<Longrightarrow> ok t e \<Longrightarrow> reachable ok s (poll_step t e)"

section \<open>Loading flags\<close>

text \<open>\<open>withLoading fn\<close>: the flag is set, \<open>fn\<close> runs, the flag is cleared however \<open>fn\<close> ends.\<close>

definition withLoading :: "(bool \<times> 's \<Rightarrow> 'r \<times> bool \<times> 's) \<Rightarrow> bool \<times> 's \<Rightarrow> 'r \<times> bool \<times> 's" where
  "withLoading fn ls = (let (r, ls') = fn (True, snd ls) in (r, False, snd ls'))"

section \<open>Polling lemmas\<close>

definition chains :: "polling \<Rightarrow> nat" where
  "chains s = length (timers s) + in_flight s"

lemmas poll_defs = poll_step_def enabled_event_def tick_def tick_settled_def schedule_def start_def stop_def
  onVisibility_def unmount_def

text \<open>The clean-up is final: \<open>stopped\<close> stays set, the listener stays removed.\<close>

lemma stopped_step:
  "stopped s \<Longrightarrow> \<not> listening s \<Longrightarrow>
   stopped (poll_step s e) \<and> \<not> listening (poll_step s e) \<and> fn_calls (poll_step s e) = fn_calls s"
  by (cases e) (auto simp: poll_defs Let_def split: option.splits)

lemma stopped_reachable:
  "reachable ok s t \<Longrightarrow> stopped s \<Longrightarrow> \<not> listening s \<Longrightarrow> stopped t \<and> \<not> listening t \<and> fn_calls t = fn_calls s"
  by (induction rule: reachable.induct) (auto dest: stopped_step)

lemma unmount_stopped: "stopped (unmount s)" "\<not> listening (unmount s)" "fn_calls (unmount s) = fn_calls s"
  by (auto simp: unmount_def stop_def split: option.splits)

text \<open>Events under which the visibility never changes during a call, nor does the page unmount.\<close>

definition calm :: "polling \<Rightarrow> poll_event \<Rightarrow> bool" where
  "calm s e \<longleftrightarrow> enabled_event s e \<and> e \<noteq> Unmount \<and> (\<forall>h. e = Visibility h \<longrightarrow> in_flight s = 0)"

text \<open>The invariant: visible means one chain, and its timer is the one \<open>timeoutId\<close> names.\<close>

definition poll_inv :: "polling \<Rightarrow> bool" where
  "poll_inv s \<longleftrightarrow> \<not> stopped s \<and> listening s
     \<and> (if doc_hidden s then timers s = [] \<and> in_flight s = 0 \<and> timeoutId s = None
        else (in_flight s = 1 \<and> timers s = [])
             \<or> (in_flight s = 0 \<and> (\<exists>i. timers s = [i] \<and> timeoutId s = Some i)))"

lemma poll_inv_init: "poll_inv (usePolling True hid)"
  by (auto simp: poll_inv_def usePolling_def start_def tick_def Let_def)

lemma poll_inv_step: "poll_inv s \<Longrightarrow> calm s e \<Longrightarrow> poll_inv (poll_step s e)"
  by (cases e) (auto simp: poll_inv_def calm_def poll_defs Let_def split: if_splits)

lemma poll_inv_reachable: "reachable calm s t \<Longrightarrow> poll_inv s \<Longrightarrow> poll_inv t"
  by (induction rule: reachable.induct) (auto intro: poll_inv_step)

text \<open>Whatever the page does, a mounted visible page has an armed timer or a call in flight.\<close>

definition alive :: "polling \<Rightarrow> bool" where
  "alive s \<longleftrightarrow> timers s \<noteq> [] \<or> in_flight s > 0"

definition live_inv :: "polling \<Rightarrow> bool" where
  "live_inv s \<longleftrightarrow> stopped s \<or> (listening s \<and> (timeoutId s \<noteq> None \<longrightarrow> alive s) \<and> (\<not> doc_hidden s \<longrightarrow> alive s))"

lemma live_inv_init: "live_inv (usePolling True hid)"
  by (auto simp: live_inv_def alive_def usePolling_def start_def tick_def Let_def)

lemma live_inv_step: "live_inv s \<Longrightarrow> enabled_event s e \<Longrightarrow> live_inv (poll_step s e)"
  by (cases e) (auto simp: live_inv_def alive_def poll_defs Let_def split: if_splits option.splits)

lemma live_inv_reachable: "reachable enabled_event s t \<Longrightarrow> live_inv s \<Longrightarrow> live_inv t"
  by (induction rule: reachable.induct) (auto intro: live_inv_step)

lemma fire_calls: "\<not> stopped s \<Longrightarrow> i \<in> set (timers s) \<Longrightarrow> enabled_event s (Fire i) \<and> fn_calls (poll_step s (Fire i)) = Suc (fn_calls s)"
  by (simp add: poll_defs)

lemma settle_arms: "\<not> stopped s \<Longrightarrow> in_flight s > 0 \<Longrightarrow>
   enabled_event s Settle \<and> timers (poll_step s Settle) \<noteq> [] \<and> fn_calls (poll_step s Settle) = fn_calls s \<and> \<not> stopped (poll_step s Settle)"
  by (simp add: poll_defs)

inductive_cases reachable_split: "reachable ok s t"

text \<open>One hide and show during a call.\<close>

definition flicker :: "polling \<Rightarrow> polling" where
  "flicker s = poll_step (poll_step s (Visibility True)) (Visibility False)"

definition busy :: "polling \<Rightarrow> bool" where
  "busy s \<longleftrightarrow> \<not> stopped s \<and> listening s \<and> \<not> doc_hidden s \<and> timers s = [] \<and> in_flight s > 0 \<and> timeoutId s = None"

lemma flicker_step: "busy s \<Longrightarrow> busy (flicker s) \<and> in_flight (flicker s) = Suc (in_flight s)"
  by (simp add: busy_def flicker_def poll_defs Let_def)

lemma flicker_chains: "busy s \<Longrightarrow> busy ((flicker ^^ n) s) \<and> in_flight ((flicker ^^ n) s) = in_flight s + n"
  by (induction n) (auto dest: flicker_step)

section \<open>Properties\<close>

text \<open>
  C11. After unmount the callback is never called again, whatever timers were armed and whatever
  calls were in flight.
\<close>

theorem usePolling_unmount_is_final:
  "reachable enabled_event (unmount s) t \<Longrightarrow> fn_calls t = fn_calls s"
  using stopped_reachable unmount_stopped by metis

text \<open>
  C12. As long as the page's visibility never changes during a call, polling is one chain: exactly
  one armed timer or one call in flight while the page is visible, nothing at all while it is hidden.
\<close>

theorem usePolling_single_chain:
  "reachable calm (usePolling True hid) t \<Longrightarrow>
   chains t = (if doc_hidden t then 0 else 1)"
  using poll_inv_reachable [OF _ poll_inv_init, of hid t] by (auto simp: poll_inv_def chains_def split: if_splits)

text \<open>
  Each hide and show of the page during a call starts one more concurrent chain: after \<open>n\<close> of
  them \<open>fn\<close> has \<open>n + 1\<close> calls in flight, because \<open>start\<close> only looks at \<open>timeoutId\<close>.
\<close>

theorem usePolling_flicker_adds_chains:
  "chains ((flicker ^^ n) (usePolling True False)) = n + 1"
proof -
  have "busy (usePolling True False)" "in_flight (usePolling True False) = 1"
    by (auto simp: usePolling_def start_def tick_def busy_def Let_def)
  then show ?thesis
    using flicker_chains [of "usePolling True False" n] by (simp add: chains_def busy_def)
qed

text \<open>
  C13. Polling does not die: in every state a mounted, visible page can get into, at most two events
  the browser is bound to deliver (the call in flight settles, an armed timer fires) call \<open>fn\<close> again.
\<close>

theorem usePolling_keeps_polling:
  assumes "reachable enabled_event (usePolling True hid) s" and "\<not> stopped s" and "\<not> doc_hidden s"
  shows "\<exists>es i. es \<in> {[Fire i], [Settle, Fire i]} \<and> enabled_event s (hd es)
           \<and> enabled_event (run poll_step s (butlast es)) (last es) \<and> fn_calls (run poll_step s es) = Suc (fn_calls s)"
proof -
  have "alive s" using live_inv_reachable [OF assms(1) live_inv_init] assms(2,3) by (simp add: live_inv_def)
  then consider i where "i \<in> set (timers s)" | "in_flight s > 0"
    unfolding alive_def by (metis list.set_intros(1) neq_Nil_conv)
  then show ?thesis
  proof cases
    case 1
    with fire_calls assms(2) show ?thesis by (intro exI [of _ "[Fire i]"]) auto
  next
    case 2
    then obtain i where "i \<in> set (timers (poll_step s Settle))"
      using settle_arms assms(2) by (metis list.set_intros(1) neq_Nil_conv)
    with 2 show ?thesis
      using settle_arms [of s] fire_calls [of "poll_step s Settle" i] assms(2)
      by (intro exI [of _ "[Settle, Fire i]"] exI [of _ i]) simp
  qed
qed

text \<open>
  A page hidden during a call keeps polling: when the call settles the next timer is armed, and
  firing it calls \<open>fn\<close> again although the page is hidden.
\<close>

theorem usePolling_polls_while_hidden:
  "doc_hidden (run poll_step (usePolling True False) [Visibility True, Settle, Fire 0])
   \<and> fn_calls (run poll_step (usePolling True False) [Visibility True, Settle, Fire 0]) = 2"
  by (simp add: usePolling_def poll_defs Let_def)

text \<open>
  C14. What the page guard does, for a user of the server and a documented role. Without a token it goes to the
  login page; with a pending password change, except on the profile page, to the profile page; and when a role is
  asked for (with \<open>adminOnly\<close> and no role: the administrator's) that neither a global administrator's flag nor a
  membership of the page's team gives, to the page's \<open>redirectTo\<close>, else the team's pipelines, else the start
  page. These are replacing navigations and the only effect; otherwise the session stays on the page.
\<close>

theorem useRequireAuth_outcome:
  assumes "\<forall>u. user (sess a) = Some u \<longrightarrow> well_formed_user u" and "\<forall>r. requiredRole g = Some r \<longrightarrow> r \<in> set documented_roles"
    and "asked = (case requiredRole g of Some r \<Rightarrow> {r} | None \<Rightarrow> if adminOnly g then {''admin''} else {})"
    and "holds = (\<lambda>r. \<exists>u. user (sess a) = Some u \<and>
      (admin u \<or> (\<exists>m \<in> set (membership_list u). teamCanonical g = Some (team_canonical m) \<and> inherits (role m) r)))"
    and "elsewhere = (if str_or (redirectTo g) \<noteq> '''' then str_or (redirectTo g)
      else if str_or (teamCanonical g) \<noteq> '''' then ''/teams/'' @ str_or (teamCanonical g) @ ''/pipelines'' else ''/'')"
  shows "useRequireAuth g path a =
    (if jwt (sess a) \<in> {None, Some ''''} then route ''/login'' True a
     else if (\<exists>u. user (sess a) = Some u \<and> must_change_password u) \<and> path \<noteq> ''/profile'' then route ''/profile'' True a
     else if \<forall>r \<in> asked. holds r then a
     else route elsewhere True a)"
proof -
  have holds: "hasTeamRole (sess a) (str_or (teamCanonical g)) r \<longleftrightarrow> holds r" if "r \<in> set documented_roles" for r
  proof (cases "user (sess a)")
    case (Some u)
    with assms(1) have "well_formed_user u" by simp
    with hasTeamRole_user [OF Some this that] Some show ?thesis
      by (cases "teamCanonical g") (auto simp: assms(4) str_or_def well_formed_user_def)
  qed (simp add: assms(4))
  have "''admin'' \<in> set documented_roles" "r \<noteq> ''''" if "r \<in> set documented_roles" for r
    using that by (auto simp: documented_roles_def)
  then have denied: "(\<forall>r \<in> asked. holds r) \<longleftrightarrow> \<not> guard_denied g (sess a)"
    using assms(2) holds by (cases "requiredRole g") (auto simp: guard_denied_def assms(3) truthy_str_def str_or_def isTeamAdmin_def documented_roles_def)
  have token: "jwt (sess a) \<in> {None, Some ''''} \<longleftrightarrow> \<not> isLoggedIn (sess a)"
    by (auto simp: isLoggedIn_def truthy_str_def split: option.splits)
  have change: "(\<exists>u. user (sess a) = Some u \<and> must_change_password u) \<longleftrightarrow> must_change (sess a)"
    by (auto simp: must_change_def split: option.splits)
  have "truthy_str x \<longleftrightarrow> str_or x \<noteq> ''''" for x by (simp add: truthy_str_def str_or_def split: option.splits)
  then show ?thesis unfolding denied token change useRequireAuth_def assms(5) by simp
qed

section \<open>Examples\<close>

theorem usePolling_unmount_is_final_witness:
  "fn_calls (poll_step (unmount (usePolling True False)) Settle) = 1"
proof -
  have "enabled_event (unmount (usePolling True False)) Settle"
    by (simp add: usePolling_def poll_defs Let_def)
  then have "reachable enabled_event (unmount (usePolling True False)) (poll_step (unmount (usePolling True False)) Settle)"
    using reach_step reach_refl by metis
  then have "fn_calls (poll_step (unmount (usePolling True False)) Settle) = fn_calls (usePolling True False)"
    by (rule usePolling_unmount_is_final)
  then show ?thesis by (simp add: usePolling_def start_def tick_def)
qed

theorem usePolling_keeps_polling_witness:
  "\<exists>es i. es \<in> {[Fire i], [Settle, Fire i]} \<and> fn_calls (run poll_step (usePolling True False) es) = 2"
proof -
  have "reachable enabled_event (usePolling True False) (usePolling True False)" by (rule reach_refl)
  moreover have "\<not> stopped (usePolling True False)" "\<not> doc_hidden (usePolling True False)" "fn_calls (usePolling True False) = 1"
    by (simp_all add: usePolling_def start_def tick_def)
  ultimately obtain es i where "es \<in> {[Fire i], [Settle, Fire i]}" "fn_calls (run poll_step (usePolling True False) es) = Suc 1"
    using usePolling_keeps_polling [of False "usePolling True False"] by auto
  then show ?thesis by (intro exI [of _ es] exI [of _ i]) simp
qed

theorem usePolling_single_chain_witness:
  "chains (poll_step (poll_step (usePolling True False) Settle) (Visibility True)) = 0"
proof -
  let ?s = "poll_step (usePolling True False) Settle"
  have "calm (usePolling True False) Settle" "calm ?s (Visibility True)"
    by (simp_all add: usePolling_def calm_def poll_defs)
  then have "reachable calm (usePolling True False) (poll_step ?s (Visibility True))"
    using reach_step reach_refl by metis
  from usePolling_single_chain [OF this] show ?thesis by (simp add: usePolling_def poll_defs)
qed

theorem useRequireAuth_outcome_witness:
  "navigations (useRequireAuth \<lparr>adminOnly = False, requiredRole = Some ''write'', teamCanonical = Some ''t'', redirectTo = None\<rparr> ''/x''
     ((boot (\<lambda>_. None))\<lparr>sess := \<lparr>jwt = Some ''j'', user = Some \<lparr>username = ''u'', full_name = '''', admin = False,
        must_change_password = False, memberships = Some [\<lparr>team_canonical = ''t'', role = ''read''\<rparr>]\<rparr>\<rparr>\<rparr>))
   = [\<lparr>target = ''/teams/t/pipelines'', replaces = True\<rparr>]"
  by (subst useRequireAuth_outcome [OF _ _ refl refl refl])
    (auto simp: well_formed_user_def documented_roles_def membership_list_def inherits_down str_or_def route_def boot_def)

end
