(* ===== verification/JobBuilds.thy ===== *)
theory JobBuilds
  imports BuildViews Hooks
begin

text \<open>
  \<open>JobBuilds\<close> of \<open>Jobs.js\<close>: the list of builds the page keeps next to the server's, its cursors, the
  version filter, the open build, the trigger form, and the page around them. Each callback that
  awaits a request is the function applied when the answer arrives; a failed request is \<open>None\<close>, and
  the \<open>catch\<close> blocks make it a no-op.

  Lemmas: under every sequence of answers no build is listed twice; a page of older builds respects
  the cap; refreshing keeps the list's ids and re-fetches exactly the builds that left the active
  states; the version filter is kept by loading and polling, and not by scrolling.
\<close>

section \<open>State\<close>

record page_meta =
  newest_id :: "nat option"
  oldest_id :: "nat option"
  has_more :: bool

record build_page =
  bp_data :: "build list option"
  bp_meta :: "page_meta option"

text \<open>
  An initial load that waits for the build asked for by number: the variables of \<open>init\<close> it goes on with.
\<close>

record init_wait =
  iw_page :: page
  iw_embedded :: bool
  iw_version :: "int option"
  iw_number :: string
  iw_list :: "build list"

record jobs_page =
  builds :: "build list"
  activeBuildID :: "nat option"
  job :: "job_data option"
  versionBanner :: "(string \<times> string) option"
  newestID :: "nat option"
  oldestID :: "nat option"
  hasMore :: bool
  trackedBuildIDs :: "nat list option"
  replaced_urls :: "string list"
  awaiting :: "init_wait list"

definition jobs_mount :: jobs_page where
  "jobs_mount = \<lparr>builds = [], activeBuildID = None, job = None, versionBanner = None, newestID = None, oldestID = None,
     hasMore = False, trackedBuildIDs = None, replaced_urls = [], awaiting = []\<rparr>"

text \<open>\<open>x || null\<close> for an id.\<close>

definition nz :: "nat option \<Rightarrow> nat option" where
  "nz x = (if x = Some 0 then None else x)"

definition data_of :: "build_page \<Rightarrow> build list" where
  "data_of r = (case bp_data r of None \<Rightarrow> [] | Some bs \<Rightarrow> bs)"

section \<open>Version filter\<close>

text \<open>The prop, or the \<open>version\<close> parameter of the page's URL; 0 and unreadable values count as none.\<close>

definition tracked_version :: "int option \<Rightarrow> string \<Rightarrow> int option" where
  "tracked_version prop search =
     (let known = (\<lambda>x. if x = Some 0 then None else x) in
      case known prop of
        Some v \<Rightarrow> Some v
      | None \<Rightarrow>
          (case usp_get (usp_parse search) ''version'' of
             None \<Rightarrow> None
           | Some v \<Rightarrow> if v = '''' then None else known (js_parseInt v)))"

record path_entry =
  pe_job_name :: string
  pe_build :: "nat option"
  pe_retries :: "nat list option"

record version_path =
  vp_path :: "path_entry list option"
  vp_canonical :: string
  vp_version :: "json jsobj option"

definition path_ids :: "string \<Rightarrow> path_entry list \<Rightarrow> nat list" where
  "path_ids jn path =
     concat (map (\<lambda>en.
       if pe_job_name en = jn
       then (case pe_build en of
               None \<Rightarrow> []
             | Some i \<Rightarrow> i # (case pe_retries en of None \<Rightarrow> [] | Some rs \<Rightarrow> rs))
       else []) path)"

definition banner_ref :: "json jsobj option \<Rightarrow> string" where
  "banner_ref ver =
     (let v = (case ver of None \<Rightarrow> [] | Some m \<Rightarrow> m) in
      case truthy_field v ''ref'' of Some x \<Rightarrow> js_string x
      | None \<Rightarrow> (case truthy_field v ''digest'' of Some x \<Rightarrow> js_string x
      | None \<Rightarrow> (case truthy_field v ''tag'' of Some x \<Rightarrow> js_string x
      | None \<Rightarrow> (case v of [] \<Rightarrow> '''' | (k, x) # _ \<Rightarrow> k @ '': '' @ js_string x))))"

text \<open>The answers of the path requests, one per resource; the first with a non-empty path decides.\<close>

fun fetchTrackedBuilds :: "string \<Rightarrow> version_path option list \<Rightarrow> jobs_page \<Rightarrow> jobs_page" where
  "fetchTrackedBuilds jn [] s = s"
| "fetchTrackedBuilds jn (r # rs) s =
     (case r of
        None \<Rightarrow> fetchTrackedBuilds jn rs s
      | Some vp \<Rightarrow>
          (case vp_path vp of
             Some (en # ens) \<Rightarrow>
               s\<lparr>trackedBuildIDs := Some (path_ids jn (en # ens)),
                 versionBanner := Some (vp_canonical vp, banner_ref (vp_version vp))\<rparr>
           | _ \<Rightarrow> fetchTrackedBuilds jn rs s))"

definition filterByTracked :: "jobs_page \<Rightarrow> build list \<Rightarrow> build list" where
  "filterByTracked s allBuilds =
     (case trackedBuildIDs s of None \<Rightarrow> allBuilds | Some ids \<Rightarrow> filter (\<lambda>b. bid b \<in> set ids) allBuilds)"

section \<open>Loading\<close>

definition loadBuilds :: "build_page option \<Rightarrow> jobs_page \<Rightarrow> jobs_page \<times> build list" where
  "loadBuilds resp s =
     (case resp of
        None \<Rightarrow> (s, [])
      | Some r \<Rightarrow>
          (case bp_meta r of
             None \<Rightarrow> (s\<lparr>newestID := None, oldestID := None, hasMore := False\<rparr>, sortBuilds (data_of r))
           | Some m \<Rightarrow> (s\<lparr>newestID := nz (newest_id m), oldestID := nz (oldest_id m), hasMore := has_more m\<rparr>,
                        sortBuilds (data_of r))))"

text \<open>
  The requests for newer and for older builds are sent with a cursor only (\<open>None\<close>: nothing is sent); the
  answers move it.
\<close>

definition fetchNewBuilds_after :: "jobs_page \<Rightarrow> nat option" where
  "fetchNewBuilds_after s = newestID s"

definition fetchNewBuilds :: "build_page option \<Rightarrow> jobs_page \<Rightarrow> jobs_page \<times> build list option" where
  "fetchNewBuilds resp s =
     (case resp of
        None \<Rightarrow> (s, None)
      | Some r \<Rightarrow>
          (case Option.bind (bp_meta r) (\<lambda>m. nz (newest_id m)) of
             Some n \<Rightarrow> (s\<lparr>newestID := Some n\<rparr>, Some (data_of r))
           | None \<Rightarrow> (s, Some (data_of r))))"

definition terminal_status :: "string list" where
  "terminal_status = [''succeeded'', ''failed'', ''cancelled'']"

definition trim_builds :: "build list \<Rightarrow> build list" where
  "trim_builds merged =
     (if length merged \<le> buildListCap then merged
      else (let active = filter (\<lambda>b. bstatus b \<notin> set terminal_status) merged;
                finished = filter (\<lambda>b. bstatus b \<in> set terminal_status) merged
            in sortBuilds (take buildListCap (active @ finished))))"

definition fetchMoreBuilds_before :: "jobs_page \<Rightarrow> nat option" where
  "fetchMoreBuilds_before s = (if hasMore s then oldestID s else None)"

definition fetchMoreBuilds :: "build_page option \<Rightarrow> jobs_page \<Rightarrow> jobs_page" where
  "fetchMoreBuilds resp s =
     (case resp of
        None \<Rightarrow> s
      | Some r \<Rightarrow>
          (let s1 = (case bp_meta r of
                       None \<Rightarrow> s
                     | Some m \<Rightarrow> s\<lparr>oldestID := (case nz (oldest_id m) of Some i \<Rightarrow> Some i | None \<Rightarrow> oldestID s),
                                   hasMore := has_more m\<rparr>)
           in if data_of r = [] then s1
              else s1\<lparr>builds := trim_builds (sortBuilds (builds s1 @ unseen bid (builds s1) (data_of r)))\<rparr>))"

section \<open>Opening a build\<close>

definition build_url :: "page \<Rightarrow> int option \<Rightarrow> build \<Rightarrow> string" where
  "build_url pg ver b =
     ''/teams/'' @ tcan pg @ ''/pipelines/'' @ pname pg @ ''/jobs/'' @ jname pg @ ''/builds/'' @ build_number b
     @ (case ver of Some v \<Rightarrow> ''?version='' @ int_str v | None \<Rightarrow> '''')"

definition doActivate :: "page \<Rightarrow> bool \<Rightarrow> int option \<Rightarrow> nat option \<Rightarrow> build list \<Rightarrow> jobs_page \<Rightarrow> jobs_page" where
  "doActivate pg embedded ver requestedID buildList s =
     (case selectActiveBuild buildList requestedID of
        None \<Rightarrow> s
      | Some active \<Rightarrow>
          (let s1 = s\<lparr>activeBuildID := Some (bid active)\<rparr>
           in if embedded then s1 else s1\<lparr>replaced_urls := replaced_urls s1 @ [build_url pg ver active]\<rparr>))"

definition onTabClick :: "page \<Rightarrow> bool \<Rightarrow> int option \<Rightarrow> build \<Rightarrow> jobs_page \<Rightarrow> jobs_page" where
  "onTabClick pg embedded ver b s =
     (let s1 = s\<lparr>activeBuildID := Some (bid b)\<rparr>
      in if embedded then s1 else s1\<lparr>replaced_urls := replaced_urls s1 @ [build_url pg ver b]\<rparr>)"

section \<open>Refreshing\<close>

definition nonTerminal :: "string list" where
  "nonTerminal = [''pending'', ''started'', ''waiting_for_approval'']"

text \<open>\<open>new Map(data.map(b => [b.id, b]))\<close>: the last entry of an id wins.\<close>

definition freshMap :: "build list \<Rightarrow> nat \<Rightarrow> build option" where
  "freshMap bs i = map_of (rev (map (\<lambda>b. (bid b, b)) bs)) i"

definition refresh_stale :: "build list \<Rightarrow> build list \<Rightarrow> build list" where
  "refresh_stale news prev = filter (\<lambda>b. bstatus b \<in> set nonTerminal \<and> freshMap news (bid b) = None) prev"

definition refresh_merge :: "build list \<Rightarrow> build list \<Rightarrow> build list" where
  "refresh_merge news prev =
     (if news \<noteq> [] then sortBuilds (map (\<lambda>b. case freshMap news (bid b) of Some f \<Rightarrow> f | None \<Rightarrow> b) prev) else prev)"

text \<open>The new state and the builds that are requested one by one.\<close>

definition refreshActiveBuild :: "build_page option \<Rightarrow> jobs_page \<Rightarrow> jobs_page \<times> build list" where
  "refreshActiveBuild resp s =
     (case resp of
        None \<Rightarrow> (s, [])
      | Some r \<Rightarrow> (s\<lparr>builds := refresh_merge (data_of r) (builds s)\<rparr>, refresh_stale (data_of r) (builds s)))"

text \<open>One build fetched again: \<open>setBuilds(p => sortBuilds(p.map(x => x.id === b.id ? b : x)))\<close>.\<close>

definition build_refetched :: "build option \<Rightarrow> jobs_page \<Rightarrow> jobs_page" where
  "build_refetched resp s =
     (case resp of None \<Rightarrow> s | Some b \<Rightarrow> s\<lparr>builds := sortBuilds (replace_by bid b (builds s))\<rparr>)"

definition with_details :: "build \<Rightarrow> build \<Rightarrow> build" where
  "with_details e full = e\<lparr>bsteps := bsteps full, approvals := approvals full,
     version_metadata := version_metadata full, pinned_versions := pinned_versions full\<rparr>"

definition onFullBuildFetched :: "build \<Rightarrow> jobs_page \<Rightarrow> jobs_page" where
  "onFullBuildFetched full s =
     s\<lparr>builds := sortBuilds (map (\<lambda>e. if bid e = bid full then with_details e full else e) (builds s))\<rparr>"

section \<open>Initial load, polling, retry\<close>

text \<open>
  The load, once the job is known, in the steps between its awaits: the start; with a version the answers of
  the paths (\<open>fetchTrackedBuilds\<close>); the first page; and, when the build asked for by number is not on it, that
  build. \<open>gone\<close> is the value of \<open>cancelled\<close> (the page was left) when an answer arrives; for the second answer
  it only guards \<open>setBuilds\<close>.
\<close>

definition find_number :: "string \<Rightarrow> build list \<Rightarrow> build option" where
  "find_number n bs = List.find (\<lambda>b. build_number b = n) bs"

definition init_start :: "int option \<Rightarrow> jobs_page \<Rightarrow> jobs_page" where
  "init_start ver s =
     (if ver \<noteq> None then s
      else s\<lparr>trackedBuildIDs := None, versionBanner := None, newestID := None, oldestID := None, hasMore := False\<rparr>)"

definition init_loaded :: "page \<Rightarrow> bool \<Rightarrow> int option \<Rightarrow> string option \<Rightarrow> build_page option \<Rightarrow> bool \<Rightarrow> jobs_page \<Rightarrow> jobs_page" where
  "init_loaded pg embedded ver wanted resp gone s =
     (let (s1, loaded) = loadBuilds resp s
      in if gone then s1
         else
           (let allBuilds = filterByTracked s1 loaded; s2 = s1\<lparr>builds := allBuilds\<rparr>
            in case wanted of
                 None \<Rightarrow> doActivate pg embedded ver None allBuilds s2
               | Some n \<Rightarrow>
                   if n = '''' then doActivate pg embedded ver None allBuilds s2
                   else (case find_number n allBuilds of
                           Some b \<Rightarrow> doActivate pg embedded ver (Some (bid b)) allBuilds s2
                         | None \<Rightarrow> s2\<lparr>awaiting := awaiting s2 @ [\<lparr>iw_page = pg, iw_embedded = embedded, iw_version = ver,
                                     iw_number = n, iw_list = allBuilds\<rparr>]\<rparr>)))"

definition init_single :: "init_wait \<Rightarrow> build option \<Rightarrow> bool \<Rightarrow> jobs_page \<Rightarrow> jobs_page" where
  "init_single w single gone s =
     (let allBuilds = (case single of
                         None \<Rightarrow> iw_list w
                       | Some b \<Rightarrow> filterByTracked s (sortBuilds (iw_list w @ [b])));
          s1 = (if single = None \<or> gone then s else s\<lparr>builds := allBuilds\<rparr>)
      in doActivate (iw_page w) (iw_embedded w) (iw_version w) (map_option bid (find_number (iw_number w) allBuilds)) allBuilds s1)"

text \<open>The answer to the \<open>i\<close>-th waiting load, which asked for build \<open>n\<close>.\<close>

definition init_resume :: "nat \<Rightarrow> string \<Rightarrow> build option \<Rightarrow> bool \<Rightarrow> jobs_page \<Rightarrow> jobs_page" where
  "init_resume i n single gone s =
     (if i < length (awaiting s) \<and> iw_number (awaiting s ! i) = n
      then init_single (awaiting s ! i) single gone (s\<lparr>awaiting := take i (awaiting s) @ drop (Suc i) (awaiting s)\<rparr>)
      else s)"

definition merge_new :: "build list \<Rightarrow> build list \<Rightarrow> build list" where
  "merge_new newBuilds prev = sortBuilds (unseen bid prev newBuilds @ prev)"

text \<open>
  A poll is the answers of the paths (with a version), the answer with the newer builds, and the final refresh;
  this is its middle step.
\<close>

definition pollBuilds :: "build_page option \<Rightarrow> jobs_page \<Rightarrow> jobs_page" where
  "pollBuilds resp s =
     (let (s1, newBuilds) = fetchNewBuilds resp s
      in case newBuilds of
           Some (b # bs) \<Rightarrow> s1\<lparr>builds := filterByTracked s1 (merge_new (b # bs) (builds s1))\<rparr>
         | _ \<Rightarrow> s1)"

text \<open>
  The retry handler, with the builds and the open build of the render that was clicked; \<open>snd\<close> is the build
  requested again. Without a cursor there is no request for newer builds, and \<open>resp\<close> is \<open>None\<close>.
\<close>

definition onRetry :: "build list \<Rightarrow> nat option \<Rightarrow> build_page option \<Rightarrow> jobs_page \<Rightarrow> jobs_page \<times> build option" where
  "onRetry shown active resp s =
     (let (s1, newBuilds) = fetchNewBuilds resp s;
          s2 = (case newBuilds of
                  Some (b # bs) \<Rightarrow> s1\<lparr>builds := merge_new (b # bs) (builds s1)\<rparr>
                | _ \<Rightarrow> s1)
      in (s2, List.find (\<lambda>b. Some (bid b) = active) shown))"

section \<open>Pausing, leaving and scrolling\<close>

text \<open>
  Pausing: the request, and when it succeeded (\<open>ok\<close>) the job is fetched again (\<open>resp\<close>). The flag of
  \<open>withLoading\<close> is set while the handler runs.
\<close>

definition pause_with :: "call \<Rightarrow> string \<Rightarrow> page \<Rightarrow> bool \<Rightarrow> job_data option \<Rightarrow> bool \<times> jobs_page \<Rightarrow> effect list \<times> bool \<times> jobs_page" where
  "pause_with req msg pg ok resp = withLoading (\<lambda>(loading, s).
     if \<not> ok then ([Request req], loading, s)
     else ([Request req, Toast msg, Request (fetchJob (tcan pg) (pname pg) (jname pg))], loading,
           case resp of Some j \<Rightarrow> s\<lparr>job := Some j\<rparr> | None \<Rightarrow> s))"

definition onPause :: "page \<Rightarrow> bool \<Rightarrow> job_data option \<Rightarrow> bool \<times> jobs_page \<Rightarrow> effect list \<times> bool \<times> jobs_page" where
  "onPause pg = pause_with (pauseJob (tcan pg) (pname pg) (jname pg)) ''Job paused'' pg"

definition onUnpause :: "page \<Rightarrow> bool \<Rightarrow> job_data option \<Rightarrow> bool \<times> jobs_page \<Rightarrow> effect list \<times> bool \<times> jobs_page" where
  "onUnpause pg = pause_with (unpauseJob (tcan pg) (pname pg) (jname pg)) ''Job unpaused'' pg"

definition onBackToPipeline :: "page \<Rightarrow> int option \<Rightarrow> string" where
  "onBackToPipeline pg ver =
     ''/teams/'' @ tcan pg @ ''/pipelines/'' @ pname pg @ (case ver of Some v \<Rightarrow> ''?version='' @ int_str v | None \<Rightarrow> '''')"

text \<open>The scroll listener of the tabs; the request \<open>fetchMoreBuilds\<close> sends, if any.\<close>

definition tabs_scroll :: "page \<Rightarrow> int \<Rightarrow> int \<Rightarrow> int \<Rightarrow> jobs_page \<Rightarrow> call list" where
  "tabs_scroll pg scrollLeft clientWidth scrollWidth s =
     (if scrollLeft + clientWidth \<ge> scrollWidth - 50
      then (case fetchMoreBuilds_before s of
              Some i \<Rightarrow> [fetchBuilds (tcan pg) (pname pg) (jname pg) (Some [(''before'', One (nat_str i))])]
            | None \<Rightarrow> [])
      else [])"

section \<open>Trigger form\<close>

record trigger_form =
  showInputModal :: bool
  inputFormValues :: "string jsobj"
  triggerLoading :: bool

definition trigger_defaults :: "job_input list \<Rightarrow> string jsobj" where
  "trigger_defaults is = foldl (\<lambda>ob inp. obj_set ob (inp_name inp) (input_default inp)) [] is"

text \<open>A job with inputs opens the form, another is triggered at once.\<close>

definition onTrigger :: "page \<Rightarrow> job_data option \<Rightarrow> trigger_form \<Rightarrow> trigger_form \<times> call list" where
  "onTrigger pg jd f =
     (if inputs_of jd \<noteq> []
      then (f\<lparr>inputFormValues := trigger_defaults (inputs_of jd), showInputModal := True\<rparr>, [])
      else (f\<lparr>triggerLoading := True\<rparr>, [triggerJob (tcan pg) (pname pg) (jname pg) None]))"

definition onInputSubmit :: "page \<Rightarrow> trigger_form \<Rightarrow> trigger_form \<times> call list" where
  "onInputSubmit pg f =
     (f\<lparr>showInputModal := False, triggerLoading := True\<rparr>,
      [triggerJob (tcan pg) (pname pg) (jname pg) (Some (inputFormValues f))])"

text \<open>The trigger request settled.\<close>

definition doTriggerWithInputs :: "bool \<Rightarrow> trigger_form \<Rightarrow> trigger_form \<times> effect list" where
  "doTriggerWithInputs ok f = (f\<lparr>triggerLoading := False\<rparr>, if ok then [Toast ''Job triggered''] else [])"

definition onInputChange :: "string \<Rightarrow> string \<Rightarrow> trigger_form \<Rightarrow> trigger_form" where
  "onInputChange nm v f = f\<lparr>inputFormValues := obj_set (inputFormValues f) nm v\<rparr>"

definition picked :: "string jsobj \<Rightarrow> string \<Rightarrow> string list" where
  "picked vals nm = (case map_of vals nm of
       Some v \<Rightarrow> if v \<noteq> '''' then filter (\<lambda>x. x \<noteq> '''') (split_on CHR '','' v) else []
     | None \<Rightarrow> [])"

definition onMultiSelectChange :: "string \<Rightarrow> string \<Rightarrow> bool \<Rightarrow> trigger_form \<Rightarrow> trigger_form" where
  "onMultiSelectChange nm option checked f =
     (let current = picked (inputFormValues f) nm;
          next = (if checked then current @ [option] else filter (\<lambda>v. v \<noteq> option) current)
      in f\<lparr>inputFormValues := obj_set (inputFormValues f) nm (join_with '','' next)\<rparr>)"

text \<open>\<open>(inputFormValues[inp.name] || '').split(',').includes(opt)\<close>: the box is shown checked.\<close>

definition shown_checked :: "trigger_form \<Rightarrow> string \<Rightarrow> string \<Rightarrow> bool" where
  "shown_checked f nm opt \<longleftrightarrow>
     opt \<in> set (split_on CHR '','' (case map_of (inputFormValues f) nm of Some v \<Rightarrow> v | None \<Rightarrow> ''''))"

definition inputsValid :: "job_data option \<Rightarrow> trigger_form \<Rightarrow> bool" where
  "inputsValid jd f =
     list_all (\<lambda>inp. inp_default inp \<noteq> None
       \<or> (case map_of (inputFormValues f) (inp_name inp) of None \<Rightarrow> False | Some v \<Rightarrow> v \<noteq> '''')) (inputs_of jd)"

section \<open>The page\<close>

definition input_field :: "trigger_form \<Rightarrow> job_input \<Rightarrow> job_action html" where
  "input_field f inp =
     (let nm = inp_name inp; v = (case map_of (inputFormValues f) nm of Some v \<Rightarrow> v | None \<Rightarrow> '''');
          options = (case inp_options inp of None \<Rightarrow> [] | Some os \<Rightarrow> os) in
      if inp_type inp = ''bool'' then
        El ''input'' ([(''type'', ''checkbox'')] @ (if v = ''true'' then [(''checked'', '''')] else [])) [(''onChange'', InputChange nm)] []
      else if options \<noteq> [] \<and> inp_multiple inp then
        El ''div'' [] [] (map (\<lambda>opt.
          El ''input'' ([(''type'', ''checkbox'')] @ (if shown_checked f nm opt then [(''checked'', '''')] else []))
            [(''onChange'', MultiSelectChange nm opt)] [Txt opt]) options)
      else if options \<noteq> [] then
        El ''select'' [(''value'', v)] [(''onChange'', InputChange nm)]
          (El ''option'' [(''value'', '''')] [] [Txt ''-- select --''] # map (\<lambda>opt. El ''option'' [(''value'', opt)] [] [Txt opt]) options)
      else if inp_type inp = ''number'' then
        El ''input'' [(''type'', ''number''), (''value'', v)] [(''onInput'', InputChange nm)] []
      else El ''input'' [(''type'', ''text''), (''value'', v)] [(''onInput'', InputChange nm)] [])"

definition input_modal :: "job_data \<Rightarrow> trigger_form \<Rightarrow> job_action html" where
  "input_modal jd f =
     El ''div'' [(''class'', ''modal d-block'')] []
       [El ''form'' [] [(''onSubmit'', InputSubmit)]
          ([Txt (''Trigger Job: '' @ jd_name jd), button ''close'' InputClose False '''']
           @ map (\<lambda>inp. El ''div'' [] []
               ([Txt (inp_name inp)] @ show_if (inp_default inp = None) [Txt ''*'']
                @ show_if (inp_description inp \<noteq> '''') [Txt (inp_description inp)] @ [input_field f inp])) (inputs_of (Some jd))
           @ [button ''cancel'' InputClose False ''Cancel'',
              El ''button'' ((''type'', ''submit'') # disabled_if (\<not> inputsValid (Some jd) f \<or> triggerLoading f)) []
                [Txt (if triggerLoading f then ''Triggering...'' else ''Trigger'')]])]"

definition BuildTab :: "nat option \<Rightarrow> build \<Rightarrow> job_action html" where
  "BuildTab active b =
     El ''div'' [(''class'', ''piko-build-tab '' @ (if Some (bid b) = active then ''active'' else '''')), (''id'', ''t-'' @ build_number b)]
       [(''onClick'', TabClick (bid b))]
       [Txt (''#'' @ build_number b), El ''span'' [(''class'', ''piko-tab-status status-'' @ bstatus b)] [] []]"

definition job_header :: "session \<Rightarrow> string \<Rightarrow> string \<Rightarrow> job_data option \<Rightarrow> bool \<Rightarrow> bool \<Rightarrow> bool \<Rightarrow> job_action html" where
  "job_header s tc jn jd trig paus unp =
     El ''div'' [] []
       (El ''h1'' [] [] [Txt (case jd of Some j \<Rightarrow> jd_name j | None \<Rightarrow> jn)] #
        show_if (hasTeamRole s tc ''write'')
          (if (case jd of Some j \<Rightarrow> jd_paused j | None \<Rightarrow> False)
           then [button ''Unpause job'' UnpauseJob unp (if unp then ''Unpausing...'' else ''Unpause Job'')]
           else [button ''Trigger job'' TriggerJob trig (if trig then ''Triggering...'' else ''Trigger Job''),
                 button ''Pause job'' PauseJob paus (if paus then ''Pausing...'' else ''Pause Job'')]))"

definition version_banner :: "int option \<Rightarrow> bool \<Rightarrow> jobs_page \<Rightarrow> job_action html list" where
  "version_banner ver embedded s =
     (case versionBanner s of
        Some (res, ref) \<Rightarrow>
          show_if (ver \<noteq> None \<and> \<not> embedded)
            [El ''div'' [(''id'', ''job-version-banner'')] []
               [Txt ''Tracking version'', Txt res, Txt ref,
                El ''a'' [(''id'', ''job-version-back'')] [(''onClick'', BackToPipeline)] [Txt ''Back to pipeline'']]]
      | None \<Rightarrow> [])"

definition JobBuilds_view :: "session \<Rightarrow> page \<Rightarrow> bool \<Rightarrow> int option \<Rightarrow> jobs_page \<Rightarrow> trigger_form \<Rightarrow> bool \<Rightarrow> bool \<Rightarrow> (nat \<Rightarrow> content_state) \<Rightarrow> job_action html" where
  "JobBuilds_view s pg embedded ver st f paus unp content =
     El ''div'' [] []
       ([job_header s (tcan pg) (jname pg) (job st) (triggerLoading f) paus unp]
        @ version_banner ver embedded st
        @ [El ''div'' [(''id'', ''builds-tabs'')] [] (map (BuildTab (activeBuildID st)) (builds st)),
           El ''div'' [(''id'', ''builds-content'')] []
             (map (\<lambda>b. El ''div'' [(''class'', if Some (bid b) \<noteq> activeBuildID st then ''piko-build-content d-none'' else ''piko-build-content '')] []
                (show_if (Some (bid b) = activeBuildID st) [BuildContent s (tcan pg) b (job st) (content (bid b))])) (builds st))]
        @ (case job st of
             Some j \<Rightarrow> show_if (showInputModal f \<and> jd_inputs j \<noteq> None) [input_modal j f]
           | None \<Rightarrow> []))"

section \<open>No build is listed twice\<close>

text \<open>Server pages list a build once.\<close>

definition page_ok :: "build_page option \<Rightarrow> bool" where
  "page_ok resp = (case resp of None \<Rightarrow> True | Some r \<Rightarrow> distinct (map bid (data_of r)))"

definition ids_distinct :: "jobs_page \<Rightarrow> bool" where
  "ids_distinct s \<longleftrightarrow> distinct (map bid (builds s))"

interpretation build_list: keyed bid with_details
  by unfold_locales (simp add: with_details_def)

lemma distinct_sortBuilds [simp]: "distinct (map bid (sortBuilds bs)) = distinct (map bid bs)"
  by (simp add: sortBuilds_def)

lemma set_sortBuilds [simp]: "set (sortBuilds bs) = set bs"
  by (simp add: sortBuilds_def)

lemma length_sortBuilds [simp]: "length (sortBuilds bs) = length bs"
  by (simp add: sortBuilds_def)

lemma distinct_filterByTracked: "distinct (map bid bs) \<Longrightarrow> distinct (map bid (filterByTracked s bs))"
  by (simp add: filterByTracked_def build_list.filter_distinct split: option.splits)

lemma distinct_merge_new:
  "distinct (map bid prev) \<Longrightarrow> distinct (map bid news) \<Longrightarrow> distinct (map bid (merge_new news prev))"
  unfolding merge_new_def distinct_sortBuilds by (rule build_list.prepend_unseen_distinct)

lemma mset_ids_filter_parts:
  "mset (map f (filter P xs @ filter (\<lambda>x. \<not> P x) xs)) = mset (map f xs)"
  by (induction xs) auto

lemma distinct_trim: "distinct (map bid bs) \<Longrightarrow> distinct (map bid (trim_builds bs))"
proof -
  assume d: "distinct (map bid bs)"
  let ?P = "\<lambda>b. bstatus b \<notin> set terminal_status"
  have "distinct (map bid (filter ?P bs @ filter (\<lambda>x. \<not> ?P x) bs))"
    using d mset_ids_filter_parts [of bid ?P bs] by (metis mset_eq_imp_distinct_iff)
  then have "distinct (map bid (take buildListCap (filter ?P bs @ filter (\<lambda>x. \<not> ?P x) bs)))"
    by (simp only: take_map [symmetric] distinct_take)
  then show ?thesis using d by (simp add: trim_builds_def Let_def)
qed

lemma fetchTracked_builds [simp]: "builds (fetchTrackedBuilds jn rs s) = builds s"
  by (induction jn rs s rule: fetchTrackedBuilds.induct) (auto split: option.splits list.splits)

lemma fetchTracked_awaiting [simp]: "awaiting (fetchTrackedBuilds jn rs s) = awaiting s"
  by (induction jn rs s rule: fetchTrackedBuilds.induct) (auto split: option.splits list.splits)

lemma fetchNew_builds: "fetchNewBuilds resp s = (s', nb) \<Longrightarrow> builds s' = builds s \<and> trackedBuildIDs s' = trackedBuildIDs s
    \<and> awaiting s' = awaiting s \<and> (nb = Some bs \<longrightarrow> (\<exists>r. resp = Some r \<and> bs = data_of r))"
  by (auto simp: fetchNewBuilds_def split: if_splits option.splits)

lemma doActivate_builds [simp]: "builds (doActivate pg em ver req bl s) = builds s"
  by (auto simp: doActivate_def Let_def split: option.splits)

lemma doActivate_awaiting [simp]: "awaiting (doActivate pg em ver req bl s) = awaiting s"
  by (auto simp: doActivate_def Let_def split: option.splits)

lemma onTabClick_builds [simp]: "builds (onTabClick pg em ver b s) = builds s" "awaiting (onTabClick pg em ver b s) = awaiting s"
  by (simp_all add: onTabClick_def Let_def)

lemma loadBuilds_data: "loadBuilds resp s = (s', bs) \<Longrightarrow>
   builds s' = builds s \<and> trackedBuildIDs s' = trackedBuildIDs s \<and> awaiting s' = awaiting s
   \<and> bs = (case resp of None \<Rightarrow> [] | Some r \<Rightarrow> sortBuilds (data_of r))"
  by (auto simp: loadBuilds_def split: option.splits)

lemma freshMap_id: "freshMap bs i = Some f \<Longrightarrow> bid f = i \<and> f \<in> set bs"
  unfolding freshMap_def by (auto dest!: map_of_SomeD)

lemma freshMap_None: "freshMap bs i = None \<longleftrightarrow> i \<notin> bid ` set bs"
  unfolding freshMap_def by (auto simp: map_of_eq_None_iff image_iff)

lemma refresh_merge_ids: "mset (map bid (refresh_merge news prev)) = mset (map bid prev)"
proof -
  have "map bid (map (\<lambda>b. case freshMap news (bid b) of Some f \<Rightarrow> f | None \<Rightarrow> b) prev) = map bid prev"
    by (auto split: option.splits dest: freshMap_id)
  from arg_cong [OF this, of mset] show ?thesis
    by (simp add: refresh_merge_def sortBuilds_def multiset.map_comp)
qed

lemma freshMap_find: "distinct (map bid bs) \<Longrightarrow> freshMap bs i = List.find (\<lambda>f. bid f = i) bs"
proof (cases "List.find (\<lambda>f. bid f = i) bs")
  case None
  then have "freshMap bs i = None" by (auto simp: freshMap_None find_None_iff)
  then show ?thesis using None by simp
next
  case (Some f)
  assume d: "distinct (map bid bs)"
  from Some have "f \<in> set bs" "bid f = i" by (auto simp: find_Some_iff)
  then have "freshMap bs i = Some f"
    using d by (simp add: freshMap_def map_of_eq_Some_iff rev_map [symmetric] comp_def image_iff)
  with Some show ?thesis by simp
qed

datatype job_event =
    InitStart "int option"
  | Tracked string "version_path option list"
  | InitLoaded page bool "int option" "string option" "build_page option" bool
  | InitSingle nat string "build option" bool
  | Poll "build_page option"
  | More "build_page option"
  | Refresh "build_page option"
  | Refetched "build option"
  | FullFetched build
  | Retry "build list" "nat option" "build_page option"
  | Tab page bool "int option" build

definition job_step :: "jobs_page \<Rightarrow> job_event \<Rightarrow> jobs_page" where
  "job_step s e =
     (case e of
        InitStart ver \<Rightarrow> init_start ver s
      | Tracked jn paths \<Rightarrow> fetchTrackedBuilds jn paths s
      | InitLoaded pg em ver wanted resp gone \<Rightarrow> init_loaded pg em ver wanted resp gone s
      | InitSingle i n single gone \<Rightarrow> init_resume i n single gone s
      | Poll resp \<Rightarrow> pollBuilds resp s
      | More resp \<Rightarrow> fetchMoreBuilds resp s
      | Refresh resp \<Rightarrow> fst (refreshActiveBuild resp s)
      | Refetched b \<Rightarrow> build_refetched b s
      | FullFetched b \<Rightarrow> onFullBuildFetched b s
      | Retry shown active resp \<Rightarrow> fst (onRetry shown active resp s)
      | Tab pg em ver b \<Rightarrow> onTabClick pg em ver b s)"

text \<open>
  What is known of the answers, with the numbers \<open>num\<close> the builds have on the server: a page lists a build
  once, an initial page shows the numbers, and the build fetched by number is one with that number.
\<close>

definition event_ok :: "(nat \<Rightarrow> string) \<Rightarrow> job_event \<Rightarrow> bool" where
  "event_ok num e =
     (case e of
        InitLoaded pg em ver wanted resp gone \<Rightarrow>
          page_ok resp \<and> (\<forall>b \<in> set (case resp of None \<Rightarrow> [] | Some r \<Rightarrow> data_of r). build_number b = num (bid b))
      | InitSingle i n single gone \<Rightarrow> (case single of None \<Rightarrow> True | Some b \<Rightarrow> num (bid b) = n)
      | Poll resp \<Rightarrow> page_ok resp
      | More resp \<Rightarrow> page_ok resp
      | Retry shown active resp \<Rightarrow> page_ok resp
      | _ \<Rightarrow> True)"

definition wait_ok :: "(nat \<Rightarrow> string) \<Rightarrow> init_wait \<Rightarrow> bool" where
  "wait_ok num w \<longleftrightarrow> distinct (map bid (iw_list w)) \<and> iw_number w \<notin> num ` bid ` set (iw_list w)"

definition list_ok :: "(nat \<Rightarrow> string) \<Rightarrow> jobs_page \<Rightarrow> bool" where
  "list_ok num s \<longleftrightarrow> ids_distinct s \<and> (\<forall>w \<in> set (awaiting s). wait_ok num w)"

lemma find_number_None: "find_number n bs = None \<longleftrightarrow> (\<forall>b \<in> set bs. build_number b \<noteq> n)"
  by (auto simp: find_number_def find_None_iff)

lemma set_filterByTracked: "set (filterByTracked s bs) \<subseteq> set bs"
  by (auto simp: filterByTracked_def split: option.splits)

lemma loaded_ok:
  assumes "event_ok num (InitLoaded pg em ver wanted resp gone)" and "list_ok num s"
  shows "list_ok num (init_loaded pg em ver wanted resp gone s)"
proof -
  obtain s1 loaded where l: "loadBuilds resp s = (s1, loaded)" by force
  have ld: "builds s1 = builds s" "awaiting s1 = awaiting s"
    "loaded = (case resp of None \<Rightarrow> [] | Some r \<Rightarrow> sortBuilds (data_of r))"
    using loadBuilds_data [OF l] by auto
  let ?all = "filterByTracked s1 loaded"
  have d: "distinct (map bid ?all)"
    using assms(1) by (intro distinct_filterByTracked) (auto simp: ld(3) event_ok_def page_ok_def split: option.splits)
  have "build_number b = num (bid b)" if "b \<in> set ?all" for b
    using that set_filterByTracked [of s1 loaded] assms(1) by (auto simp: ld(3) event_ok_def split: option.splits)
  then have "n \<notin> num ` bid ` set ?all" if "find_number n ?all = None" for n
    using that unfolding find_number_None by fastforce
  then show ?thesis
    unfolding init_loaded_def l Let_def prod.case list_ok_def ids_distinct_def
    using assms(2) d by (auto simp: ld list_ok_def ids_distinct_def wait_ok_def split: option.splits)
qed

lemma resume_ok:
  assumes "event_ok num (InitSingle i n single gone)" and "list_ok num s"
  shows "list_ok num (init_resume i n single gone s)"
proof (cases "i < length (awaiting s) \<and> iw_number (awaiting s ! i) = n")
  case True
  let ?w = "awaiting s ! i" let ?s = "s\<lparr>awaiting := take i (awaiting s) @ drop (Suc i) (awaiting s)\<rparr>"
  have w: "wait_ok num ?w" using True assms(2) by (simp add: list_ok_def)
  have "distinct (map bid (filterByTracked ?s (sortBuilds (iw_list ?w @ [b]))))" if "single = Some b" for b
  proof -
    have "bid b \<notin> bid ` set (iw_list ?w)" using w assms(1) that True by (auto simp: wait_ok_def event_ok_def)
    with w show ?thesis by (intro distinct_filterByTracked) (auto simp: wait_ok_def)
  qed
  moreover have "\<forall>v \<in> set (take i (awaiting s) @ drop (Suc i) (awaiting s)). wait_ok num v"
    using assms(2) by (auto simp: list_ok_def dest: in_set_takeD in_set_dropD)
  ultimately show ?thesis using True assms(2)
    by (auto simp: init_resume_def init_single_def Let_def list_ok_def ids_distinct_def split: option.splits)
qed (use assms(2) in \<open>auto simp: init_resume_def\<close>)

lemma more_distinct: "page_ok resp \<Longrightarrow> ids_distinct s \<Longrightarrow> ids_distinct (fetchMoreBuilds resp s)"
proof -
  assume "page_ok resp" "ids_distinct s"
  then have "distinct (map bid (trim_builds (sortBuilds (builds s @ unseen bid (builds s) (data_of r)))))" if "resp = Some r" for r
    using that build_list.append_unseen_distinct [of "builds s" "data_of r"]
    by (intro distinct_trim) (simp add: ids_distinct_def page_ok_def)
  with \<open>ids_distinct s\<close> show ?thesis
    by (auto simp: fetchMoreBuilds_def ids_distinct_def Let_def split: option.splits)
qed

lemma news_distinct:
  "page_ok resp \<Longrightarrow> ids_distinct s \<Longrightarrow> fetchNewBuilds resp s = (s', Some bs) \<Longrightarrow> distinct (map bid (merge_new bs (builds s')))"
  using fetchNew_builds [of resp s s' "Some bs" bs] by (auto simp: ids_distinct_def page_ok_def intro!: distinct_merge_new)

lemma poll_distinct: "page_ok resp \<Longrightarrow> ids_distinct s \<Longrightarrow> ids_distinct (pollBuilds resp s)"
proof -
  assume ok: "page_ok resp" "ids_distinct s"
  obtain s' nb where f: "fetchNewBuilds resp s = (s', nb)" by force
  have b: "builds s' = builds s" using fetchNew_builds [OF f] by auto
  have "distinct (map bid (filterByTracked s' (merge_new bs (builds s'))))" if "nb = Some bs" for bs
    using news_distinct [OF ok, of s' bs] f that by (intro distinct_filterByTracked) simp
  then show ?thesis using ok(2) b unfolding pollBuilds_def f Let_def prod.case ids_distinct_def
    by (simp split: option.split list.split)
qed

lemma retry_distinct: "page_ok resp \<Longrightarrow> ids_distinct s \<Longrightarrow> ids_distinct (fst (onRetry shown active resp s))"
proof -
  assume ok: "page_ok resp" "ids_distinct s"
  obtain s' nb where f: "fetchNewBuilds resp s = (s', nb)" by force
  have b: "builds s' = builds s" using fetchNew_builds [OF f] by auto
  have "distinct (map bid (merge_new bs (builds s')))" if "nb = Some bs" for bs
    using news_distinct [OF ok, of s' bs] f that by simp
  then show ?thesis using ok(2) b unfolding onRetry_def f Let_def prod.case ids_distinct_def
    by (simp split: option.split list.split)
qed

lemma refresh_distinct: "ids_distinct s \<Longrightarrow> ids_distinct (fst (refreshActiveBuild resp s))"
  using mset_eq_imp_distinct_iff [OF refresh_merge_ids]
  by (auto simp: refreshActiveBuild_def ids_distinct_def split: option.splits)

lemma full_distinct: "ids_distinct s \<Longrightarrow> ids_distinct (onFullBuildFetched full s)"
proof -
  have "map bid (map (\<lambda>e. if bid e = bid full then with_details e full else e) bs) = map bid bs" for bs
    by (rule build_list.upd_map_keys) auto
  then show "ids_distinct s \<Longrightarrow> ids_distinct (onFullBuildFetched full s)"
    by (simp add: onFullBuildFetched_def ids_distinct_def del: map_map)
qed

lemma refetched_distinct: "ids_distinct s \<Longrightarrow> ids_distinct (build_refetched b s)"
  by (simp add: build_refetched_def ids_distinct_def split: option.splits)

lemma awaiting_kept:
  "awaiting (pollBuilds resp s) = awaiting s" "awaiting (fetchMoreBuilds resp s) = awaiting s"
  "awaiting (fst (refreshActiveBuild resp s)) = awaiting s" "awaiting (build_refetched b s) = awaiting s"
  "awaiting (onFullBuildFetched full s) = awaiting s" "awaiting (fst (onRetry shown active resp s)) = awaiting s"
  by (auto simp: pollBuilds_def fetchNewBuilds_def fetchMoreBuilds_def refreshActiveBuild_def build_refetched_def
      onFullBuildFetched_def onRetry_def Let_def split: option.splits list.splits)

interpretation job_list: preserves job_step "event_ok num" "list_ok num" for num
proof
  fix s e assume inv: "list_ok num s" and ok: "event_ok num e"
  show "list_ok num (job_step s e)"
  proof (cases e)
    case (InitLoaded pg em ver wanted resp gone)
    then show ?thesis using loaded_ok inv ok by (simp add: job_step_def)
  next
    case (InitSingle i n single gone)
    then show ?thesis using resume_ok inv ok by (simp add: job_step_def)
  qed (use inv ok in \<open>simp_all add: job_step_def list_ok_def event_ok_def awaiting_kept init_start_def ids_distinct_def
         more_distinct [unfolded ids_distinct_def] poll_distinct [unfolded ids_distinct_def] retry_distinct [unfolded ids_distinct_def]
         refresh_distinct [unfolded ids_distinct_def] full_distinct [unfolded ids_distinct_def]
         refetched_distinct [unfolded ids_distinct_def]\<close>)
qed

section \<open>Cap, refresh, filter\<close>













definition tracked_only :: "jobs_page \<Rightarrow> bool" where
  "tracked_only s \<longleftrightarrow> (case trackedBuildIDs s of None \<Rightarrow> True | Some ids \<Rightarrow> \<forall>b \<in> set (builds s). bid b \<in> set ids)"

lemma filterByTracked_only:
  "set bs \<subseteq> set (filterByTracked s cs) \<Longrightarrow> tracked_only (s\<lparr>builds := bs\<rparr>)"
  by (auto simp: tracked_only_def filterByTracked_def split: option.splits)

lemma doActivate_tracked [simp]: "trackedBuildIDs (doActivate pg em ver req bl s) = trackedBuildIDs s"
  by (auto simp: doActivate_def Let_def split: option.splits)

section \<open>The trigger form\<close>

lemma picked_ne: "'''' \<notin> set (picked vals nm)"
  by (auto simp: picked_def split: option.splits)

lemma picked_no_comma: "x \<in> set (picked vals nm) \<Longrightarrow> CHR '','' \<notin> set x"
  by (auto simp: picked_def dest: split_on_no_sep split: option.splits if_splits)

lemma split_picks:
  "(\<forall>x \<in> set xs. CHR '','' \<notin> set x) \<Longrightarrow> x \<noteq> '''' \<Longrightarrow> x \<in> set (split_on CHR '','' (join_with '','' xs)) \<longleftrightarrow> x \<in> set xs"
  by (cases "xs = []") (auto simp: split_join)

lemma shown_picked: "x \<noteq> '''' \<Longrightarrow> shown_checked f nm x \<longleftrightarrow> x \<in> set (picked (inputFormValues f) nm)"
  by (auto simp: shown_checked_def picked_def split: option.splits)

lemma trigger_defaults_map:
  "distinct (map inp_name is) \<Longrightarrow> inp \<in> set is \<Longrightarrow> map_of (trigger_defaults is) (inp_name inp) = Some (input_default inp)"
proof (induction "is" rule: rev_induct)
  case (snoc x xs)
  then show ?case by (auto simp: trigger_defaults_def) (metis rev_image_eqI)
qed simp

section \<open>Properties\<close>

text \<open>
  C7. No build is listed twice: from the mount on, along every sequence of loads, polls, scrolls, refreshes,
  re-fetches, retries and clicks, in any order of their answers, the listed builds have pairwise different ids.
  The answers are those of a server on which each build has one number: a page lists a build once, an initial
  page shows the numbers, and a build fetched by number is one with that number.
\<close>

theorem builds_never_repeat:
  assumes "\<forall>e \<in> set es. event_ok num e"
  shows "distinct (map bid (builds (run job_step jobs_mount es)))"
proof -
  have "list_ok num jobs_mount" by (simp add: list_ok_def ids_distinct_def jobs_mount_def)
  from job_list.inv_run [OF this, of es] assms show ?thesis by (simp add: list_ok_def ids_distinct_def)
qed


text \<open>
  C8. A refresh keeps the list: its builds, with their ids, stay in their places (builds of the server carry no
  \<open>number\<close>, the field the sort looks at; with one the list is a reordering). A build the answer contains is
  replaced by the answer's, the others stay, nothing else of the page changes, and asked for again, in order, are
  exactly the builds that were active in the list and are missing from the answer.
\<close>

theorem refreshActiveBuild_exact:
  assumes "distinct (map bid (data_of r))"
    and "upd = (\<lambda>b. case List.find (\<lambda>f. bid f = bid b) (data_of r) of None \<Rightarrow> b | Some f \<Rightarrow> f)"
  shows "fst (refreshActiveBuild (Some r) s) = s\<lparr>builds := builds (fst (refreshActiveBuild (Some r) s))\<rparr>
    \<and> mset (builds (fst (refreshActiveBuild (Some r) s))) = mset (map upd (builds s))
    \<and> ((\<forall>b \<in> set (builds s) \<union> set (data_of r). number b = None) \<longrightarrow>
        builds (fst (refreshActiveBuild (Some r) s)) = map upd (builds s)
        \<and> map bid (builds (fst (refreshActiveBuild (Some r) s))) = map bid (builds s))
    \<and> snd (refreshActiveBuild (Some r) s) =
        filter (\<lambda>b. bstatus b \<in> {''pending'', ''started'', ''waiting_for_approval''} \<and> bid b \<notin> bid ` set (data_of r)) (builds s)"
proof -
  have fresh: "freshMap (data_of r) i = List.find (\<lambda>f. bid f = i) (data_of r)" for i
    by (rule freshMap_find [OF assms(1)])
  have b: "builds (fst (refreshActiveBuild (Some r) s)) = refresh_merge (data_of r) (builds s)"
    by (simp add: refreshActiveBuild_def)
  have m: "mset (refresh_merge (data_of r) (builds s)) = mset (map upd (builds s))"
    unfolding refresh_merge_def fresh assms(2) by (auto simp: sortBuilds_def comp_def option.case_eq_if)
  have "refresh_merge (data_of r) (builds s) = map upd (builds s)"
    if "\<forall>b \<in> set (builds s) \<union> set (data_of r). number b = None"
  proof -
    have "\<forall>b \<in> set (map upd (builds s)). number b = None"
      using that by (auto simp: assms(2) find_Some_iff split: option.splits)
    from sortBuilds_no_number [OF this] show ?thesis
      unfolding refresh_merge_def fresh assms(2) by (auto simp: option.case_eq_if)
  qed
  moreover have "map bid (map upd (builds s)) = map bid (builds s)"
    by (auto simp: assms(2) find_Some_iff split: option.splits)
  moreover have "snd (refreshActiveBuild (Some r) s) =
      filter (\<lambda>b. bstatus b \<in> {''pending'', ''started'', ''waiting_for_approval''} \<and> bid b \<notin> bid ` set (data_of r)) (builds s)"
    by (simp add: refreshActiveBuild_def refresh_stale_def nonTerminal_def freshMap_None)
  ultimately show ?thesis unfolding b using m by (simp add: refreshActiveBuild_def)
qed

text \<open>
  Every poll that brings builds restores the version filter: while tracked ids are known, only
  those builds are listed afterwards.
\<close>

theorem poll_filters_version:
  assumes "data_of r \<noteq> []"
  shows "tracked_only (pollBuilds (Some r) s)"
proof -
  obtain s2 where f: "fetchNewBuilds (Some r) s = (s2, Some (data_of r))"
    by (cases "Option.bind (bp_meta r) (\<lambda>m. nz (newest_id m))") (auto simp: fetchNewBuilds_def)
  have "pollBuilds (Some r) s = s2\<lparr>builds := filterByTracked s2 (merge_new (data_of r) (builds s2))\<rparr>"
    using assms unfolding pollBuilds_def Let_def f prod.case by (auto split: list.splits)
  then show ?thesis using filterByTracked_only [OF order.refl] by simp
qed

text \<open>
  Scrolling breaks the version filter: with build 1 tracked and alone in the list, a page of
  older builds adds the untracked build 2 (neither scrolling nor a retry filters its answer).
\<close>

definition demo_jobs_page :: jobs_page where
  "demo_jobs_page = \<lparr>builds = [demo_build 1 None ''3'' ''succeeded''], activeBuildID = Some 1, job = None,
     versionBanner = None, newestID = Some 1, oldestID = Some 1, hasMore = True, trackedBuildIDs = Some [1],
     replaced_urls = [], awaiting = []\<rparr>"

definition demo_page :: build_page where
  "demo_page = \<lparr>bp_data = Some [demo_build 2 None ''2'' ''failed''], bp_meta = None\<rparr>"

theorem scroll_breaks_version_filter:
  "tracked_only demo_jobs_page
   \<and> map bid (builds (fetchMoreBuilds (Some demo_page) demo_jobs_page)) = [1, 2]
   \<and> map bid (builds (fst (onRetry (builds demo_jobs_page) (Some 1) (Some demo_page) demo_jobs_page))) = [2, 1]"
  by code_simp

text \<open>
  A page left during its load still rewrites the address bar: when the build asked for by number
  arrives after the page was left, the list is not touched but the URL is replaced.
\<close>

theorem left_page_rewrites_url:
  "let s = init_loaded \<lparr>tcan = ''t'', pname = ''p'', jname = ''j''\<rparr> False None (Some ''9'')
             (Some \<lparr>bp_data = None, bp_meta = None\<rparr>) False (init_start None demo_jobs_page);
       s' = init_resume 0 ''9'' (Some (demo_build 5 None ''9'' ''failed'')) True s
   in builds s' = [] \<and> replaced_urls s' = [''/teams/t/pipelines/p/jobs/j/builds/9'']"
  by code_simp

text \<open>
  Multi-select boxes: for an option without commas, after a change the box shows what was chosen
  and no other option changes.
\<close>

theorem multi_select_box:
  assumes "option \<noteq> ''''" and "CHR '','' \<notin> set option" and "x \<noteq> ''''"
  shows "shown_checked (onMultiSelectChange nm option checked f) nm x \<longleftrightarrow>
    (if x = option then checked else shown_checked f nm x)"
proof -
  let ?n = "if checked then picked (inputFormValues f) nm @ [option]
     else filter (\<lambda>v. v \<noteq> option) (picked (inputFormValues f) nm)"
  have "\<forall>y \<in> set ?n. CHR '','' \<notin> set y" using assms(2) picked_no_comma by auto
  from split_picks [OF this assms(3)] have
    "shown_checked (onMultiSelectChange nm option checked f) nm x \<longleftrightarrow> x \<in> set ?n"
    by (simp add: shown_checked_def onMultiSelectChange_def Let_def)
  then show ?thesis using assms(3) by (auto simp: shown_picked)
qed

text \<open>
  The box of an option that contains a comma never shows as checked, whatever was chosen.
\<close>

theorem comma_option_never_checked:
  "CHR '','' \<in> set option \<Longrightarrow> \<not> shown_checked f nm option"
  by (auto simp: shown_checked_def dest: split_on_no_sep)

text \<open>
  The trigger form as it opens can be submitted exactly when every input has a default or is a
  switch or a number.
\<close>

theorem trigger_form_opens_valid_iff:
  assumes "distinct (map inp_name (inputs_of jd))" and "inputs_of jd \<noteq> []"
    and "\<forall>inp \<in> set (inputs_of jd). inp_default inp \<noteq> Some ''''"
  shows "inputsValid jd (fst (onTrigger pg jd f)) \<longleftrightarrow>
    (\<forall>inp \<in> set (inputs_of jd). inp_default inp \<noteq> None \<or> inp_type inp \<in> {''bool'', ''number''})"
  using assms trigger_defaults_map [OF assms(1)]
  by (auto simp: inputsValid_def onTrigger_def list_all_iff input_default_def split: option.splits if_splits)

section \<open>Examples\<close>

definition demo_events :: "job_event list" where
  "demo_events = [InitStart None, InitLoaded \<lparr>tcan = ''t'', pname = ''p'', jname = ''j''\<rparr> False None (Some ''9'') (Some demo_page) False,
     More (Some demo_page), InitSingle 0 ''9'' (Some (demo_build 5 None ''9'' ''failed'')) False]"

theorem builds_never_repeat_witness:
  "map bid (builds (run job_step jobs_mount demo_events)) = [2, 5]
    \<and> distinct (map bid (builds (run job_step jobs_mount demo_events)))"
proof
  show "map bid (builds (run job_step jobs_mount demo_events)) = [2, 5]" by code_simp
  show "distinct (map bid (builds (run job_step jobs_mount demo_events)))"
    by (rule builds_never_repeat [where num = "\<lambda>i. if i = 5 then ''9'' else ''2''"])
      (simp add: demo_events_def event_ok_def page_ok_def demo_page_def data_of_def demo_build_def)
qed


theorem refreshActiveBuild_exact_witness:
  "map bid (builds (fst (refreshActiveBuild (Some demo_page) demo_jobs_page))) = [1]"
  using refreshActiveBuild_exact [of demo_page, OF _ refl, of demo_jobs_page]
  by (simp add: demo_jobs_page_def demo_page_def data_of_def demo_build_def)

theorem poll_filters_version_witness:
  "tracked_only (pollBuilds (Some demo_page) demo_jobs_page)"
  by (rule poll_filters_version) (simp_all add: demo_page_def data_of_def)

definition demo_form :: trigger_form where
  "demo_form = \<lparr>showInputModal = True, inputFormValues = [(''env'', ''dev,qa'')], triggerLoading = False\<rparr>"

theorem multi_select_box_witness:
  "shown_checked (onMultiSelectChange ''env'' ''prod'' True demo_form) ''env'' ''prod''"
  using multi_select_box [of "''prod''" "''prod''" "''env''" True demo_form] by simp

theorem comma_option_never_checked_witness:
  "\<not> shown_checked (onMultiSelectChange ''env'' ''a,b'' True demo_form) ''env'' ''a,b''"
  by (rule comma_option_never_checked) simp

definition demo_jobdata :: "job_data option" where
  "demo_jobdata = Some \<lparr>jd_name = ''j'', jd_paused = False, jd_plan = None, approve_count = 0, disable_retry = False,
     jd_inputs = Some [\<lparr>inp_name = ''env'', inp_type = ''string'', inp_default = None, inp_description = '''',
       inp_options = None, inp_multiple = False\<rparr>]\<rparr>"

theorem trigger_form_opens_valid_iff_witness:
  "\<not> inputsValid demo_jobdata (fst (onTrigger \<lparr>tcan = ''t'', pname = ''p'', jname = ''j''\<rparr> demo_jobdata demo_form))"
proof -
  have "distinct (map inp_name (inputs_of demo_jobdata))" "inputs_of demo_jobdata \<noteq> []"
    "\<forall>inp \<in> set (inputs_of demo_jobdata). inp_default inp \<noteq> Some ''''"
    by (simp_all add: demo_jobdata_def inputs_of_def)
  from trigger_form_opens_valid_iff [OF this] show ?thesis by (simp add: demo_jobdata_def inputs_of_def)
qed

end
