(* ===== verification/PipelineListState.thy ===== *)
theory PipelineListState
  imports PipelineTree JobBuilds
begin

text \<open>
  The state of the \<open>PipelineListView\<close> component: the selected resource and job, the version scope,
  the menus and the collapsed groups, with what is kept in \<open>localStorage\<close> and in the URL. The parent
  page is seen through its callbacks, which are entries of an effect log.

  \<open>statusMap\<close> holds the very objects of \<open>jobsData\<close>, and the version scope assigns to their fields: the
  render step therefore returns the changed \<open>jobsData\<close> too (\<open>scoped_status\<close>).
\<close>

section \<open>State\<close>

text \<open>A job summary; the object made for a job that is not in the list has no name.\<close>

record job_row =
  jr_name :: "string option"
  latest_status :: string
  has_running :: bool
  jr_paused :: bool

definition no_row :: job_row where
  "no_row = \<lparr>jr_name = None, latest_status = '''', has_running = False, jr_paused = False\<rparr>"

datatype list_effect = ClearScope | Track string int string | RefreshResources | Call call | SayOk string | SayError string

record list_view =
  selectedResource :: "string option"
  selectedJob :: "string option"
  jobsData :: "job_row list"
  resourceMenuOpen :: bool
  versionMenuOpen :: bool
  recentVersions :: "(nat \<times> string \<times> string) list option" \<comment> \<open>id, label, status\<close>
  scopedVersionID :: "int option"
  scopedVersionRef :: "string option"
  versionChainJobs :: "string list option"
  versionBuildMap :: "build jsobj option"
  collapsedGroups :: "string list" \<comment> \<open>the keys whose value is true\<close>
  saved_resource :: "string option"
  saved_job :: "string option"
  saved_collapsed :: "string list option"
  urls :: "string list"

definition list_mount :: "pipeline \<Rightarrow> string option \<Rightarrow> string option \<Rightarrow> string list option \<Rightarrow> list_view" where
  "list_mount p sres sjob scol =
     (let trig = findTriggerResources p in
      \<lparr>selectedResource = (case sres of
          Some r \<Rightarrow> if r \<noteq> '''' \<and> r \<in> set trig then Some r else (if trig \<noteq> [] then Some (hd trig) else None)
        | None \<Rightarrow> (if trig \<noteq> [] then Some (hd trig) else None)),
       selectedJob = None, jobsData = [], resourceMenuOpen = False, versionMenuOpen = False, recentVersions = None,
       scopedVersionID = None, scopedVersionRef = None, versionChainJobs = None, versionBuildMap = None,
       collapsedGroups = (case scol of None \<Rightarrow> [] | Some c \<Rightarrow> c),
       saved_resource = sres, saved_job = sjob, saved_collapsed = scol, urls = []\<rparr>)"

definition chainJobs :: "pipeline \<Rightarrow> list_view \<Rightarrow> string list" where
  "chainJobs p s =
     (case versionChainJobs s of
        Some js \<Rightarrow> js
      | None \<Rightarrow> (case selectedResource s of Some r \<Rightarrow> resolveChain p r | None \<Rightarrow> []))"

section \<open>Jobs\<close>

definition fetchJobsData :: "job_row list option \<Rightarrow> list_view \<Rightarrow> list_view" where
  "fetchJobsData resp s = (case resp of None \<Rightarrow> s | Some js \<Rightarrow> s\<lparr>jobsData := js\<rparr>)"

definition buildStatusMap :: "job_row list \<Rightarrow> job_row jsobj" where
  "buildStatusMap js = foldl (\<lambda>m j. obj_set m (case jr_name j of Some n \<Rightarrow> n | None \<Rightarrow> ''undefined'') j) [] js"

definition selectJob :: "string \<Rightarrow> string \<Rightarrow> int option \<Rightarrow> string \<Rightarrow> list_view \<Rightarrow> list_view" where
  "selectJob tc pn trackedVID nm s =
     (let path = ''/teams/'' @ tc @ ''/pipelines/'' @ pn @ ''/jobs/'' @ nm @ ''/builds'' in
      s\<lparr>selectedJob := Some nm, saved_job := Some nm,
        urls := urls s @ [path] @ (case trackedVID of
            Some v \<Rightarrow> if v \<noteq> 0 then [path @ ''?version='' @ int_str v] else [] | None \<Rightarrow> [])\<rparr>)"

text \<open>The job opened at first: the saved one, else the first with a status other than succeeded.\<close>

definition not_green :: "job_row jsobj \<Rightarrow> string \<Rightarrow> bool" where
  "not_green m nm = (case map_of m nm of None \<Rightarrow> False | Some d \<Rightarrow> latest_status d \<noteq> '''' \<and> latest_status d \<noteq> ''succeeded'')"

definition first_pick :: "string list \<Rightarrow> job_row list \<Rightarrow> string option \<Rightarrow> string" where
  "first_pick chain js saved =
     (case saved of
        Some j \<Rightarrow> if j \<noteq> '''' \<and> j \<in> set chain then j
                  else (case List.find (not_green (buildStatusMap js)) chain of Some k \<Rightarrow> k | None \<Rightarrow> hd chain)
      | None \<Rightarrow> (case List.find (not_green (buildStatusMap js)) chain of Some k \<Rightarrow> k | None \<Rightarrow> hd chain))"

definition auto_select :: "pipeline \<Rightarrow> string \<Rightarrow> string \<Rightarrow> int option \<Rightarrow> list_view \<Rightarrow> list_view" where
  "auto_select p tc pn vid s =
     (if selectedJob s \<noteq> None \<or> chainJobs p s = [] \<or> jobsData s = [] then s
      else (let pick = first_pick (chainJobs p s) (jobsData s) (saved_job s)
            in if pick \<noteq> '''' then selectJob tc pn vid pick s else s))"

section \<open>Version scope\<close>

record scope_entry =
  se_job_name :: string
  se_build :: "build option"

record path_data =
  pd_path :: "scope_entry list option"
  pd_version :: "version option"

definition scope_vid :: "scope_entry list \<Rightarrow> nat option" where
  "scope_vid path = (case filter (\<lambda>i. i \<noteq> 0) (List.map_filter (\<lambda>en. Option.bind (se_build en) version_id) path) of
     [] \<Rightarrow> None | v # _ \<Rightarrow> Some v)"

definition scope_builds :: "scope_entry list \<Rightarrow> build jsobj" where
  "scope_builds path =
     foldl (\<lambda>m en. case se_build en of Some b \<Rightarrow> obj_set m (se_job_name en) b | None \<Rightarrow> m) [] path"

definition applyVersionScopeInternal :: "string \<Rightarrow> string \<Rightarrow> int option \<Rightarrow> path_data \<Rightarrow> list_view \<Rightarrow> list_view" where
  "applyVersionScopeInternal tc pn vid pd s =
     (case pd_path pd of
        None \<Rightarrow> s
      | Some path \<Rightarrow>
          (let s1 = (case pd_version pd of
                       Some v \<Rightarrow> if v = NoVersion then s else s\<lparr>scopedVersionRef := Some (js_string (versionRef v))\<rparr>
                     | None \<Rightarrow> s);
               s2 = (case scope_vid path of Some i \<Rightarrow> s1\<lparr>scopedVersionID := Some (int i)\<rparr> | None \<Rightarrow> s1);
               pathJobs = map se_job_name path;
               s3 = (if versionChainJobs s2 \<noteq> None then s2
                     else (case selectedJob s2 of
                             Some j \<Rightarrow> if j \<noteq> '''' \<and> j \<in> set pathJobs then selectJob tc pn vid j s2
                                       else if pathJobs \<noteq> [] then selectJob tc pn vid (hd pathJobs) s2 else s2
                           | None \<Rightarrow> if pathJobs \<noteq> [] then selectJob tc pn vid (hd pathJobs) s2 else s2))
           in s3\<lparr>versionChainJobs := Some pathJobs, versionBuildMap := Some (scope_builds path)\<rparr>))"

definition clearVersionScopeInternal :: "list_view \<Rightarrow> list_view" where
  "clearVersionScopeInternal s =
     s\<lparr>scopedVersionID := None, scopedVersionRef := None, versionChainJobs := None, versionBuildMap := None, recentVersions := None\<rparr>"

section \<open>Menus\<close>

definition onSelectResource :: "string \<Rightarrow> list_view \<Rightarrow> list_view \<times> list_effect list" where
  "onSelectResource canonical s =
     (let s1 = s\<lparr>resourceMenuOpen := False\<rparr> in
      if canonical = '''' \<or> Some canonical = selectedResource s then (s1, [])
      else ((clearVersionScopeInternal (s1\<lparr>selectedResource := Some canonical\<rparr>))\<lparr>saved_resource := Some canonical, selectedJob := None\<rparr>,
            [ClearScope]))"

definition toggleResourceMenu :: "list_view \<Rightarrow> list_view" where
  "toggleResourceMenu s = s\<lparr>resourceMenuOpen := \<not> resourceMenuOpen s\<rparr>"

definition fetchRecentVersions :: "string \<Rightarrow> string \<Rightarrow> list_view \<Rightarrow> list_effect list" where
  "fetchRecentVersions tc pn s =
     (case selectedResource s of
        None \<Rightarrow> [] | Some r \<Rightarrow> [Call (fetchResourceVersions tc pn r (Some [(''limit'', ''10'')]))])"

definition toggleVersionMenu :: "string \<Rightarrow> string \<Rightarrow> list_view \<Rightarrow> list_view \<times> list_effect list" where
  "toggleVersionMenu tc pn s =
     (s\<lparr>versionMenuOpen := \<not> versionMenuOpen s\<rparr>, if versionMenuOpen s then [] else fetchRecentVersions tc pn s)"

text \<open>The documents' click handlers that close an open menu.\<close>

definition outside_click :: "list_view \<Rightarrow> list_view" where
  "outside_click s = s\<lparr>resourceMenuOpen := False, versionMenuOpen := False\<rparr>"

text \<open>\<open>None\<close> is the entry for all versions; \<open>tracks\<close> tells whether the parent tracks versions.\<close>

definition onSelectVersion :: "string \<Rightarrow> string \<Rightarrow> bool \<Rightarrow> (int \<times> string) option \<Rightarrow> list_view \<Rightarrow> list_view \<times> list_effect list" where
  "onSelectVersion tc pn tracks choice s =
     (let s1 = s\<lparr>versionMenuOpen := False\<rparr>; r = (case selectedResource s of Some r \<Rightarrow> r | None \<Rightarrow> ''null'') in
      case choice of
        None \<Rightarrow> (clearVersionScopeInternal s1, [ClearScope])
      | Some (vid, ref) \<Rightarrow>
          (s1\<lparr>scopedVersionID := Some vid, scopedVersionRef := Some ref\<rparr>,
           if tracks then [Track r vid ref] else [Call (fetchVersionPath tc pn r (int_str vid) None)]))"

definition onCheckResource :: "string \<Rightarrow> string \<Rightarrow> bool \<Rightarrow> list_view \<Rightarrow> list_effect list" where
  "onCheckResource tc pn ok s =
     (case selectedResource s of
        None \<Rightarrow> []
      | Some r \<Rightarrow> Call (triggerResource tc pn r) #
          (if ok then [SayOk ''Resource check triggered'', RefreshResources] else [SayError ''Failed to trigger resource check'']))"

definition onToggleParallel :: "string \<Rightarrow> list_view \<Rightarrow> list_view" where
  "onToggleParallel gk s =
     (let nxt = (if gk \<in> set (collapsedGroups s) then filter (\<lambda>k. k \<noteq> gk) (collapsedGroups s)
                 else collapsedGroups s @ [gk])
      in s\<lparr>collapsedGroups := nxt, saved_collapsed := Some nxt\<rparr>)"

section \<open>Status of the rows\<close>

definition override_row :: "build \<Rightarrow> job_row \<Rightarrow> job_row" where
  "override_row b d = d\<lparr>latest_status := bstatus b, has_running := (bstatus b = ''started'' \<or> bstatus b = ''pending'')\<rparr>"

text \<open>
  The status map of one render, and \<open>jobsData\<close> after it: assigning to a field of an entry assigns to
  the object in \<open>jobsData\<close> it came from (the last one of that name).
\<close>

definition override_last :: "string \<Rightarrow> build \<Rightarrow> job_row list \<Rightarrow> job_row list" where
  "override_last nm b js =
     (let idx = filter (\<lambda>i. jr_name (js ! i) = Some nm) [0..<length js]
      in if idx = [] then js else js[last idx := override_row b (js ! last idx)])"

definition scope_one :: "job_row jsobj \<times> job_row list \<Rightarrow> string \<times> build \<Rightarrow> job_row jsobj \<times> job_row list" where
  "scope_one st e =
     (let old = (case map_of (fst st) (fst e) of Some d \<Rightarrow> d | None \<Rightarrow> no_row)
      in (obj_set (fst st) (fst e) (override_row (snd e) old), override_last (fst e) (snd e) (snd st)))"

definition scoped_status :: "list_view \<Rightarrow> job_row jsobj \<times> job_row list" where
  "scoped_status s =
     (case versionBuildMap s of
        None \<Rightarrow> (buildStatusMap (jobsData s), jobsData s)
      | Some m \<Rightarrow> foldl scope_one (buildStatusMap (jobsData s), jobsData s) m)"

definition render_list :: "list_view \<Rightarrow> list_view" where
  "render_list s = s\<lparr>jobsData := snd (scoped_status s)\<rparr>"

text \<open>\<open>statusMap[n] || { name: n, latest_status: '' }\<close>.\<close>

definition row_data :: "job_row jsobj \<Rightarrow> string \<Rightarrow> job_row" where
  "row_data m nm = (case map_of m nm of Some d \<Rightarrow> d | None \<Rightarrow> no_row\<lparr>jr_name := Some nm\<rparr>)"

definition row_status :: "job_row \<Rightarrow> string" where
  "row_status d = (if jr_paused d then ''paused'' else if has_running d then ''started'' else latest_status d)"

datatype list_action = PickJob "string option" | PickResource string | ResourceMenu | VersionMenu
  | PickVersion "(int \<times> string) option" | CheckNow | ToggleParallel string

definition renderJobRow :: "list_view \<Rightarrow> job_row \<Rightarrow> bool \<Rightarrow> list_action html" where
  "renderJobRow s d aligned =
     El ''div'' [(''class'', ''piko-job-row'' @ (if selectedJob s = jr_name d \<and> jr_name d \<noteq> None then '' active'' else '''') @ (if aligned then '' piko-fan-in-aligned'' else ''''))]
       [(''onClick'', PickJob (jr_name d))]
       [El ''div'' [(''class'', ''piko-job-row-dot piko-status-dot-'' @ row_status d)] [] [],
        El ''span'' [(''class'', ''piko-job-row-name'')] [] [Txt (case jr_name d of Some n \<Rightarrow> n | None \<Rightarrow> '''')]]"

record res_info =
  ri_canonical :: string
  ri_status :: string
  ri_version :: "(string \<times> string) list"
  ri_interval :: string
  ri_checked :: "string option" \<comment> \<open>relative time of the last check\<close>

definition renderVersionSelector :: "list_view \<Rightarrow> list_action html list" where
  "renderVersionSelector s =
     show_if (selectedResource s \<noteq> None)
       [El ''button'' [(''class'', ''piko-vsel-btn'')] [(''onClick'', VersionMenu)]
          [Txt (case scopedVersionRef s of Some r \<Rightarrow> if r \<noteq> '''' then r else ''All'' | None \<Rightarrow> ''All'')],
        El ''div'' [(''class'', ''piko-vsel-menu'' @ (if versionMenuOpen s then '' open'' else ''''))] []
          (El ''div'' [] [(''onClick'', PickVersion None)] [Txt ''All versions''] #
           map (\<lambda>(i, ref, st). El ''div'' [(''class'', ''piko-vsel-item'' @ (if scopedVersionID s = Some (int i) \<and> i \<noteq> 0 then '' active'' else ''''))]
               [(''onClick'', PickVersion (Some (int i, ref)))]
               [El ''span'' [(''class'', ''piko-vsel-dot piko-status-dot-'' @ st)] [] [], Txt ref])
             (case recentVersions s of None \<Rightarrow> [] | Some vs \<Rightarrow> vs))]"

definition renderResourceSelector :: "session \<Rightarrow> pipeline \<Rightarrow> res_info list \<Rightarrow> list_view \<Rightarrow> list_action html list" where
  "renderResourceSelector sn p ris s =
     (let trig = findTriggerResources p;
          info = (\<lambda>c. List.find (\<lambda>r. ri_canonical r = c) (rev ris));
          sel = Option.bind (selectedResource s) info in
      if trig = [] then [Txt ''No trigger resources'']
      else
        [El ''button'' [(''class'', ''piko-rsel-trigger'')] [(''onClick'', ResourceMenu)]
           (show_if (case sel of Some r \<Rightarrow> ri_status r \<noteq> '''' | None \<Rightarrow> False)
              [El ''span'' [(''class'', ''piko-rsel-dot piko-status-dot-'' @ (case sel of Some r \<Rightarrow> ri_status r | None \<Rightarrow> ''''))] [] []]
            @ [Txt (case selectedResource s of Some r \<Rightarrow> r | None \<Rightarrow> '''')]),
         El ''div'' [(''class'', ''piko-rsel-menu'' @ (if resourceMenuOpen s then '' open'' else ''''))] []
           (map (\<lambda>c. El ''div'' [(''class'', ''piko-rsel-option'' @ (if Some c = selectedResource s then '' active'' else ''''))]
              [(''onClick'', PickResource c)]
              [El ''span'' [(''class'', ''piko-rsel-dot piko-status-dot-'' @ (case info c of Some r \<Rightarrow> ri_status r | None \<Rightarrow> ''''))] [] [], Txt c]) trig)]
        @ renderVersionSelector s
        @ (case sel of
             Some r \<Rightarrow>
               [El ''span'' [] []
                  ((case ri_version r of (k, v) # _ \<Rightarrow> [Txt (k @ '': '' @ v)] | [] \<Rightarrow> [])
                   @ show_if (ri_interval r \<noteq> '''') [Txt (ri_interval r)]
                   @ (case ri_checked r of Some t \<Rightarrow> [Txt (''checked '' @ t)] | None \<Rightarrow> []))]
           | None \<Rightarrow> [El ''span'' [] [] []])
        @ show_if (truthy_str (jwt sn)) [El ''button'' [] [(''onClick'', CheckNow)] [Txt ''Check Now'']])"

section \<open>The page\<close>

text \<open>The number of members per status in the header of a group; an empty status is not shown.\<close>

definition group_counts :: "job_row jsobj \<Rightarrow> string list \<Rightarrow> nat jsobj" where
  "group_counts m jobNames =
     foldl (\<lambda>c n. let st = row_status (case map_of m n of Some d \<Rightarrow> d | None \<Rightarrow> no_row)
                  in obj_set c st ((case map_of c st of Some k \<Rightarrow> k | None \<Rightarrow> 0) + 1)) [] jobNames"

definition parallel_header :: "list_view \<Rightarrow> job_row jsobj \<Rightarrow> string list \<Rightarrow> list_action html" where
  "parallel_header s m jobNames =
     (let gk = join_with '','' (sort jobNames) in
      El ''div'' [(''class'', ''piko-parallel-header''), (''data-group'', gk)] [(''onClick'', ToggleParallel gk)]
        (Txt ((if gk \<in> set (collapsedGroups s) then ''>'' else ''v'') @ '' parallel'') #
         concat (map (\<lambda>(st, k). [El ''span'' [(''class'', ''piko-status-dot-'' @ st)] [] [], Txt (nat_str k)])
           (filter (\<lambda>(st, k). st \<noteq> '''') (group_counts m jobNames)))))"

fun node_html :: "list_view \<Rightarrow> job_row jsobj \<Rightarrow> node \<Rightarrow> list_action html list" where
  "node_html s m (Row n al) = [renderJobRow s (row_data m n) al]"
| "node_html s m (Group js ns) =
     [parallel_header s m js,
      El ''div'' [(''class'', ''piko-parallel-nested''),
          (''style'', if join_with '','' (sort js) \<in> set (collapsedGroups s) then ''display:none'' else '''')] []
        (concat (map (node_html s m) ns))]"
| "node_html s m (FanIn ss cs) =
     [El ''div'' [(''class'', ''piko-fan-in-section'')] [] (concat (map (node_html s m) ss)),
      El ''div'' [(''class'', ''piko-fan-in-cont'')] [] (concat (map (node_html s m) cs))]"

text \<open>
  The component as drawn: \<open>None\<close> when building the tree throws. The open job's page is mounted anew
  for another job or another tracked version.
\<close>

definition detail_key :: "string \<Rightarrow> int option \<Rightarrow> string" where
  "detail_key j trackedVID =
     j @ ''-'' @ (case trackedVID of Some v \<Rightarrow> if v \<noteq> 0 then int_str v else ''all'' | None \<Rightarrow> ''all'')"

definition PipelineListView_view :: "session \<Rightarrow> pipeline \<Rightarrow> res_info list \<Rightarrow> int option \<Rightarrow> list_view \<Rightarrow> list_action html list option" where
  "PipelineListView_view sn p ris trackedVID s =
     (case buildTree p (chainJobs p s) of
        Inl er \<Rightarrow> None
      | Inr t \<Rightarrow> map_option (\<lambda>ns.
          [El ''div'' [(''class'', ''piko-list-resource-bar'')] [] (renderResourceSelector sn p ris s),
           El ''div'' [(''class'', ''piko-job-list'')] [] (concat (map (node_html s (fst (scoped_status s))) ns)),
           El ''div'' [(''class'', ''piko-job-detail'')] []
             (case selectedJob s of
                Some j \<Rightarrow> show_if (j \<noteq> '''') [El ''JobBuilds'' [(''key'', detail_key j trackedVID), (''jn'', j)] [] []]
              | None \<Rightarrow> [])])
          (renderTree (selectedResource s) t))"

section \<open>Lemmas\<close>

lemma scope_fold_fst:
  "distinct (map fst m) \<Longrightarrow>
   map_of (fst (foldl scope_one st m)) n =
     (case map_of m n of
        None \<Rightarrow> map_of (fst st) n
      | Some b \<Rightarrow> Some (override_row b (case map_of (fst st) n of Some d \<Rightarrow> d | None \<Rightarrow> no_row)))"
proof (induction m arbitrary: st)
  case (Cons e m)
  obtain k b where e: "e = (k, b)" by (cases e)
  with Cons.prems have "map_of m k = None" by (simp add: map_of_eq_None_iff)
  with Cons show ?case by (auto simp: e scope_one_def Let_def split: option.splits)
qed simp

lemma scope_builds_distinct: "distinct (map fst (scope_builds path))"
proof -
  have "distinct (map fst (foldl (\<lambda>m en. case se_build en of Some b \<Rightarrow> obj_set m (se_job_name en) b | None \<Rightarrow> m) m path))"
    if "distinct (map fst m)" for m :: "build jsobj"
    using that by (induction path arbitrary: m) (auto simp: distinct_obj_set split: option.splits)
  then show ?thesis by (simp add: scope_builds_def)
qed

lemma first_pick_list:
  "chain \<noteq> [] \<Longrightarrow> first_pick chain js saved =
     hd (filter (\<lambda>j. j \<noteq> '''' \<and> saved = Some j) chain @ filter (not_green (buildStatusMap js)) chain @ chain)"
proof -
  assume ne: "chain \<noteq> []"
  have a: "(case List.find (not_green (buildStatusMap js)) chain of Some k \<Rightarrow> k | None \<Rightarrow> hd chain)
      = hd (filter (not_green (buildStatusMap js)) chain @ chain)"
    by (simp add: find_filter split: list.split)
  show ?thesis
  proof (cases "\<exists>j. saved = Some j \<and> j \<noteq> '''' \<and> j \<in> set chain")
    case True
    then obtain j where j: "saved = Some j" "j \<noteq> ''''" "j \<in> set chain" by blast
    then have "filter (\<lambda>k. k \<noteq> '''' \<and> saved = Some k) chain \<noteq> []" by (auto simp: filter_empty_conv)
    then have "hd (filter (\<lambda>k. k \<noteq> '''' \<and> saved = Some k) chain) = j"
      using hd_in_set [of "filter (\<lambda>k. k \<noteq> '''' \<and> saved = Some k) chain"] j(1) by auto
    with \<open>filter _ chain \<noteq> []\<close> j show ?thesis by (simp add: first_pick_def)
  next
    case False
    then have "filter (\<lambda>k. k \<noteq> '''' \<and> saved = Some k) chain = []" by (auto simp: filter_empty_conv)
    with False a show ?thesis by (auto simp: first_pick_def split: option.splits)
  qed
qed

lemma selectJob_fields [simp]:
  "selectedJob (selectJob tc pn vid j s) = Some j"
  "saved_job (selectJob tc pn vid j s) = Some j"
  "selectedResource (selectJob tc pn vid j s) = selectedResource s"
  "saved_resource (selectJob tc pn vid j s) = saved_resource s"
  "collapsedGroups (selectJob tc pn vid j s) = collapsedGroups s"
  "saved_collapsed (selectJob tc pn vid j s) = saved_collapsed s"
  by (simp_all add: selectJob_def Let_def)

lemma toggle_saved [simp]:
  "saved_resource (onToggleParallel k s) = saved_resource s"
  "saved_collapsed (onToggleParallel k s) = Some (collapsedGroups (onToggleParallel k s))"
  by (simp_all add: onToggleParallel_def Let_def)

lemma toggles_saved:
  "saved_resource (foldl (\<lambda>s k. onToggleParallel k s) s ks) = saved_resource s"
  "saved_collapsed s = Some (collapsedGroups s) \<Longrightarrow>
   saved_collapsed (foldl (\<lambda>s k. onToggleParallel k s) s ks) = Some (collapsedGroups (foldl (\<lambda>s k. onToggleParallel k s) s ks))"
  by (induction ks arbitrary: s) auto

text \<open>What the list offers; a check whenever someone is signed in.\<close>

definition row_actions :: "list_action set" where
  "row_actions = range PickJob \<union> range ToggleParallel"

lemma row_actions_mem [simp]:
  "PickJob j \<in> row_actions" "ToggleParallel k \<in> row_actions" "CheckNow \<notin> row_actions" "PickResource c \<notin> row_actions"
  by (auto simp: row_actions_def)

lemma live_all_concat: "live_all (concat xss) = concat (map live_all xss)"
  by (induction xss) simp_all

lemma live_texts_nil: "\<forall>h \<in> set hs. live h = [] \<Longrightarrow> live_all hs = []"
  by (induction hs) auto

lemma live_header_row: "live (parallel_header s m js) = [ToggleParallel (join_with '','' (sort js))]"
  by (auto simp: parallel_header_def Let_def intro!: live_texts_nil)

lemma live_nodes: "\<forall>a \<in> set (live_all (node_html s m n)). a \<in> row_actions"
  by (induction s m n rule: node_html.induct) (auto simp: renderJobRow_def live_header_row live_all_concat)

lemma live_versions: "set (live_all (renderVersionSelector s)) \<subseteq> insert VersionMenu (range PickVersion)"
  by (auto simp: renderVersionSelector_def live_all_map split: option.splits)

lemma live_selector:
  "set (live_all (renderResourceSelector sn p ris s)) =
     (if findTriggerResources p = [] then {} else
        {ResourceMenu} \<union> PickResource ` set (findTriggerResources p) \<union> set (live_all (renderVersionSelector s))
        \<union> (if truthy_str (jwt sn) then {CheckNow} else {}))"
  by (simp add: renderResourceSelector_def Let_def live_all_map split: option.split list.split)

lemma list_offers:
  assumes "PipelineListView_view sn p ris tv s = Some hs"
  shows "CheckNow \<in> set (live_all hs) \<longleftrightarrow> findTriggerResources p \<noteq> [] \<and> truthy_str (jwt sn)"
    and "PickResource c \<in> set (live_all hs) \<longleftrightarrow> c \<in> set (findTriggerResources p)"
proof -
  obtain m ns where hs: "set (live_all hs) = set (live_all (renderResourceSelector sn p ris s)) \<union> set (live_all (concat (map (node_html s m) ns)))"
    using assms by (auto simp: PipelineListView_view_def split: sum.splits option.splits)
  have n: "a \<notin> set (live_all (concat (map (node_html s m) ns)))" if "a \<notin> row_actions" for a
    using that live_nodes [of s m] by (auto simp: live_all_concat)
  have "CheckNow \<notin> set (live_all (renderVersionSelector s))" "PickResource c \<notin> set (live_all (renderVersionSelector s))"
    using live_versions [of s] by auto
  then show "CheckNow \<in> set (live_all hs) \<longleftrightarrow> findTriggerResources p \<noteq> [] \<and> truthy_str (jwt sn)"
    "PickResource c \<in> set (live_all hs) \<longleftrightarrow> c \<in> set (findTriggerResources p)"
    unfolding hs live_selector Un_iff using n by (auto split: if_splits)
qed

section \<open>Properties\<close>

text \<open>
  The job opened at first is the head of: the saved job if it is in the chain, then the chain's
  jobs whose last build did not succeed, then the chain; and it is the one stored for the next visit.
\<close>

theorem auto_select_priority:
  assumes "selectedJob s = None" and "chainJobs p s \<noteq> []" and "jobsData s \<noteq> []" and "'''' \<notin> set (chainJobs p s)"
  shows "\<exists>j \<in> set (chainJobs p s). selectedJob (auto_select p tc pn vid s) = Some j \<and> saved_job (auto_select p tc pn vid s) = Some j
    \<and> j = hd (filter (\<lambda>j. saved_job s = Some j) (chainJobs p s)
              @ filter (not_green (buildStatusMap (jobsData s))) (chainJobs p s) @ chainJobs p s)"
proof -
  let ?l = "filter (\<lambda>j. j \<noteq> '''' \<and> saved_job s = Some j) (chainJobs p s)
      @ filter (not_green (buildStatusMap (jobsData s))) (chainJobs p s) @ chainJobs p s"
  have f: "filter (\<lambda>j. j \<noteq> '''' \<and> saved_job s = Some j) (chainJobs p s) = filter (\<lambda>j. saved_job s = Some j) (chainJobs p s)"
    using assms(4) by (intro filter_cong) auto
  have "hd ?l \<in> set ?l" using assms(2) by (intro hd_in_set) simp
  then have in_c: "hd ?l \<in> set (chainJobs p s)" by auto
  then have "hd ?l \<noteq> ''''" using assms(4) by metis
  with in_c show ?thesis
    using assms(1-3) first_pick_list [OF assms(2), of "jobsData s" "saved_job s"]
    by (auto simp: auto_select_def selectJob_def Let_def f)
qed

text \<open>
  A version scope shows the statuses of the version's builds: a job with a build on the path shows
  that build's status, another job what it showed before.
\<close>

theorem scope_shows_build_status:
  assumes "versionBuildMap s = Some (scope_builds path)"
  shows "map_of (fst (scoped_status s)) n =
    (case map_of (scope_builds path) n of
       Some b \<Rightarrow> Some (override_row b (case map_of (buildStatusMap (jobsData s)) n of Some d \<Rightarrow> d | None \<Rightarrow> no_row))
     | None \<Rightarrow> map_of (buildStatusMap (jobsData s)) n)"
  using scope_fold_fst [OF scope_builds_distinct [of path], of "(buildStatusMap (jobsData s), jobsData s)" n] assms
  by (simp add: scoped_status_def split: option.splits)

definition scoped_demo :: list_view where
  "scoped_demo = (list_mount (demo_pipeline []) None None None)\<lparr>
     jobsData := [\<lparr>jr_name = Some ''deploy'', latest_status = ''succeeded'', has_running = False, jr_paused = False\<rparr>],
     versionBuildMap := Some [(''deploy'', demo_build 7 None ''3'' ''failed'')]\<rparr>"

text \<open>
  The statuses of a version scope outlive it: after the scope is cleared the list still shows the
  scoped build's status, because drawing assigned it to the objects of the job list.
\<close>

theorem scope_status_leaks:
  "latest_status (row_data (fst (scoped_status (clearVersionScopeInternal scoped_demo))) ''deploy'') = ''succeeded''
   \<and> latest_status (row_data (fst (scoped_status (clearVersionScopeInternal (render_list scoped_demo)))) ''deploy'') = ''failed''"
  by code_simp

text \<open>
  A job of the version's path that is not in the job list is drawn without a name, and clicking
  its row selects no job: the entry made for it has no \<open>name\<close>.
\<close>

theorem scoped_row_without_name:
  "renderJobRow s (row_data (fst (scoped_status (scoped_demo\<lparr>jobsData := []\<rparr>))) ''deploy'') False
   = El ''div'' [(''class'', ''piko-job-row'')] [(''onClick'', PickJob None)]
       [El ''div'' [(''class'', ''piko-job-row-dot piko-status-dot-failed'')] [] [], El ''span'' [(''class'', ''piko-job-row-name'')] [] [Txt '''']]"
  by (simp add: renderJobRow_def row_data_def scoped_status_def scoped_demo_def scope_one_def buildStatusMap_def
      override_row_def no_row_def row_status_def demo_build_def)

text \<open>
  What the user chose is restored: after choosing a resource, collapsing groups and opening a job
  of its chain, a fresh mount with the stored values shows that resource, those groups and, once the
  jobs are loaded, that job.
\<close>

theorem list_choices_restored:
  assumes "r \<in> set (findTriggerResources p)" and "r \<noteq> ''''" and "Some r \<noteq> selectedResource s"
    and "j \<in> set (resolveChain p r)" and "j \<noteq> ''''" and "js \<noteq> []"
  shows "let s1 = selectJob tc pn vid j (foldl (\<lambda>s k. onToggleParallel k s) (fst (onSelectResource r s)) (k # ks));
             s2 = list_mount p (saved_resource s1) (saved_job s1) (saved_collapsed s1);
             s3 = auto_select p tc pn vid (fetchJobsData (Some js) s2)
         in selectedResource s3 = Some r \<and> selectedJob s3 = Some j \<and> collapsedGroups s3 = collapsedGroups s1"
proof -
  define t where "t = foldl (\<lambda>s k. onToggleParallel k s) (fst (onSelectResource r s)) (k # ks)"
  have "saved_resource (fst (onSelectResource r s)) = Some r"
    using assms(2,3) by (simp add: onSelectResource_def Let_def)
  then have t: "saved_resource t = Some r" "saved_collapsed t = Some (collapsedGroups t)"
    by (simp_all add: t_def toggles_saved)
  let ?s2 = "list_mount p (saved_resource t) (Some j) (saved_collapsed t)"
  have m: "selectedResource ?s2 = Some r" "selectedJob ?s2 = None" "collapsedGroups ?s2 = collapsedGroups t"
    "saved_job ?s2 = Some j" "versionChainJobs ?s2 = None"
    using assms(1,2) by (simp_all add: list_mount_def Let_def t)
  then have c: "chainJobs p (?s2\<lparr>jobsData := js\<rparr>) = resolveChain p r" by (simp add: chainJobs_def)
  have "first_pick (resolveChain p r) js (Some j) = j" using assms(4,5) by (simp add: first_pick_def)
  then have "auto_select p tc pn vid (?s2\<lparr>jobsData := js\<rparr>) = selectJob tc pn vid j (?s2\<lparr>jobsData := js\<rparr>)"
    using assms(4-6) m c by (auto simp: auto_select_def Let_def)
  with m show ?thesis unfolding Let_def t_def [symmetric] by (simp add: fetchJobsData_def)
qed

section \<open>Examples\<close>

definition demo_two :: pipeline where
  "demo_two = demo_pipeline [demo_job ''a'' [get_passing ''r'' []], demo_job ''b'' [get_passing ''r'' [''a'']]]"

definition demo_rows :: "job_row list" where
  "demo_rows = [\<lparr>jr_name = Some ''a'', latest_status = ''succeeded'', has_running = False, jr_paused = False\<rparr>,
                \<lparr>jr_name = Some ''b'', latest_status = ''failed'', has_running = False, jr_paused = False\<rparr>]"

definition demo_list :: list_view where
  "demo_list = fetchJobsData (Some demo_rows) (list_mount demo_two None None None)"

lemma demo_two_facts: "findTriggerResources demo_two = [''git.r'']" "resolveChain demo_two ''git.r'' = [''a'', ''b'']"
  by code_simp+

theorem auto_select_priority_witness:
  "\<exists>j \<in> {''a'', ''b''}. selectedJob (auto_select demo_two ''t'' ''p'' None demo_list) = Some j"
proof -
  have c: "chainJobs demo_two demo_list = [''a'', ''b'']"
    by (simp add: chainJobs_def demo_list_def fetchJobsData_def list_mount_def demo_two_facts Let_def)
  have "selectedJob demo_list = None" "chainJobs demo_two demo_list \<noteq> []" "jobsData demo_list \<noteq> []" "'''' \<notin> set (chainJobs demo_two demo_list)"
    unfolding c by (simp_all add: demo_list_def fetchJobsData_def list_mount_def demo_rows_def Let_def)
  from auto_select_priority [OF this, of "''t''" "''p''" None] show ?thesis by (auto simp: c)
qed

theorem scope_shows_build_status_witness:
  "map_of (fst (scoped_status (demo_list\<lparr>versionBuildMap := Some (scope_builds [])\<rparr>))) ''zzz''
   = map_of (buildStatusMap (jobsData demo_list)) ''zzz''"
  by (subst scope_shows_build_status [of _ "[]"]) (simp_all add: scope_builds_def)

theorem list_choices_restored_witness:
  "selectedJob (auto_select demo_two ''t'' ''p'' None (fetchJobsData (Some demo_rows)
     (list_mount demo_two (Some ''git.r'') (Some ''b'') (Some [''x''])))) = Some ''b''"
proof -
  let ?s = "(list_mount demo_two None None None)\<lparr>selectedResource := None\<rparr>"
  have "''git.r'' \<in> set (findTriggerResources demo_two)" "''git.r'' \<noteq> ''''" "Some ''git.r'' \<noteq> selectedResource ?s"
    "''b'' \<in> set (resolveChain demo_two ''git.r'')" "''b'' \<noteq> ''''" "demo_rows \<noteq> []"
    by (simp_all add: demo_two_facts demo_rows_def)
  from list_choices_restored [OF this, of "''t''" "''p''" None "''x''" "[]"] show ?thesis
    by (simp add: Let_def selectJob_def onToggleParallel_def onSelectResource_def clearVersionScopeInternal_def list_mount_def)
qed

end
