(* ===== verification/PipelineGrid.thy ===== *)
theory PipelineGrid
  imports Html Endpoints UtilFns
begin

text \<open>
  \<open>PipelineList.js\<close>: the page of pipeline cards. Its state is the page number, the search and the
  sort, kept in the URL; the list and count of the last answer; what is typed ahead of the search;
  and the live switch. Lemmas: the URL round trip, the pager, landing on an existing page, and the
  status line of a card.
\<close>

section \<open>State in the URL\<close>

definition PAGE_SIZE :: nat where "PAGE_SIZE = 24"

definition SORTS :: "string jsobj" where
  "SORTS = [(''name'', ''Name''), (''created'', ''Newest'')]"

record list_state =
  pg_no :: int
  q :: string
  srt :: string

text \<open>
  Page numbers are integers here. JavaScript rounds those of \<open>2\<^sup>5\<^sup>3\<close> and more, and writes those of \<open>10\<^sup>2\<^sup>1\<close> and more
  with an exponent, which \<open>parseInt\<close> reads back as their first digit: what is said about URLs is about pages below that.
\<close>

definition readListState :: "string \<Rightarrow> list_state" where
  "readListState search =
     (let p = usp_parse search;
          pg = (case usp_get p ''page'' of None \<Rightarrow> None | Some t \<Rightarrow> js_parseInt t)
      in \<lparr>pg_no = (case pg of Some n \<Rightarrow> if n > 0 then n else 1 | None \<Rightarrow> 1),
          q = (case usp_get p ''q'' of Some t \<Rightarrow> t | None \<Rightarrow> ''''),
          srt = (case usp_get p ''sort'' of Some t \<Rightarrow> if t \<in> fst ` set SORTS then t else ''name'' | None \<Rightarrow> ''name'')\<rparr>)"

text \<open>The query part of the URL written to the history (empty when everything is at its default).\<close>

definition writeListState :: "list_state \<Rightarrow> string" where
  "writeListState st =
     (let p = (if pg_no st > 1 then [(''page'', int_str (pg_no st))] else [])
              @ (if q st \<noteq> '''' then [(''q'', q st)] else [])
              @ (if srt st \<noteq> ''name'' then [(''sort'', srt st)] else []);
          qs = usp_string p
      in if qs \<noteq> '''' then ''?'' @ qs else '''')"

section \<open>The page\<close>

record card =
  c_id :: nat
  c_name :: string
  c_canonical :: string
  c_public :: bool

record grid =
  ls :: list_state
  pipelines :: "card list"
  total :: "nat option" \<comment> \<open>\<open>meta\<close>\<close>
  typed :: string
  liveEnabled :: bool
  live_stored :: "string option" \<comment> \<open>the \<open>localStorage\<close> entry\<close>

definition grid_init :: "string \<Rightarrow> string option \<Rightarrow> grid" where
  "grid_init search stored =
     \<lparr>ls = readListState search, pipelines = [], total = None, typed = q (readListState search),
      liveEnabled = (stored = Some ''true''), live_stored = stored\<rparr>"

definition grid_request :: "string \<Rightarrow> grid \<Rightarrow> call" where
  "grid_request tc g = fetchPipelinesPage tc PAGE_SIZE (nat ((pg_no (ls g) - 1) * int PAGE_SIZE)) (q (ls g)) (srt (ls g))"

definition last_page :: "nat \<Rightarrow> nat" where
  "last_page n = (n + PAGE_SIZE - 1) div PAGE_SIZE"

text \<open>
  The answer to a request; \<open>stale\<close> once the state it was made for has changed. An empty page of a
  list that is not empty moves to the last page.
\<close>

definition grid_answer :: "bool \<Rightarrow> (card list \<times> nat option) option \<Rightarrow> grid \<Rightarrow> grid" where
  "grid_answer stale resp g =
     (if stale then g
      else (case resp of
              None \<Rightarrow> g
            | Some (data, m) \<Rightarrow>
                (case m of
                   Some n \<Rightarrow>
                     if pg_no (ls g) > 1 \<and> data = [] \<and> n > 0
                     then g\<lparr>ls := (ls g)\<lparr>pg_no := int (last_page n)\<rparr>\<rparr>
                     else g\<lparr>pipelines := data, total := m\<rparr>
                 | None \<Rightarrow> g\<lparr>pipelines := data, total := m\<rparr>)))"

text \<open>Typing, and the timer that applies what was typed after a pause (armed only on a difference).\<close>

definition grid_type :: "string \<Rightarrow> grid \<Rightarrow> grid" where
  "grid_type t g = g\<lparr>typed := t\<rparr>"

definition grid_apply :: "grid \<Rightarrow> grid" where
  "grid_apply g = (if typed g = q (ls g) then g else g\<lparr>ls := (ls g)\<lparr>q := typed g, pg_no := 1\<rparr>\<rparr>)"

definition setPage :: "int \<Rightarrow> grid \<Rightarrow> grid" where
  "setPage n g = g\<lparr>ls := (ls g)\<lparr>pg_no := n\<rparr>\<rparr>"

definition setSort :: "string \<Rightarrow> grid \<Rightarrow> grid" where
  "setSort nxt g = g\<lparr>ls := (ls g)\<lparr>srt := nxt, pg_no := 1\<rparr>\<rparr>"

definition toggleLive :: "grid \<Rightarrow> grid" where
  "toggleLive g =
     (let nxt = (\<not> liveEnabled g)
      in g\<lparr>liveEnabled := nxt, live_stored := Some (if nxt then ''true'' else ''false'')\<rparr>)"

definition pageCount :: "grid \<Rightarrow> nat" where
  "pageCount g = max 1 (last_page (case total g of Some n \<Rightarrow> n | None \<Rightarrow> 0))"

definition count_label :: "grid \<Rightarrow> string" where
  "count_label g =
     (case total g of
        None \<Rightarrow> ''''
      | Some n \<Rightarrow>
          if n = 0 then (if q (ls g) \<noteq> '''' then ''No pipelines match'' else ''No pipelines'')
          else int_str ((pg_no (ls g) - 1) * int PAGE_SIZE + 1) @ ''-''
               @ int_str ((pg_no (ls g) - 1) * int PAGE_SIZE + int (length (pipelines g))) @ '' of '' @ nat_str n)"

section \<open>Pager\<close>

datatype pager_item = Gap | PageLink nat bool \<comment> \<open>number, whether it is the current page\<close>

fun pager_loop :: "int \<Rightarrow> nat \<Rightarrow> nat list \<Rightarrow> nat \<Rightarrow> pager_item list" where
  "pager_loop page cnt [] lst = []"
| "pager_loop page cnt (n # ns) lst =
     (if n \<noteq> 1 \<and> n \<noteq> cnt \<and> \<bar>int n - page\<bar> > 1 then pager_loop page cnt ns lst
      else (if n - lst > 1 then [Gap] else []) @ [PageLink n (int n = page)] @ pager_loop page cnt ns n)"

text \<open>\<open>for (let n = 1; n <= pageCount; n++)\<close>.\<close>

definition pager_items :: "int \<Rightarrow> nat \<Rightarrow> pager_item list" where
  "pager_items page cnt = pager_loop page cnt [1..<Suc cnt] 0"

datatype grid_action = ToggleLive | NewPipeline | Typed | SortBy | GoPage int | OpenCard string

definition pager_item_view :: "pager_item \<Rightarrow> grid_action html" where
  "pager_item_view it =
     (case it of
        Gap \<Rightarrow> El ''li'' [(''class'', ''page-item disabled'')] [] [Txt ''...'']
      | PageLink n cur \<Rightarrow>
          El ''li'' [(''class'', ''page-item'' @ (if cur then '' active'' else ''''))] []
            [El ''a'' [] (if cur then [] else [(''onClick'', GoPage (int n))]) [Txt (nat_str n)]])"

definition Pager :: "int \<Rightarrow> nat \<Rightarrow> grid_action html" where
  "Pager page cnt =
     El ''ul'' [(''id'', ''pipelines-pager'')] []
       ([El ''li'' [(''class'', ''page-item'' @ (if page \<le> 1 then '' disabled'' else ''''))] []
           [El ''a'' [(''aria-label'', ''Previous'')] (if page > 1 then [(''onClick'', GoPage (page - 1))] else []) []]]
        @ map pager_item_view (pager_items page cnt)
        @ [El ''li'' [(''class'', ''page-item'' @ (if page \<ge> int cnt then '' disabled'' else ''''))] []
             [El ''a'' [(''aria-label'', ''Next'')] (if page < int cnt then [(''onClick'', GoPage (page + 1))] else []) []]])"

section \<open>Cards\<close>

datatype card_status = LastFailed | Running | LastWarning | LastPassed | NoBuilds

definition lower_char :: "char \<Rightarrow> char" where
  "lower_char c = (if (65::nat) \<le> of_char c \<and> of_char c \<le> (90::nat) then char_of ((of_char c :: nat) + 32) else c)"

text \<open>The fill attributes of the shapes of the graph, \<open>None\<close> when absent.\<close>

definition fill_of :: "string option \<Rightarrow> string" where
  "fill_of a = map lower_char (case a of None \<Rightarrow> '''' | Some f \<Rightarrow> f)"

record fills =
  hasFailed :: bool
  hasRunning :: bool
  hasSucceeded :: bool
  hasWarning :: bool

definition note_fill :: "fills \<Rightarrow> string option \<Rightarrow> fills" where
  "note_fill st a =
     (let f = fill_of a;
          st1 = (if f = ''#ff004d'' then st\<lparr>hasFailed := True\<rparr> else st);
          st2 = (if f = ''#ffa300'' then st1\<lparr>hasRunning := True\<rparr> else st1);
          st3 = (if f = ''#00a83a'' then st2\<lparr>hasSucceeded := True\<rparr> else st2)
      in if f = ''#fa8072'' then st3\<lparr>hasWarning := True\<rparr> else st3)"

definition card_fills :: "string option list \<Rightarrow> fills" where
  "card_fills as = foldl note_fill \<lparr>hasFailed = False, hasRunning = False, hasSucceeded = False, hasWarning = False\<rparr> as"

definition status_of :: "string option list \<Rightarrow> card_status" where
  "status_of as =
     (let st = card_fills as in
      if hasFailed st then LastFailed else if hasRunning st then Running
      else if hasWarning st then LastWarning else if hasSucceeded st then LastPassed else NoBuilds)"

text \<open>The text of the status line; \<open>ago\<close> is the relative time of the last build, if there was one.\<close>

definition updateStatusFromSVG :: "string option list \<Rightarrow> string option \<Rightarrow> string" where
  "updateStatusFromSVG as ago =
     (let t = (case ago of None \<Rightarrow> '''' | Some a \<Rightarrow> '' - '' @ a) in
      case status_of as of
        LastFailed \<Rightarrow> ''Last build failed'' @ t
      | Running \<Rightarrow> ''Running'' @ t
      | LastWarning \<Rightarrow> ''Last build warning'' @ t
      | LastPassed \<Rightarrow> ''Last build passed'' @ t
      | NoBuilds \<Rightarrow> ''No builds'')"

text \<open>
  The image of a card: an answer has an \<open>image\<close>, or a \<open>data\<close> that is the image or has one, or is
  itself a string; an empty string counts as absent. A failed request is \<open>None\<close>.
\<close>

datatype image_data = ImageText string | ImageObject "string option"

datatype image_answer = AnswerObject (ans_image: string) (ans_data: "image_data option") | AnswerText string

definition picked_image :: "image_answer \<Rightarrow> image_data option" where
  "picked_image resp =
     (case resp of
        AnswerObject img d \<Rightarrow>
          if img \<noteq> '''' then Some (ImageText img)
          else (case d of
                  Some (ImageObject (Some i)) \<Rightarrow> if i \<noteq> '''' then Some (ImageText i) else d
                | Some (ImageText t) \<Rightarrow> if t \<noteq> '''' then d else None
                | _ \<Rightarrow> d)
      | AnswerText t \<Rightarrow> Some (ImageText t))"

record card_view =
  dotSource :: "image_data option"
  status_line :: string
  card_svg :: "string option list option" \<comment> \<open>the fills of the drawn graph, \<open>svgRef\<close>\<close>

definition card_mount :: card_view where
  "card_mount = \<lparr>dotSource = None, status_line = ''Loading...'', card_svg = None\<rparr>"

definition fetchImage :: "image_answer option \<Rightarrow> card_view \<Rightarrow> card_view" where
  "fetchImage resp c =
     (case Option.bind resp picked_image of Some d \<Rightarrow> c\<lparr>dotSource := Some d\<rparr> | None \<Rightarrow> c)"

definition onSVGReady :: "string option list \<Rightarrow> string option \<Rightarrow> card_view \<Rightarrow> card_view" where
  "onSVGReady as ago c = c\<lparr>card_svg := Some as, status_line := updateStatusFromSVG as ago\<rparr>"

text \<open>The second look at the graph, 300 ms after a new image.\<close>

definition card_recheck :: "string option \<Rightarrow> card_view \<Rightarrow> card_view" where
  "card_recheck ago c = (case card_svg c of None \<Rightarrow> c | Some as \<Rightarrow> c\<lparr>status_line := updateStatusFromSVG as ago\<rparr>)"

definition card_url :: "string \<Rightarrow> card \<Rightarrow> string" where
  "card_url tc c = ''/teams/'' @ tc @ ''/pipelines/'' @ c_canonical c"

definition PipelineCard :: "card \<Rightarrow> card_view \<Rightarrow> grid_action html" where
  "PipelineCard c cv =
     El ''div'' [] [(''onClick'', OpenCard (c_canonical c))]
       ([Txt (c_name c)] @ show_if (c_public c) [Txt ''Public'']
        @ show_if (case dotSource cv of Some (ImageText t) \<Rightarrow> t \<noteq> '''' | Some (ImageObject d) \<Rightarrow> True | None \<Rightarrow> False)
            [El ''PipelineGraph'' [(''noLinks'', ''true'')] [] []]
        @ [El ''div'' [(''class'', ''piko-card-status'')] [] [Txt (status_line cv)]])"

definition PipelineList :: "session \<Rightarrow> string \<Rightarrow> grid \<Rightarrow> (string \<Rightarrow> card_view) \<Rightarrow> grid_action html list" where
  "PipelineList s tc g views =
     [El ''div'' [] []
        ([El ''span'' [(''id'', ''live-status-toggle''), (''class'', ''piko-toggle'' @ (if liveEnabled g then '' on'' else ''''))] [(''onClick'', ToggleLive)] [],
          El ''label'' [] [(''onClick'', ToggleLive)] [Txt ''Live'']]
         @ show_if (hasTeamRole s tc ''maintain'') [El ''a'' [(''id'', ''pipelines-new'')] [(''onClick'', NewPipeline)] [Txt ''New'']]),
      El ''div'' [(''id'', ''pipelines-controls'')] []
        [El ''input'' [(''id'', ''pipelines-search''), (''value'', typed g)] [(''onInput'', Typed)] [],
         El ''select'' [(''id'', ''pipelines-sort''), (''value'', srt (ls g))] [(''onChange'', SortBy)]
           (map (\<lambda>(k, label). El ''option'' [(''value'', k)] [] [Txt label]) SORTS),
         El ''span'' [(''id'', ''pipelines-count'')] [] [Txt (count_label g)]],
      El ''div'' [(''id'', ''pipelines'')] [] (map (\<lambda>c. PipelineCard c (views (c_canonical c))) (pipelines g))]
     @ show_if (pageCount g > 1) [Pager (pg_no (ls g)) (pageCount g)]"

section \<open>Lemmas\<close>

definition list_ok :: "list_state \<Rightarrow> bool" where
  "list_ok st \<longleftrightarrow> pg_no st \<ge> 1 \<and> srt st \<in> {''name'', ''created''}"

lemma SORTS_keys [simp]: "fst ` set SORTS = {''name'', ''created''}"
  by (simp add: SORTS_def)

lemma usp_string_ne: "usp_string (p # ps) \<noteq> ''''"
  by (cases ps; cases p) (simp_all add: usp_string_def params_string_def pair_string_def)

lemma read_write_params:
  "readListState (writeListState st) =
     (let p = (if pg_no st > 1 then [(''page'', int_str (pg_no st))] else [])
              @ (if q st \<noteq> '''' then [(''q'', q st)] else [])
              @ (if srt st \<noteq> ''name'' then [(''sort'', srt st)] else [])
      in readListState (''?'' @ usp_string p))"
proof -
  have "readListState '''' = readListState (''?'' @ usp_string [])"
    by (simp add: readListState_def usp_string_def params_string_def usp_parse_def parse_params_def)
  then show ?thesis using usp_string_ne by (auto simp: writeListState_def Let_def)
qed

lemma last_page_bounds:
  assumes "n > 0"
  shows "last_page n \<ge> 1 \<and> (last_page n - 1) * PAGE_SIZE < n \<and> n \<le> last_page n * PAGE_SIZE"
  using assms unfolding last_page_def PAGE_SIZE_def by simp linarith

text \<open>Every state the page can be in is one the URL can express.\<close>

datatype grid_event = Answer bool "(card list \<times> nat option) option" | TypeText string | ApplyTyped | Go int | Sort string | Live

definition grid_step :: "grid \<Rightarrow> grid_event \<Rightarrow> grid" where
  "grid_step g e =
     (case e of
        Answer stale resp \<Rightarrow> grid_answer stale resp g
      | TypeText t \<Rightarrow> grid_type t g
      | ApplyTyped \<Rightarrow> grid_apply g
      | Go n \<Rightarrow> setPage n g
      | Sort t \<Rightarrow> setSort t g
      | Live \<Rightarrow> toggleLive g)"

text \<open>The page numbers come from the pager and the sorts from the options of the list.\<close>

definition grid_event_ok :: "grid_event \<Rightarrow> bool" where
  "grid_event_ok e = (case e of Go n \<Rightarrow> n \<ge> 1 | Sort t \<Rightarrow> t \<in> fst ` set SORTS | _ \<Rightarrow> True)"

definition grid_inv :: "grid \<Rightarrow> bool" where
  "grid_inv g \<longleftrightarrow> list_ok (ls g)"

interpretation grid_page: preserves grid_step grid_event_ok grid_inv
proof
  fix g e assume "grid_inv g" "grid_event_ok e"
  then show "grid_inv (grid_step g e)"
    using last_page_bounds
    by (cases e) (auto simp: grid_step_def grid_inv_def grid_event_ok_def list_ok_def grid_answer_def grid_type_def
        grid_apply_def setPage_def setSort_def toggleLive_def Let_def split: option.splits)
qed

lemma readListState_ok: "list_ok (readListState s)"
  by (auto simp: readListState_def list_ok_def Let_def split: option.splits)

text \<open>The pager, declaratively.\<close>

definition listed :: "int \<Rightarrow> nat \<Rightarrow> nat \<Rightarrow> bool" where
  "listed page cnt n \<longleftrightarrow> n = 1 \<or> n = cnt \<or> \<bar>int n - page\<bar> \<le> 1"

fun with_gaps :: "int \<Rightarrow> nat \<Rightarrow> nat list \<Rightarrow> pager_item list" where
  "with_gaps page lst [] = []"
| "with_gaps page lst (n # ns) = (if n > lst + 1 then [Gap] else []) @ PageLink n (int n = page) # with_gaps page n ns"

lemma pager_loop_gaps: "pager_loop page cnt ns lst = with_gaps page lst (filter (listed page cnt) ns)"
  by (induction page cnt ns lst rule: pager_loop.induct) (auto simp: listed_def)

lemma card_fills_iff:
  "card_fills as = \<lparr>hasFailed = (\<exists>a \<in> set as. fill_of a = ''#ff004d''), hasRunning = (\<exists>a \<in> set as. fill_of a = ''#ffa300''),
     hasSucceeded = (\<exists>a \<in> set as. fill_of a = ''#00a83a''), hasWarning = (\<exists>a \<in> set as. fill_of a = ''#fa8072'')\<rparr>"
proof -
  have "foldl note_fill st as = \<lparr>hasFailed = hasFailed st \<or> (\<exists>a \<in> set as. fill_of a = ''#ff004d''),
      hasRunning = hasRunning st \<or> (\<exists>a \<in> set as. fill_of a = ''#ffa300''),
      hasSucceeded = hasSucceeded st \<or> (\<exists>a \<in> set as. fill_of a = ''#00a83a''),
      hasWarning = hasWarning st \<or> (\<exists>a \<in> set as. fill_of a = ''#fa8072'')\<rparr>" for st
    by (induction as arbitrary: st) (auto simp: note_fill_def Let_def)
  then show ?thesis by (simp add: card_fills_def)
qed

section \<open>Properties\<close>

text \<open>
  C18. Reload and back button land where the user was: whatever the URL was at first and whatever
  the user and the server did since, reading the URL the page wrote gives back its page number,
  search and sort (for page numbers that JavaScript writes in full, those below \<open>10\<^sup>2\<^sup>1\<close>).
\<close>

theorem list_state_survives_reload:
  assumes "\<forall>e \<in> set es. grid_event_ok e"
  shows "readListState (writeListState (ls (run grid_step (grid_init search stored) es)))
    = ls (run grid_step (grid_init search stored) es)"
proof -
  have "grid_inv (run grid_step (grid_init search stored) es)"
    using assms by (intro grid_page.inv_run) (simp_all add: grid_inv_def grid_init_def readListState_ok)
  then have "list_ok (ls (run grid_step (grid_init search stored) es))" by (simp add: grid_inv_def)
  moreover have "readListState (writeListState st) = st" if "list_ok st" for st
    using that unfolding read_write_params Let_def
    by (auto simp: readListState_def usp_get_def list_ok_def int_str_def)
  ultimately show ?thesis by blast
qed

text \<open>
  C19. The pager shows the first and the last page, the current one and its neighbours, in order,
  with one ellipsis exactly where two shown numbers are not consecutive.
\<close>

theorem pager_items_gaps:
  "pager_items page cnt = with_gaps page 0 (filter (\<lambda>n. n = 1 \<or> n = cnt \<or> \<bar>int n - page\<bar> \<le> 1) [1..<Suc cnt])"
  unfolding pager_items_def pager_loop_gaps by (simp add: listed_def [abs_def])

text \<open>
  A page that no longer exists is left for the last one that does: the answer moves to a page
  whose first entry exists, so the next answer is not empty again.
\<close>

theorem empty_page_lands_on_last:
  assumes "pg_no (ls g) > 1" and "n > 0"
  shows "\<exists>p. ls (grid_answer False (Some ([], Some n)) g) = (ls g)\<lparr>pg_no := p\<rparr>
    \<and> p \<ge> 1 \<and> (p - 1) * int PAGE_SIZE < int n \<and> int n \<le> p * int PAGE_SIZE"
proof -
  have "int (last_page n - 1) * int PAGE_SIZE < int n \<and> int n \<le> int (last_page n) * int PAGE_SIZE \<and> last_page n \<ge> 1"
    using last_page_bounds [OF assms(2)] by (metis of_nat_le_iff of_nat_less_iff of_nat_mult)
  then show ?thesis using assms by (intro exI [of _ "int (last_page n)"]) (auto simp: grid_answer_def of_nat_diff)
qed

text \<open>
  The status of a card: failed if any shape has the failed colour, else running, else warning,
  else passed, compared without regard to case; no builds if none of the four colours occurs.
\<close>

theorem card_status_priority:
  "status_of as =
     (case filter (\<lambda>(col, st). col \<in> fill_of ` set as)
        [(''#ff004d'', LastFailed), (''#ffa300'', Running), (''#fa8072'', LastWarning), (''#00a83a'', LastPassed)] of
        [] \<Rightarrow> NoBuilds | (col, st) # _ \<Rightarrow> st)"
proof -
  have "(\<exists>a \<in> set as. fill_of a = c) \<longleftrightarrow> c \<in> fill_of ` set as" for c by force
  then show ?thesis unfolding status_of_def card_fills_iff Let_def by simp
qed

section \<open>Examples\<close>

theorem list_state_survives_reload_witness:
  "readListState (writeListState (ls (run grid_step (grid_init ''?page=2&q=a+b'' None) [Sort ''created'', Go 3])))
   = ls (run grid_step (grid_init ''?page=2&q=a+b'' None) [Sort ''created'', Go 3])"
  by (rule list_state_survives_reload) (simp add: grid_event_ok_def)

theorem empty_page_lands_on_last_witness:
  "\<exists>p. p \<ge> 1 \<and> (p - 1) * int PAGE_SIZE < 30
     \<and> ls (grid_answer False (Some ([], Some 30)) (grid_init ''?page=9'' None)) = (ls (grid_init ''?page=9'' None))\<lparr>pg_no := p\<rparr>"
proof -
  have "pg_no (ls (grid_init ''?page=9'' None)) > 1" by code_simp
  from empty_page_lands_on_last [OF this, of 30] show ?thesis by auto
qed

end
