(* ===== verification/GraphZoom.thy ===== *)
theory GraphZoom
  imports JsPrelude Complex_Main
begin

text \<open>
  \<open>graph-zoom.js\<close>: \<open>PikoGraphZoom\<close>, zooming and panning of the pipeline graph through the viewBox of
  its SVG. The object is the record \<open>zoomer\<close>; its methods are functions on it, events and layout
  measurements are arguments. Coordinates are real numbers (the code has doubles); a rectangle that
  is measured has a positive size where a division depends on it. SVG elements are numbered; where
  they are in the document is kept (\<open>home\<close>, the element the graph component draws into, and
  \<open>overlay_body\<close>). Not kept: inline styles and the \<open>panning\<close> cursor class.

  Lemmas: the zoom level stays in its bounds and the view keeps a positive size; zooming fixes the
  point under the pointer; zooming in and out again restores the view; a drag moves the view by the
  pointer's displacement; leaving fullscreen gives the graph back; \<open>destroy\<close> removes every listener.
\<close>

section \<open>State\<close>

record viewbox =
  vx :: real
  vy :: real
  vw :: real
  vh :: real

record pan =
  pan_x :: real
  pan_y :: real
  dragged :: bool

record rect =
  r_left :: real
  r_top :: real
  r_width :: real
  r_height :: real

record zoomer =
  svg :: bool
  svg_viewBox :: "viewbox option" \<comment> \<open>the attribute of the SVG\<close>
  baseViewBox :: "viewbox option"
  currentViewBox :: "viewbox option"
  zoomLevel :: real
  isPanning :: bool
  panStart :: "pan option"
  pinchStart :: "real option"
  suppressClick :: bool
  fsOverlay :: bool
  svg_id :: nat \<comment> \<open>which element \<open>svg\<close> is\<close>
  home :: "nat list" \<comment> \<open>children of the element the graph is drawn into\<close>
  overlay_body :: "nat list" \<comment> \<open>children of the fullscreen body\<close>
  svgNextSibling :: "nat option"
  has_legend :: bool \<comment> \<open>the container holds a legend, or is followed by one\<close>
  legend_in_place :: bool
  controls_shown :: bool
  listeners :: "(string \<times> string) list" \<comment> \<open>on objects that outlive the zoomer\<close>
  fs_calls :: "bool list" \<comment> \<open>calls of \<open>onFullscreenChange\<close>\<close>

definition MIN_ZOOM :: real where "MIN_ZOOM = 1 / 4"

definition MAX_ZOOM :: real where "MAX_ZOOM = 4"

definition ZOOM_FACTOR :: real where "ZOOM_FACTOR = 115 / 100"

definition DRAG_THRESHOLD :: real where "DRAG_THRESHOLD = 5"

definition bindContainerEvents :: "(string \<times> string) list" where
  "bindContainerEvents =
     [(''container'', ''wheel''), (''container'', ''mousedown''), (''window'', ''mousemove''), (''window'', ''mouseup''),
      (''container'', ''click''), (''container'', ''touchstart''), (''container'', ''touchmove''), (''container'', ''touchend'')]"

definition PikoGraphZoom :: "bool \<Rightarrow> zoomer" where
  "PikoGraphZoom lg = \<lparr>svg = False, svg_viewBox = None, baseViewBox = None, currentViewBox = None, zoomLevel = 1,
     isPanning = False, panStart = None, pinchStart = None, suppressClick = False, fsOverlay = False,
     svg_id = 0, home = [], overlay_body = [], svgNextSibling = None, has_legend = lg, legend_in_place = True,
     controls_shown = True, listeners = bindContainerEvents, fs_calls = []\<rparr>"

section \<open>Attaching a graph\<close>

text \<open>\<open>x || d\<close> for a number, \<open>None\<close> being NaN.\<close>

definition num_or :: "real option \<Rightarrow> real \<Rightarrow> real" where
  "num_or x d = (case x of Some r \<Rightarrow> if r = 0 then d else r | None \<Rightarrow> d)"

definition falsy :: "real option \<Rightarrow> bool" where
  "falsy x \<longleftrightarrow> x = None \<or> x = Some 0"

text \<open>The size attributes, and the last two numbers of the viewBox attribute if there is one.\<close>

record svg_attrs =
  a_width :: "real option"
  a_height :: "real option"
  a_viewBox :: "(real option \<times> real option) option"

definition natural_size :: "svg_attrs \<Rightarrow> real \<times> real" where
  "natural_size a =
     (let (w, h) = (if falsy (a_width a) \<or> falsy (a_height a)
                    then (case a_viewBox a of Some wh \<Rightarrow> wh | None \<Rightarrow> (a_width a, a_height a))
                    else (a_width a, a_height a))
      in (num_or w 800, num_or h 400))"

definition fit_viewBox :: "real \<times> real \<Rightarrow> real \<Rightarrow> real \<Rightarrow> viewbox" where
  "fit_viewBox nat_wh cRect_width cRect_height =
     (let natW = fst nat_wh; natH = snd nat_wh;
          cW = num_or (Some cRect_width) natW; cH = num_or (Some cRect_height) natH;
          scale = min (cW / natW) (cH / natH);
          max_scale = 3 / 2;
          vbW = (if scale > max_scale then cW / max_scale else natW);
          vbH = (if scale > max_scale then cH / max_scale else natH)
      in \<lparr>vx = - (vbW - natW) / 2, vy = - (vbH - natH) / 2, vw = vbW, vh = vbH\<rparr>)"

definition attachSVG :: "nat \<Rightarrow> svg_attrs \<Rightarrow> real \<Rightarrow> real \<Rightarrow> zoomer \<Rightarrow> zoomer" where
  "attachSVG n a cw ch z =
     (let base = fit_viewBox (natural_size a) cw ch;
          z1 = z\<lparr>svg := True, svg_id := n, baseViewBox := Some base\<rparr>;
          z2 = (if currentViewBox z1 = None then z1\<lparr>currentViewBox := Some base, zoomLevel := 1\<rparr> else z1)
      in z2\<lparr>svg_viewBox := currentViewBox z2\<rparr>)"

definition applyViewBox :: "zoomer \<Rightarrow> zoomer" where
  "applyViewBox z = (if \<not> svg z \<or> currentViewBox z = None then z else z\<lparr>svg_viewBox := currentViewBox z\<rparr>)"

section \<open>Zooming\<close>

definition clampZoom :: "real \<Rightarrow> real" where
  "clampZoom n = max MIN_ZOOM (min MAX_ZOOM n)"

definition zoomAtCenter :: "real \<Rightarrow> zoomer \<Rightarrow> zoomer" where
  "zoomAtCenter factor z =
     (case (currentViewBox z, baseViewBox z) of
        (Some vb, Some base) \<Rightarrow>
          (let newZoom = clampZoom (zoomLevel z * factor);
               newW = vw base / newZoom; newH = vh base / newZoom;
               cx = vx vb + vw vb / 2; cy = vy vb + vh vb / 2
           in applyViewBox (z\<lparr>currentViewBox := Some \<lparr>vx = cx - newW / 2, vy = cy - newH / 2, vw = newW, vh = newH\<rparr>,
                              zoomLevel := newZoom\<rparr>))
      | _ \<Rightarrow> z)"

definition zoomIn :: "zoomer \<Rightarrow> zoomer" where
  "zoomIn z = zoomAtCenter ZOOM_FACTOR z"

definition zoomOut :: "zoomer \<Rightarrow> zoomer" where
  "zoomOut z = zoomAtCenter (1 / ZOOM_FACTOR) z"

definition zoomAtPoint :: "rect \<Rightarrow> real \<Rightarrow> real \<Rightarrow> real \<Rightarrow> zoomer \<Rightarrow> zoomer" where
  "zoomAtPoint r clientX clientY factor z =
     (case (svg z, currentViewBox z, baseViewBox z) of
        (True, Some vb, Some base) \<Rightarrow>
          (let px = (clientX - r_left r) / r_width r; py = (clientY - r_top r) / r_height r;
               pointX = vx vb + px * vw vb; pointY = vy vb + py * vh vb;
               newZoom = clampZoom (zoomLevel z * factor);
               newW = vw base / newZoom; newH = vh base / newZoom
           in applyViewBox (z\<lparr>currentViewBox := Some \<lparr>vx = pointX - px * newW, vy = pointY - py * newH, vw = newW, vh = newH\<rparr>,
                              zoomLevel := newZoom\<rparr>))
      | _ \<Rightarrow> z)"

definition zreset :: "zoomer \<Rightarrow> zoomer" where
  "zreset z = (case baseViewBox z of
       None \<Rightarrow> z
     | Some base \<Rightarrow> applyViewBox (z\<lparr>currentViewBox := Some base, zoomLevel := 1\<rparr>))"

text \<open>A plain wheel scrolls the page; with Ctrl or Cmd, or in fullscreen, it zooms.\<close>

definition onWheel :: "rect \<Rightarrow> bool \<Rightarrow> bool \<Rightarrow> real \<Rightarrow> real \<Rightarrow> real \<Rightarrow> zoomer \<Rightarrow> zoomer" where
  "onWheel r ctrlKey metaKey deltaY clientX clientY z =
     (if \<not> svg z then z
      else if \<not> fsOverlay z \<and> \<not> ctrlKey \<and> \<not> metaKey then z
      else zoomAtPoint r clientX clientY (if deltaY < 0 then ZOOM_FACTOR else 1 / ZOOM_FACTOR) z)"

section \<open>Panning\<close>

definition onPanStart :: "nat \<Rightarrow> bool \<Rightarrow> real \<Rightarrow> real \<Rightarrow> zoomer \<Rightarrow> zoomer" where
  "onPanStart btn on_controls x y z =
     (if btn \<noteq> 0 \<or> on_controls then z
      else z\<lparr>isPanning := True, panStart := Some \<lparr>pan_x = x, pan_y = y, dragged = False\<rparr>\<rparr>)"

text \<open>The movement shared by mouse and one-finger touch.\<close>

definition pan_to :: "rect \<Rightarrow> real \<Rightarrow> real \<Rightarrow> zoomer \<Rightarrow> zoomer" where
  "pan_to r x y z =
     (case (isPanning z, panStart z, svg z, currentViewBox z) of
        (True, Some p, True, Some vb) \<Rightarrow>
          (let dx = x - pan_x p; dy = y - pan_y p;
               moved = (dragged p \<or> \<bar>dx\<bar> > DRAG_THRESHOLD \<or> \<bar>dy\<bar> > DRAG_THRESHOLD)
           in if \<not> moved then z
              else applyViewBox
                (z\<lparr>currentViewBox := Some (vb\<lparr>vx := vx vb - dx / r_width r * vw vb, vy := vy vb - dy / r_height r * vh vb\<rparr>),
                   panStart := Some \<lparr>pan_x = x, pan_y = y, dragged = True\<rparr>\<rparr>))
      | _ \<Rightarrow> z)"

definition onPanMove :: "rect \<Rightarrow> real \<Rightarrow> real \<Rightarrow> zoomer \<Rightarrow> zoomer" where
  "onPanMove r x y z = pan_to r x y z"

definition onPanEnd :: "zoomer \<Rightarrow> zoomer" where
  "onPanEnd z =
     (let wasDragged = (isPanning z \<and> (case panStart z of Some p \<Rightarrow> dragged p | None \<Rightarrow> False))
      in z\<lparr>suppressClick := (suppressClick z \<or> wasDragged), isPanning := False, panStart := None, pinchStart := None\<rparr>)"

text \<open>A click that reaches the container first: whether it is swallowed, and the new state.\<close>

definition onClick :: "zoomer \<Rightarrow> bool \<times> zoomer" where
  "onClick z = (if suppressClick z then (True, z\<lparr>suppressClick := False\<rparr>) else (False, z))"

definition getPinchDist :: "(real \<times> real) \<Rightarrow> (real \<times> real) \<Rightarrow> real" where
  "getPinchDist a b = sqrt ((fst a - fst b) * (fst a - fst b) + (snd a - snd b) * (snd a - snd b))"

definition onTouchStart :: "(real \<times> real) list \<Rightarrow> zoomer \<Rightarrow> zoomer" where
  "onTouchStart touches z =
     (case touches of
        [t] \<Rightarrow> z\<lparr>isPanning := True, panStart := Some \<lparr>pan_x = fst t, pan_y = snd t, dragged = False\<rparr>\<rparr>
      | [a, b] \<Rightarrow> z\<lparr>pinchStart := Some (getPinchDist a b)\<rparr>
      | _ \<Rightarrow> z)"

definition onTouchMove :: "rect \<Rightarrow> (real \<times> real) list \<Rightarrow> zoomer \<Rightarrow> zoomer" where
  "onTouchMove r touches z =
     (case touches of
        [t] \<Rightarrow> pan_to r (fst t) (snd t) z
      | [a, b] \<Rightarrow>
          (case pinchStart z of
             Some d \<Rightarrow>
               if d = 0 then z
               else (let dist = getPinchDist a b
                     in (zoomAtPoint r ((fst a + fst b) / 2) ((snd a + snd b) / 2) (dist / d) z)\<lparr>pinchStart := Some dist\<rparr>)
           | None \<Rightarrow> z)
      | _ \<Rightarrow> z)"

section \<open>Fullscreen and clean-up\<close>

text \<open>The graph component has drawn a new SVG: it replaces what its element holds.\<close>

definition graph_drawn :: "nat \<Rightarrow> zoomer \<Rightarrow> zoomer" where
  "graph_drawn n z = z\<lparr>home := [n]\<rparr>"

definition next_sibling :: "nat \<Rightarrow> nat list \<Rightarrow> nat option" where
  "next_sibling n ns = (case dropWhile (\<lambda>k. k \<noteq> n) ns of _ # k # _ \<Rightarrow> Some k | _ \<Rightarrow> None)"

text \<open>\<open>insertBefore\<close>, or \<open>appendChild\<close> without a sibling; \<open>None\<close> is the exception for a lost sibling.\<close>

definition put_back :: "nat \<Rightarrow> nat option \<Rightarrow> nat list \<Rightarrow> nat list option" where
  "put_back n nxt ns =
     (let others = filter (\<lambda>k. k \<noteq> n) ns in
      case nxt of
        None \<Rightarrow> Some (others @ [n])
      | Some k \<Rightarrow> if k \<in> set others then Some (takeWhile (\<lambda>j. j \<noteq> k) others @ n # dropWhile (\<lambda>j. j \<noteq> k) others) else None)"

definition enterFullscreen :: "zoomer \<Rightarrow> zoomer" where
  "enterFullscreen z =
     (if \<not> svg z then z
      else z\<lparr>svgNextSibling := next_sibling (svg_id z) (home z), home := filter (\<lambda>k. k \<noteq> svg_id z) (home z),
             overlay_body := [svg_id z], legend_in_place := (\<not> has_legend z \<and> legend_in_place z),
             fsOverlay := True, listeners := listeners z @ [(''document'', ''keydown'')],
             controls_shown := False, fs_calls := fs_calls z @ [True]\<rparr>)"

definition exitFullscreen :: "zoomer \<Rightarrow> zoomer" where
  "exitFullscreen z =
     (if \<not> fsOverlay z then z
      else (case put_back (svg_id z) (svgNextSibling z) (home z) of
              None \<Rightarrow> z
            | Some hm \<Rightarrow>
                z\<lparr>home := hm, overlay_body := [], legend_in_place := True, fsOverlay := False,
                  listeners := remove1 (''document'', ''keydown'') (listeners z),
                  controls_shown := True, fs_calls := fs_calls z @ [False]\<rparr>))"

definition toggleFullscreen :: "zoomer \<Rightarrow> zoomer" where
  "toggleFullscreen z = (if fsOverlay z then exitFullscreen z else enterFullscreen z)"

definition destroy :: "zoomer \<Rightarrow> zoomer" where
  "destroy z =
     (let z1 = exitFullscreen z
      in z1\<lparr>listeners := foldl (\<lambda>ls l. remove1 l ls) (listeners z1)
              [(''container'', ''wheel''), (''container'', ''mousedown''), (''window'', ''mousemove''), (''window'', ''mouseup''),
               (''container'', ''click''), (''container'', ''touchstart''), (''container'', ''touchmove''), (''container'', ''touchend'')],
            controls_shown := False\<rparr>)"

text \<open>The buttons of the control bar and of the fullscreen bar.\<close>

definition control_click :: "string \<Rightarrow> zoomer \<Rightarrow> zoomer" where
  "control_click act z =
     (if act = ''zoomIn'' then zoomIn z else if act = ''zoomOut'' then zoomOut z
      else if act = ''reset'' then zreset z else if act = ''fullscreen'' then toggleFullscreen z else z)"

definition fullscreen_click :: "string \<Rightarrow> zoomer \<Rightarrow> zoomer" where
  "fullscreen_click act z =
     (if act = ''zoomIn'' then zoomIn z else if act = ''zoomOut'' then zoomOut z
      else if act = ''reset'' then zreset z else if act = ''close'' then exitFullscreen z else z)"

definition escKey :: "string \<Rightarrow> zoomer \<Rightarrow> zoomer" where
  "escKey key z = (if key = ''Escape'' then exitFullscreen z else z)"

section \<open>Events\<close>

datatype zoom_event =
    Attach nat svg_attrs real real | Control string | FsControl string | Key string
  | Wheel rect bool bool real real real
  | PanStart nat bool real real | PanMove rect real real | PanEnd | ZClick
  | TouchStart "(real \<times> real) list" | TouchMove rect "(real \<times> real) list"

definition zoom_step :: "zoomer \<Rightarrow> zoom_event \<Rightarrow> zoomer" where
  "zoom_step z e =
     (case e of
        Attach n a cw ch \<Rightarrow> attachSVG n a cw ch (graph_drawn n z)
      | Control act \<Rightarrow> control_click act z
      | FsControl act \<Rightarrow> if fsOverlay z then fullscreen_click act z else z
      | Key k \<Rightarrow> if fsOverlay z then escKey k z else z
      | Wheel r c m d x y \<Rightarrow> onWheel r c m d x y z
      | PanStart b oc x y \<Rightarrow> onPanStart b oc x y z
      | PanMove r x y \<Rightarrow> onPanMove r x y z
      | PanEnd \<Rightarrow> onPanEnd z
      | ZClick \<Rightarrow> snd (onClick z)
      | TouchStart ts \<Rightarrow> onTouchStart ts z
      | TouchMove r ts \<Rightarrow> onTouchMove r ts z)"

text \<open>Sizes of graphics and containers are not negative.\<close>

definition attrs_ok :: "svg_attrs \<Rightarrow> bool" where
  "attrs_ok a \<longleftrightarrow> (\<forall>r. a_width a = Some r \<or> a_height a = Some r
      \<or> (\<exists>w h. a_viewBox a = Some (w, h) \<and> (w = Some r \<or> h = Some r)) \<longrightarrow> r \<ge> 0)"

definition zoom_event_ok :: "zoom_event \<Rightarrow> bool" where
  "zoom_event_ok e = (case e of Attach n a cw ch \<Rightarrow> attrs_ok a \<and> cw \<ge> 0 \<and> ch \<ge> 0 | _ \<Rightarrow> True)"

section \<open>The invariant\<close>

definition box_ok :: "viewbox option \<Rightarrow> bool" where
  "box_ok b \<longleftrightarrow> (case b of None \<Rightarrow> True | Some v \<Rightarrow> vw v > 0 \<and> vh v > 0)"

text \<open>Where the elements are: outside fullscreen at home; in fullscreen in the overlay, or replaced.\<close>

definition placed :: "zoomer \<Rightarrow> bool" where
  "placed z \<longleftrightarrow>
     (if fsOverlay z
      then svg z \<and> svgNextSibling z = None \<and> (\<exists>k. overlay_body z = [k] \<and> (if k = svg_id z then home z \<in> {[], [k]} else home z = [svg_id z]))
           \<and> legend_in_place z = (\<not> has_legend z)
      else (svg z \<longrightarrow> home z = [svg_id z]) \<and> overlay_body z = [] \<and> legend_in_place z)"

definition zoom_inv :: "zoomer \<Rightarrow> bool" where
  "zoom_inv z \<longleftrightarrow>
     MIN_ZOOM \<le> zoomLevel z \<and> zoomLevel z \<le> MAX_ZOOM
     \<and> box_ok (baseViewBox z) \<and> box_ok (currentViewBox z)
     \<and> (svg z \<longleftrightarrow> baseViewBox z \<noteq> None) \<and> (svg z \<longleftrightarrow> currentViewBox z \<noteq> None)
     \<and> svg_viewBox z = currentViewBox z
     \<and> listeners z = bindContainerEvents @ (if fsOverlay z then [(''document'', ''keydown'')] else [])
     \<and> controls_shown z = (\<not> fsOverlay z) \<and> placed z"

lemma clampZoom_bounds [simp]: "MIN_ZOOM \<le> clampZoom n" "clampZoom n \<le> MAX_ZOOM" "0 < clampZoom n"
  by (auto simp: clampZoom_def MIN_ZOOM_def MAX_ZOOM_def)

lemma zoom_consts: "MIN_ZOOM \<le> 1" "1 \<le> MAX_ZOOM"
  by (simp_all add: MIN_ZOOM_def MAX_ZOOM_def)

lemma num_or_pos: "(\<forall>r. x = Some r \<longrightarrow> r \<ge> 0) \<Longrightarrow> d > 0 \<Longrightarrow> num_or x d > 0"
  by (cases x) (auto simp: num_or_def order.order_iff_strict)

lemma natural_size_pos: "attrs_ok a \<Longrightarrow> fst (natural_size a) > 0 \<and> snd (natural_size a) > 0"
  unfolding natural_size_def attrs_ok_def
  by (auto simp: Let_def intro!: num_or_pos split: option.splits prod.splits)

lemma fit_viewBox_ok: "attrs_ok a \<Longrightarrow> cw \<ge> 0 \<Longrightarrow> ch \<ge> 0 \<Longrightarrow> box_ok (Some (fit_viewBox (natural_size a) cw ch))"
  using natural_size_pos [of a] num_or_pos [of "Some cw"] num_or_pos [of "Some ch"]
  by (auto simp: fit_viewBox_def Let_def box_ok_def)

lemma placed_drawn: "placed z \<Longrightarrow> placed (z\<lparr>home := [n], svg := True, svg_id := n\<rparr>)"
  by (auto simp: placed_def split: if_splits)

lemma placed_cong:
  assumes "svg z' = svg z" "svg_id z' = svg_id z" "home z' = home z" "overlay_body z' = overlay_body z"
    "svgNextSibling z' = svgNextSibling z" "has_legend z' = has_legend z" "legend_in_place z' = legend_in_place z" "fsOverlay z' = fsOverlay z"
  shows "placed z' = placed z"
  using assms by (simp add: placed_def)

lemma placed_update [simp]:
  "placed (z\<lparr>svg_viewBox := a\<rparr>) = placed z"
  "placed (z\<lparr>baseViewBox := b\<rparr>) = placed z"
  "placed (z\<lparr>currentViewBox := c\<rparr>) = placed z"
  "placed (z\<lparr>zoomLevel := d\<rparr>) = placed z"
  "placed (z\<lparr>isPanning := e\<rparr>) = placed z"
  "placed (z\<lparr>panStart := f\<rparr>) = placed z"
  "placed (z\<lparr>pinchStart := g\<rparr>) = placed z"
  "placed (z\<lparr>suppressClick := h\<rparr>) = placed z"
  "placed (z\<lparr>controls_shown := i\<rparr>) = placed z"
  "placed (z\<lparr>listeners := j\<rparr>) = placed z"
  "placed (z\<lparr>fs_calls := k\<rparr>) = placed z"
  by (simp_all add: placed_def)

lemma put_back_home: "hm \<in> {[], [n]} \<Longrightarrow> put_back n None hm = Some [n]"
  by (auto simp: put_back_def)

lemma placed_attach: "placed z \<Longrightarrow> placed (attachSVG n a cw ch (graph_drawn n z))"
  using placed_drawn [of z n]
  by (subst placed_cong [where z = "z\<lparr>home := [n], svg := True, svg_id := n\<rparr>"]) (auto simp: attachSVG_def graph_drawn_def Let_def)

lemma inv_attach: "zoom_inv z \<Longrightarrow> attrs_ok a \<Longrightarrow> cw \<ge> 0 \<Longrightarrow> ch \<ge> 0 \<Longrightarrow> zoom_inv (attachSVG n a cw ch (graph_drawn n z))"
  using fit_viewBox_ok [of a cw ch] zoom_consts placed_attach [of z n a cw ch]
  by (auto simp: zoom_inv_def attachSVG_def graph_drawn_def Let_def)

lemma inv_center: "zoom_inv z \<Longrightarrow> zoom_inv (zoomAtCenter f z)"
  by (auto simp: zoom_inv_def zoomAtCenter_def applyViewBox_def box_ok_def Let_def split: option.splits)

lemma inv_point: "zoom_inv z \<Longrightarrow> zoom_inv (zoomAtPoint r x y f z)"
  by (auto simp: zoom_inv_def zoomAtPoint_def applyViewBox_def box_ok_def Let_def split: option.splits bool.splits)

lemma inv_reset: "zoom_inv z \<Longrightarrow> zoom_inv (zreset z)"
  using zoom_consts by (auto simp: zoom_inv_def zreset_def applyViewBox_def box_ok_def split: option.splits)

lemma inv_pan: "zoom_inv z \<Longrightarrow> zoom_inv (pan_to r x y z)"
  by (auto simp: zoom_inv_def pan_to_def applyViewBox_def box_ok_def Let_def split: option.splits bool.splits)

lemma remove_keydown: "remove1 (''document'', ''keydown'') (bindContainerEvents @ [(''document'', ''keydown'')]) = bindContainerEvents"
  by (simp add: bindContainerEvents_def)

lemma exit_places:
  assumes "placed z"
  shows "placed (exitFullscreen z)" and "\<not> fsOverlay (exitFullscreen z)"
    and "fsOverlay z \<Longrightarrow> put_back (svg_id z) (svgNextSibling z) (home z) = Some [svg_id z]"
proof -
  have pb: "put_back (svg_id z) (svgNextSibling z) (home z) = Some [svg_id z]" if "fsOverlay z"
  proof -
    have "svgNextSibling z = None" "home z \<in> {[], [svg_id z]}"
      using assms that by (auto simp: placed_def split: if_splits)
    then show ?thesis by (simp add: put_back_home)
  qed
  then show "fsOverlay z \<Longrightarrow> put_back (svg_id z) (svgNextSibling z) (home z) = Some [svg_id z]" .
  show "placed (exitFullscreen z)" using assms pb by (auto simp: exitFullscreen_def placed_def)
  show "\<not> fsOverlay (exitFullscreen z)" using pb by (auto simp: exitFullscreen_def)
qed

lemma inv_exit: "zoom_inv z \<Longrightarrow> zoom_inv (exitFullscreen z)"
  using exit_places [of z] by (auto simp: zoom_inv_def exitFullscreen_def remove_keydown)

lemma enter_places: "placed z \<Longrightarrow> \<not> fsOverlay z \<Longrightarrow> placed (enterFullscreen z)"
  by (auto simp: enterFullscreen_def placed_def next_sibling_def)

lemma inv_toggle: "zoom_inv z \<Longrightarrow> zoom_inv (toggleFullscreen z)"
proof (cases "fsOverlay z")
  case False
  assume "zoom_inv z"
  with False enter_places [of z] show ?thesis by (auto simp: toggleFullscreen_def zoom_inv_def enterFullscreen_def)
qed (simp add: toggleFullscreen_def inv_exit)

lemma inv_buttons: "zoom_inv z \<Longrightarrow> zoom_inv (control_click a z)" "zoom_inv z \<Longrightarrow> zoom_inv (fullscreen_click a z)"
  by (simp_all add: control_click_def fullscreen_click_def zoomIn_def zoomOut_def inv_center inv_reset inv_toggle inv_exit)

lemma inv_touch: "zoom_inv z \<Longrightarrow> zoom_inv (onTouchMove r ts z)"
proof -
  assume z: "zoom_inv z"
  have "zoom_inv (z'\<lparr>pinchStart := p\<rparr>)" if "zoom_inv z'" for z' p
    using that by (auto simp: zoom_inv_def)
  with z show ?thesis
    by (auto simp: onTouchMove_def Let_def inv_pan inv_point split: list.splits option.splits)
qed

lemma inv_gesture:
  "zoom_inv z \<Longrightarrow> zoom_inv (onTouchStart ts z)" "zoom_inv z \<Longrightarrow> zoom_inv (onPanStart b oc x y z)"
  "zoom_inv z \<Longrightarrow> zoom_inv (onPanEnd z)" "zoom_inv z \<Longrightarrow> zoom_inv (snd (onClick z))"
  by (auto simp: zoom_inv_def onTouchStart_def onPanStart_def onPanEnd_def onClick_def Let_def split: list.splits)

lemmas zoom_inv_intros = inv_attach inv_center inv_point inv_reset inv_pan inv_exit inv_toggle inv_buttons inv_touch inv_gesture

interpretation zoom_machine: preserves zoom_step zoom_event_ok zoom_inv
proof
  fix z e assume "zoom_inv z" "zoom_event_ok e"
  then show "zoom_inv (zoom_step z e)"
    by (cases e) (auto simp: zoom_step_def zoom_event_ok_def onWheel_def onPanMove_def escKey_def intro: zoom_inv_intros)
qed

lemma zoom_inv_init: "zoom_inv (PikoGraphZoom lg)"
  by (simp add: placed_def zoom_inv_def PikoGraphZoom_def box_ok_def MIN_ZOOM_def MAX_ZOOM_def)

section \<open>Drags\<close>

definition drag :: "rect \<Rightarrow> zoomer \<Rightarrow> (real \<times> real) list \<Rightarrow> zoomer" where
  "drag r z ps = foldl (\<lambda>z p. onPanMove r (fst p) (snd p) z) z ps"

lemma drag_dragged:
  assumes "isPanning z" and "svg z" and "currentViewBox z = Some vb"
    and "panStart z = Some \<lparr>pan_x = a, pan_y = b, dragged = True\<rparr>"
  shows "currentViewBox (drag r z ps) =
    (let e = last ((a, b) # ps) in Some (vb\<lparr>vx := vx vb - (fst e - a) / r_width r * vw vb,
                                            vy := vy vb - (snd e - b) / r_height r * vh vb\<rparr>))"
  using assms
proof (induction ps arbitrary: z vb a b)
  case (Cons p ps)
  let ?vb = "vb\<lparr>vx := vx vb - (fst p - a) / r_width r * vw vb, vy := vy vb - (snd p - b) / r_height r * vh vb\<rparr>"
  let ?z = "onPanMove r (fst p) (snd p) z"
  have "isPanning ?z" "svg ?z" "currentViewBox ?z = Some ?vb"
    "panStart ?z = Some \<lparr>pan_x = fst p, pan_y = snd p, dragged = True\<rparr>"
    using Cons.prems by (simp_all add: onPanMove_def pan_to_def applyViewBox_def Let_def)
  from Cons.IH [OF this] show ?case
    by (cases ps) (simp_all add: drag_def Let_def algebra_simps diff_divide_distrib)
qed (simp add: drag_def)

section \<open>Properties\<close>

text \<open>
  C16. Bounds: whatever the sequence of events, the zoom level stays between a quarter and four, the
  view has a positive size, and the attribute of the SVG shows the current view.
\<close>

theorem zoom_stays_in_bounds:
  assumes "\<forall>e \<in> set es. zoom_event_ok e"
  shows "MIN_ZOOM \<le> zoomLevel (run zoom_step (PikoGraphZoom lg) es) \<and> zoomLevel (run zoom_step (PikoGraphZoom lg) es) \<le> MAX_ZOOM
    \<and> (\<forall>v. currentViewBox (run zoom_step (PikoGraphZoom lg) es) = Some v \<longrightarrow> vw v > 0 \<and> vh v > 0)
    \<and> svg_viewBox (run zoom_step (PikoGraphZoom lg) es) = currentViewBox (run zoom_step (PikoGraphZoom lg) es)"
  using zoom_machine.inv_run [OF zoom_inv_init [of lg] assms] by (auto simp: zoom_inv_def box_ok_def)

text \<open>
  Zooming at a point keeps the point: the graph coordinate under the pointer is the same before
  and after, also when the zoom level is clamped.
\<close>

theorem zoomAtPoint_fixes_pointer:
  assumes "svg z" and "currentViewBox z = Some vb" and "baseViewBox z = Some base"
  shows "\<exists>vb'. currentViewBox (zoomAtPoint r x y f z) = Some vb'
    \<and> vx vb' + (x - r_left r) / r_width r * vw vb' = vx vb + (x - r_left r) / r_width r * vw vb
    \<and> vy vb' + (y - r_top r) / r_height r * vh vb' = vy vb + (y - r_top r) / r_height r * vh vb"
  using assms by (auto simp: zoomAtPoint_def applyViewBox_def Let_def)

text \<open>
  Zooming in and out again restores the view exactly, unless the upper bound was hit.
\<close>

theorem zoomIn_zoomOut_id:
  assumes "currentViewBox z = Some vb" and "baseViewBox z = Some base" and "zoom_inv z"
    and "vw vb = vw base / zoomLevel z" and "vh vb = vh base / zoomLevel z"
    and "zoomLevel z * ZOOM_FACTOR \<le> MAX_ZOOM"
  shows "currentViewBox (zoomOut (zoomIn z)) = Some vb \<and> zoomLevel (zoomOut (zoomIn z)) = zoomLevel z"
proof -
  have b: "1 / 4 \<le> zoomLevel z" "zoomLevel z \<le> 4" using assms(3) by (auto simp: zoom_inv_def MIN_ZOOM_def MAX_ZOOM_def)
  have c: "clampZoom (zoomLevel z * ZOOM_FACTOR) = zoomLevel z * ZOOM_FACTOR"
    using assms(6) b by (simp add: clampZoom_def ZOOM_FACTOR_def MIN_ZOOM_def MAX_ZOOM_def)
  have d: "clampZoom (zoomLevel z) = zoomLevel z"
    using b by (simp add: clampZoom_def MIN_ZOOM_def MAX_ZOOM_def)
  have F: "ZOOM_FACTOR \<noteq> 0" by (simp add: ZOOM_FACTOR_def)
  obtain x y w h where vb: "vb = \<lparr>vx = x, vy = y, vw = w, vh = h\<rparr>" by (cases vb)
  show ?thesis
    using assms(1,2,4,5) c d F
    by (simp add: zoomIn_def zoomOut_def zoomAtCenter_def applyViewBox_def Let_def vb)
qed

text \<open>
  A drag follows the pointer: from a position where the drag is under way, through any points,
  the view moves by the displacement between the first and the last point, scaled to the view.
\<close>

theorem drag_follows_pointer:
  assumes "isPanning z" and "svg z" and "currentViewBox z = Some vb"
    and "panStart z = Some \<lparr>pan_x = a, pan_y = b, dragged = True\<rparr>" and "ps \<noteq> []"
  shows "currentViewBox (drag r z ps) = Some (vb\<lparr>vx := vx vb - (fst (last ps) - a) / r_width r * vw vb,
                                                 vy := vy vb - (snd (last ps) - b) / r_height r * vh vb\<rparr>)"
  using drag_dragged [OF assms(1-4)] assms(5) by (simp add: Let_def)

text \<open>
  C17. Clean-up: after any sequence of events, fullscreen or not, \<open>destroy\<close> leaves no listener on the
  container, the window or the document.
\<close>

theorem destroy_removes_listeners:
  assumes "\<forall>e \<in> set es. zoom_event_ok e"
  shows "listeners (destroy (run zoom_step (PikoGraphZoom lg) es)) = [] \<and> \<not> fsOverlay (destroy (run zoom_step (PikoGraphZoom lg) es))"
proof -
  let ?z = "run zoom_step (PikoGraphZoom lg) es"
  have z: "zoom_inv ?z" by (rule zoom_machine.inv_run [OF zoom_inv_init assms])
  then have "zoom_inv (exitFullscreen ?z)" by (rule inv_exit)
  moreover have "\<not> fsOverlay (exitFullscreen ?z)" using z exit_places(2) by (simp add: zoom_inv_def)
  ultimately have "listeners (exitFullscreen ?z) = bindContainerEvents" by (simp add: zoom_inv_def)
  with \<open>\<not> fsOverlay (exitFullscreen ?z)\<close> show ?thesis by (simp add: destroy_def Let_def bindContainerEvents_def)
qed

text \<open>
  Fullscreen is left without trace: whatever happened before and during it, once the overlay is
  gone the graph that was drawn last is where the page draws it, alone, and the legend is back.
\<close>

theorem fullscreen_gives_graph_back:
  assumes "\<forall>e \<in> set es. zoom_event_ok e" and "svg (run zoom_step (PikoGraphZoom lg) es)"
  shows "home (exitFullscreen (run zoom_step (PikoGraphZoom lg) es)) = [svg_id (run zoom_step (PikoGraphZoom lg) es)]
    \<and> overlay_body (exitFullscreen (run zoom_step (PikoGraphZoom lg) es)) = []
    \<and> legend_in_place (exitFullscreen (run zoom_step (PikoGraphZoom lg) es))
    \<and> controls_shown (exitFullscreen (run zoom_step (PikoGraphZoom lg) es))"
proof -
  let ?z = "run zoom_step (PikoGraphZoom lg) es"
  have z: "zoom_inv ?z" by (rule zoom_machine.inv_run [OF zoom_inv_init assms(1)])
  then have p: "placed ?z" by (simp add: zoom_inv_def)
  have "controls_shown (exitFullscreen ?z)" "placed (exitFullscreen ?z)" "\<not> fsOverlay (exitFullscreen ?z)"
    using inv_exit [OF z] exit_places(2) [OF p] by (auto simp: zoom_inv_def)
  moreover have "svg (exitFullscreen ?z) \<and> svg_id (exitFullscreen ?z) = svg_id ?z"
    using assms(2) by (auto simp: exitFullscreen_def split: option.splits)
  ultimately show ?thesis by (auto simp: placed_def)
qed

text \<open>
  A graph drawn during fullscreen is not shown: the overlay keeps the old SVG, while the zoomer, and
  with it every control of the overlay, acts on the new one behind it.
\<close>

theorem fullscreen_keeps_old_graph:
  "let z = run zoom_step (PikoGraphZoom lg) [Attach 1 a cw ch, Control ''fullscreen'', Attach 2 a cw ch]
   in fsOverlay z \<and> overlay_body z = [1] \<and> home z = [2] \<and> svg_id z = 2"
  by (simp add: zoom_step_def control_click_def toggleFullscreen_def enterFullscreen_def attachSVG_def graph_drawn_def
      PikoGraphZoom_def Let_def)

text \<open>
  A drag that is released outside the graph swallows the next real click: no click follows such
  a release, the flag stays set, and starting the next press does not clear it.
\<close>

theorem drag_release_outside_eats_click:
  assumes "svg z" and "currentViewBox z = Some vb"
  shows "fst (onClick (run zoom_step z [PanStart 0 False 0 0, PanMove r 100 0, PanEnd, PanStart 0 False 10 10, PanEnd]))"
  using assms
  by (simp add: zoom_step_def onPanStart_def onPanMove_def pan_to_def onPanEnd_def applyViewBox_def onClick_def DRAG_THRESHOLD_def Let_def)

section \<open>Examples\<close>

definition demo_attrs :: svg_attrs where
  "demo_attrs = \<lparr>a_width = Some 100, a_height = Some 50, a_viewBox = None\<rparr>"

definition demo_zoom :: zoomer where
  "demo_zoom = (PikoGraphZoom False)\<lparr>svg := True, home := [0], baseViewBox := Some \<lparr>vx = 0, vy = 0, vw = 100, vh = 50\<rparr>,
     currentViewBox := Some \<lparr>vx = 0, vy = 0, vw = 100, vh = 50\<rparr>, svg_viewBox := Some \<lparr>vx = 0, vy = 0, vw = 100, vh = 50\<rparr>\<rparr>"

lemma demo_events_ok: "\<forall>e \<in> set [Attach 1 demo_attrs 100 50, Control ''zoomIn'']. zoom_event_ok e"
  by (simp add: zoom_event_ok_def attrs_ok_def demo_attrs_def)

theorem zoom_stays_in_bounds_witness:
  "MIN_ZOOM \<le> zoomLevel (run zoom_step (PikoGraphZoom False) [Attach 1 demo_attrs 100 50, Control ''zoomIn''])"
  using zoom_stays_in_bounds [OF demo_events_ok] by blast

theorem zoomAtPoint_fixes_pointer_witness:
  "\<exists>vb'. currentViewBox (zoomAtPoint \<lparr>r_left = 0, r_top = 0, r_width = 100, r_height = 50\<rparr> 20 10 2 demo_zoom) = Some vb'
     \<and> vx vb' + 20 / 100 * vw vb' = 20"
  using zoomAtPoint_fixes_pointer [of demo_zoom _ _ "\<lparr>r_left = 0, r_top = 0, r_width = 100, r_height = 50\<rparr>" 20 10 2]
  by (auto simp: demo_zoom_def)

theorem zoomIn_zoomOut_id_witness:
  "zoomLevel (zoomOut (zoomIn demo_zoom)) = 1"
proof -
  have "zoom_inv demo_zoom"
    by (simp add: zoom_inv_def placed_def demo_zoom_def PikoGraphZoom_def box_ok_def MIN_ZOOM_def MAX_ZOOM_def)
  from zoomIn_zoomOut_id [OF _ _ this] show ?thesis
    by (simp add: demo_zoom_def PikoGraphZoom_def ZOOM_FACTOR_def MAX_ZOOM_def)
qed

theorem drag_follows_pointer_witness:
  "currentViewBox (drag \<lparr>r_left = 0, r_top = 0, r_width = 100, r_height = 50\<rparr>
      (demo_zoom\<lparr>isPanning := True, panStart := Some \<lparr>pan_x = 0, pan_y = 0, dragged = True\<rparr>\<rparr>) [(1, 0), (10, 5)])
   = Some \<lparr>vx = -10, vy = -5, vw = 100, vh = 50\<rparr>"
  using drag_follows_pointer [of "demo_zoom\<lparr>isPanning := True, panStart := Some \<lparr>pan_x = 0, pan_y = 0, dragged = True\<rparr>\<rparr>"
      "\<lparr>vx = 0, vy = 0, vw = 100, vh = 50\<rparr>" 0 0 "[(1, 0), (10, 5)]" "\<lparr>r_left = 0, r_top = 0, r_width = 100, r_height = 50\<rparr>"]
  by (simp add: demo_zoom_def)

theorem destroy_removes_listeners_witness:
  "listeners (destroy (run zoom_step (PikoGraphZoom False) [Attach 1 demo_attrs 100 50, Control ''zoomIn''])) = []"
  using destroy_removes_listeners [OF demo_events_ok] by blast

theorem fullscreen_gives_graph_back_witness:
  "home (exitFullscreen (run zoom_step (PikoGraphZoom False) [Attach 1 demo_attrs 100 50, Control ''zoomIn''])) = [1]"
proof -
  have s: "svg (run zoom_step (PikoGraphZoom False) [Attach 1 demo_attrs 100 50, Control ''zoomIn''])"
    "svg_id (run zoom_step (PikoGraphZoom False) [Attach 1 demo_attrs 100 50, Control ''zoomIn'']) = 1"
    by (simp_all add: zoom_step_def control_click_def zoomIn_def zoomAtCenter_def applyViewBox_def attachSVG_def
        graph_drawn_def PikoGraphZoom_def Let_def)
  from fullscreen_gives_graph_back [OF demo_events_ok s(1)] show ?thesis by (simp only: s(2))
qed

theorem drag_release_outside_eats_click_witness:
  "fst (onClick (run zoom_step demo_zoom [PanStart 0 False 0 0, PanMove \<lparr>r_left = 0, r_top = 0, r_width = 100, r_height = 50\<rparr> 100 0,
      PanEnd, PanStart 0 False 10 10, PanEnd]))"
  by (rule drag_release_outside_eats_click) (simp_all add: demo_zoom_def)

end
