(* ===== verification/PipelineGraph.thy ===== *)
theory PipelineGraph
  imports PipelineGrid GraphZoom
begin

text \<open>
  \<open>PipelineGraph.js\<close>: the graph drawn from a DOT source. The renderer is a library: its result is an
  argument, an SVG or an error. Of an SVG the model keeps the size attributes, the shapes in document
  order, the links and the edges; points are parsed coordinates. Not kept: fonts, cursors, styles.

  Lemmas: post-processing keeps the size the zoomer reads and the build status the cards read off the
  colours; the highlighted edges are those at a tracked job; an error message is shown as text.
\<close>

section \<open>Data\<close>

record shape =
  sh_tag :: string
  sh_fill :: "string option"
  sh_stroke :: "string option"
  sh_points :: "(real \<times> real) list option"
  sh_rect :: "(real \<times> real \<times> real \<times> real) option" \<comment> \<open>x, y, width, height\<close>

record edge =
  e_title :: "string option"
  e_class :: bool \<comment> \<open>\<open>piko-edge-highlighted\<close>\<close>
  e_path :: "(bool \<times> string) option" \<comment> \<open>\<open>data-highlighted\<close> and \<open>stroke\<close> of the path, if there is one\<close>
  e_arrow :: "string option" \<comment> \<open>\<open>fill\<close> of the arrow head, if there is one\<close>

record svg_doc =
  d_width :: "real option" \<comment> \<open>the attribute as a number; \<open>None\<close> is absent or not a number\<close>
  d_height :: "real option"
  d_viewBox :: "(real option \<times> real option) option"
  d_shapes :: "shape list" \<comment> \<open>polygons and rectangles\<close>
  d_others :: "string option list" \<comment> \<open>fills of the ellipses and paths\<close>
  d_links :: "string option list"
  d_edges :: "edge list"

section \<open>Post-processing\<close>

definition is_box :: "(real \<times> real) list \<Rightarrow> bool" where
  "is_box pts \<longleftrightarrow> length pts = 4 \<or> (length pts = 5 \<and> hd pts = last pts)"

text \<open>A box becomes a rectangle that spans its points.\<close>

definition to_rect :: "shape \<Rightarrow> (real \<times> real) list \<Rightarrow> shape" where
  "to_rect el pts =
     (let minX = Min (set (map fst pts)); maxX = Max (set (map fst pts));
          minY = Min (set (map snd pts)); maxY = Max (set (map snd pts))
      in \<lparr>sh_tag = ''rect'', sh_fill = sh_fill el,
          sh_stroke = Some (case sh_stroke el of Some st \<Rightarrow> if st \<noteq> '''' then st else ''none'' | None \<Rightarrow> ''none''),
          sh_points = None, sh_rect = Some (minX, minY, maxX - minX, maxY - minY)\<rparr>)"

definition process_shape :: "nat \<times> shape \<Rightarrow> shape" where
  "process_shape = (\<lambda>(i, el).
     let f = fill_of (sh_fill el) in
     if i = 0 \<or> f = ''white'' \<or> f = ''#ffffff''
     then el\<lparr>sh_fill := Some ''transparent'', sh_stroke := Some ''transparent''\<rparr>
     else if sh_tag el = ''polygon'' \<and> f \<noteq> '''' \<and> f \<noteq> ''none'' \<and> f \<noteq> ''transparent''
     then (case sh_points el of
             None \<Rightarrow> el
           | Some pts \<Rightarrow> if is_box pts then to_rect el pts else el)
     else el)"

definition postProcessSVG :: "bool \<Rightarrow> svg_doc \<Rightarrow> svg_doc" where
  "postProcessSVG noLinks d =
     (let vb = (if \<not> falsy (d_width d) \<and> \<not> falsy (d_height d) then Some (d_width d, d_height d) else d_viewBox d)
      in d\<lparr>d_viewBox := vb, d_width := Some 100, d_height := None,
           d_shapes := map process_shape (enumerate 0 (d_shapes d)),
           d_links := (if noLinks then map (\<lambda>_. None) (d_links d) else d_links d)\<rparr>)"

section \<open>Edges\<close>

fun split_arrow :: "string \<Rightarrow> string list" where
  "split_arrow (a # b # cs) =
     (if a = CHR ''-'' \<and> b = CHR ''>'' then [] # split_arrow cs
      else (case split_arrow (b # cs) of p # ps \<Rightarrow> (a # p) # ps | [] \<Rightarrow> [[a]]))"
| "split_arrow cs = [cs]"

definition reset_edge :: "edge \<Rightarrow> edge" where
  "reset_edge g = g\<lparr>e_class := False, e_path := map_option (\<lambda>(h, st). (False, st)) (e_path g)\<rparr>"

definition mark_edge :: "edge \<Rightarrow> edge" where
  "mark_edge g = g\<lparr>e_class := True, e_path := map_option (\<lambda>_. (True, ''var(--primary, #29ADFF)'')) (e_path g),
     e_arrow := map_option (\<lambda>_. ''var(--primary, #29ADFF)'') (e_arrow g)\<rparr>"

definition touches_jobs :: "string list \<Rightarrow> edge \<Rightarrow> bool" where
  "touches_jobs jobSet g =
     (case e_title g of
        None \<Rightarrow> False
      | Some t \<Rightarrow> (case split_arrow t of
          [src, dst] \<Rightarrow> js_trim src \<in> set jobSet \<or> js_trim dst \<in> set jobSet
        | _ \<Rightarrow> False))"

definition applyEdgeHighlights :: "string list \<Rightarrow> svg_doc \<Rightarrow> svg_doc" where
  "applyEdgeHighlights highlightedEdges d =
     (if highlightedEdges = [] then d
      else d\<lparr>d_edges := map (\<lambda>g. if touches_jobs highlightedEdges g then mark_edge (reset_edge g) else reset_edge g) (d_edges d)\<rparr>)"

section \<open>The component\<close>

text \<open>\<open>innerHTML\<close> of a span whose text was set.\<close>

definition escape_char :: "char \<Rightarrow> string" where
  "escape_char c = (if c = CHR ''&'' then ''&amp;'' else if c = CHR ''<'' then ''&lt;'' else if c = CHR ''>'' then ''&gt;''
     else if c = CHR 0xA0 then ''&nbsp;'' else [c])"

definition escape_html :: "string \<Rightarrow> string" where
  "escape_html s = concat (map escape_char s)"

datatype graph_content = Blank | Drawn svg_doc | Markup string

text \<open>
  The effect when the renderer has answered: \<open>Inr\<close> an SVG, \<open>Inl\<close> an error message. \<open>gone\<close>: the effect
  was cleaned up meanwhile (a newer source, or unmount). The second result is the SVG handed on to
  \<open>onSVGReady\<close>.
\<close>

definition graph_answer :: "bool \<Rightarrow> bool \<Rightarrow> string list \<Rightarrow> string + svg_doc \<Rightarrow> graph_content \<Rightarrow> graph_content \<times> svg_doc option" where
  "graph_answer gone noLinks highlightedEdges res c =
     (if gone then (c, None)
      else (case res of
              Inr d \<Rightarrow> (let d' = applyEdgeHighlights highlightedEdges (postProcessSVG noLinks d) in (Drawn d', Some d'))
            | Inl msg \<Rightarrow> (Markup (''<div class=\"piko-graph-error\">'' @ escape_html msg @ ''</div>''), None)))"

text \<open>What the zoomer reads off the SVG, and the fills a card looks at.\<close>

definition zoom_attrs :: "svg_doc \<Rightarrow> svg_attrs" where
  "zoom_attrs d = \<lparr>a_width = d_width d, a_height = d_height d, a_viewBox = d_viewBox d\<rparr>"

definition shape_fills :: "svg_doc \<Rightarrow> string option list" where
  "shape_fills d = map sh_fill (d_shapes d) @ d_others d"

section \<open>Lemmas\<close>

definition status_fills :: "string set" where
  "status_fills = {''#ff004d'', ''#ffa300'', ''#00a83a'', ''#fa8072''}"

text \<open>The status depends on which of the four colours occur.\<close>

lemma status_of_colours:
  assumes "\<And>f. f \<in> status_fills \<Longrightarrow> f \<in> fill_of ` set as \<longleftrightarrow> f \<in> fill_of ` set bs"
  shows "status_of as = status_of bs"
proof -
  have "(\<exists>a \<in> set as. fill_of a = f) \<longleftrightarrow> (\<exists>a \<in> set bs. fill_of a = f)" if "f \<in> status_fills" for f
    using assms [OF that] by (metis image_iff)
  then have "card_fills as = card_fills bs" by (simp add: card_fills_iff status_fills_def)
  then show ?thesis by (simp add: status_of_def)
qed

lemma fill_transparent: "fill_of (Some ''transparent'') = ''transparent''"
  by code_simp

lemma process_shape_fill:
  "fill_of (sh_fill (process_shape (i, el))) =
     (if i = 0 \<or> fill_of (sh_fill el) \<in> {''white'', ''#ffffff''} then ''transparent'' else fill_of (sh_fill el))"
  by (auto simp: process_shape_def to_rect_def fill_transparent Let_def split: option.splits)

lemma process_shape_status:
  assumes "f \<in> status_fills"
  shows "f = fill_of (sh_fill (process_shape (i, el))) \<longleftrightarrow> i \<noteq> 0 \<and> f = fill_of (sh_fill el)"
  using assms by (auto simp: process_shape_fill status_fills_def)

lemma processed_fills:
  assumes "f \<in> status_fills"
  shows "f \<in> fill_of ` set (map sh_fill (map process_shape (enumerate (Suc n) els))) \<longleftrightarrow> f \<in> fill_of ` set (map sh_fill els)"
proof (induction els arbitrary: n)
  case (Cons el els)
  from Cons.IH [of "Suc n"] process_shape_status [OF assms, of "Suc n" el] show ?case by auto
qed simp

lemma split_arrow_ne [simp]: "split_arrow s \<noteq> []"
  by (induction s rule: split_arrow.induct) (auto split: list.splits)

text \<open>A title of two names without an arrow in them splits into the two.\<close>

definition no_arrow :: "string \<Rightarrow> bool" where
  "no_arrow s \<longleftrightarrow> split_arrow s = [s]"

lemma split_arrow_first:
  assumes "no_arrow a"
  shows "split_arrow (a @ ''->'' @ b) = a # split_arrow b"
  using assms
proof (induction a rule: split_arrow.induct)
  case (1 x y cs)
  then have ne: "\<not> (x = CHR ''-'' \<and> y = CHR ''>'')"
    by (auto simp: no_arrow_def)
  then have "no_arrow (y # cs)" using "1.prems" by (auto simp: no_arrow_def split: list.splits)
  from "1.IH"(2) [OF ne this] ne show ?case by simp
qed auto

lemma angle_notin_escape: "CHR ''<'' \<notin> set (escape_html s)" "CHR ''>'' \<notin> set (escape_html s)"
  by (auto simp: escape_html_def escape_char_def split: if_splits)

section \<open>Properties\<close>

text \<open>
  Post-processing does not change the status a card reads off the graph: it is the status of the
  drawn shapes without the background, which is the first of them.
\<close>

theorem processed_status:
  "status_of (shape_fills (postProcessSVG noLinks d)) = status_of (map sh_fill (tl (d_shapes d)) @ d_others d)"
proof (rule status_of_colours)
  fix f assume f: "f \<in> status_fills"
  show "f \<in> fill_of ` set (shape_fills (postProcessSVG noLinks d))
    \<longleftrightarrow> f \<in> fill_of ` set (map sh_fill (tl (d_shapes d)) @ d_others d)"
  proof (cases "d_shapes d")
    case (Cons el els)
    then show ?thesis
      using processed_fills [OF f, of 0 els] process_shape_status [OF f, of 0 el]
      by (auto simp: shape_fills_def postProcessSVG_def Let_def image_Un)
  qed (simp add: shape_fills_def postProcessSVG_def Let_def)
qed

text \<open>
  The zoomer sees the size the renderer gave the graph, although the size attributes were replaced.
\<close>

theorem processed_size:
  assumes "d_width d = Some w" and "d_height d = Some h" and "w \<noteq> 0" and "h \<noteq> 0"
  shows "natural_size (zoom_attrs (postProcessSVG noLinks d)) = (w, h)"
  using assms by (simp add: natural_size_def zoom_attrs_def postProcessSVG_def falsy_def num_or_def Let_def)

text \<open>
  An edge between two names is highlighted exactly when one of them is tracked.
\<close>

theorem edge_highlighted_iff:
  assumes "no_arrow a" and "no_arrow b" and "js_trim a = a" and "js_trim b = b"
  shows "touches_jobs js (g\<lparr>e_title := Some (a @ ''->'' @ b)\<rparr>) \<longleftrightarrow> a \<in> set js \<or> b \<in> set js"
  using assms split_arrow_first [OF assms(1), of b] by (simp add: touches_jobs_def no_arrow_def)

text \<open>
  A message of the renderer is shown as text: between the tags of the error box there is no markup.
\<close>

theorem graph_error_is_text:
  "\<exists>body. graph_answer False noLinks hs (Inl msg) c = (Markup (''<div class=\"piko-graph-error\">'' @ body @ ''</div>''), None)
     \<and> CHR ''<'' \<notin> set body \<and> CHR ''>'' \<notin> set body"
  by (simp add: graph_answer_def angle_notin_escape)

end
