(* ===== verification/ResourceVersions.thy ===== *)
theory ResourceVersions
  imports Html Endpoints UtilFns
begin

text \<open>
  \<open>Resources.js\<close>: the version list of one resource. Polling merges the newest page into the list by
  id, scrolling appends older pages, and the pin, trigger and webhook controls update the resource.
  A \<open>Map\<close> is an association list in insertion order. Lemmas: under every sequence of answers the
  list is strictly descending by id, and only the initial answer takes versions away; the pin control is an involution.
\<close>

section \<open>Data\<close>

text \<open>A version object; an absent field is \<open>None\<close>.\<close>

record rversion =
  v_id :: nat
  v_status :: "string option"
  v_version :: "string jsobj option"

text \<open>\<open>{ ...old, ...new }\<close>: the fields present in the new object win.\<close>

definition spread :: "rversion \<Rightarrow> rversion \<Rightarrow> rversion" where
  "spread old new =
     \<lparr>v_id = v_id new,
      v_status = (case v_status new of Some x \<Rightarrow> Some x | None \<Rightarrow> v_status old),
      v_version = (case v_version new of Some x \<Rightarrow> Some x | None \<Rightarrow> v_version old)\<rparr>"

record resource =
  r_canonical :: string
  r_logs :: string
  pinned_version_id :: "nat option"
  webhook_token :: string
  check_interval :: string
  last_check :: "string option"

record versions_page =
  vp_data :: "rversion list option"
  vp_has_more :: bool
  vp_oldest_id :: "nat option"

record rv_state =
  res :: "resource option"
  versions :: "rversion list"
  more_left :: bool
  oldestId :: "nat option"
  expanded :: "nat list" \<comment> \<open>ids whose flag is true\<close>
  webhookOpen :: bool
  rv_busy :: bool
  fetchingMore :: bool
  rv_toasts :: "string list"

definition rv_mount :: rv_state where
  "rv_mount = \<lparr>res = None, versions = [], more_left = False, oldestId = None, expanded = [], webhookOpen = False,
     rv_busy = False, fetchingMore = False, rv_toasts = []\<rparr>"

definition page_data :: "versions_page \<Rightarrow> rversion list" where
  "page_data p = (case vp_data p of None \<Rightarrow> [] | Some vs \<Rightarrow> vs)"

section \<open>Merging\<close>

definition version_cmp :: "rversion \<Rightarrow> rversion \<Rightarrow> int" where
  "version_cmp a b = int (v_id b) - int (v_id a)"

definition by_id :: "rversion list \<Rightarrow> (nat \<times> rversion) list" where
  "by_id prev = foldl (\<lambda>m v. obj_set m (v_id v) v) [] prev"

definition poll_set :: "(nat \<times> rversion) list \<Rightarrow> rversion \<Rightarrow> (nat \<times> rversion) list" where
  "poll_set m v = (case map_of m (v_id v) of
       Some old \<Rightarrow> obj_set m (v_id v) (spread old v)
     | None \<Rightarrow> obj_set m (v_id v) v)"

definition more_set :: "(nat \<times> rversion) list \<Rightarrow> rversion \<Rightarrow> (nat \<times> rversion) list" where
  "more_set m v = (if map_of m (v_id v) = None then obj_set m (v_id v) v else m)"

definition merge_poll :: "rversion list \<Rightarrow> rversion list \<Rightarrow> rversion list" where
  "merge_poll news prev = js_sort version_cmp (map snd (foldl poll_set (by_id prev) news))"

definition merge_more :: "rversion list \<Rightarrow> rversion list \<Rightarrow> rversion list" where
  "merge_more older prev = js_sort version_cmp (map snd (foldl more_set (by_id prev) older))"

section \<open>Answers\<close>

definition rv_initial :: "versions_page option \<Rightarrow> rv_state \<Rightarrow> rv_state" where
  "rv_initial resp s =
     (case resp of
        None \<Rightarrow> s
      | Some p \<Rightarrow> s\<lparr>versions := page_data p, more_left := vp_has_more p, oldestId := vp_oldest_id p\<rparr>)"

definition rv_resource :: "resource option \<Rightarrow> rv_state \<Rightarrow> rv_state" where
  "rv_resource resp s = (case resp of None \<Rightarrow> s | Some r \<Rightarrow> s\<lparr>res := Some r\<rparr>)"

definition rv_poll :: "versions_page option \<Rightarrow> rv_state \<Rightarrow> rv_state" where
  "rv_poll resp s = (case resp of None \<Rightarrow> s | Some p \<Rightarrow> s\<lparr>versions := merge_poll (page_data p) (versions s)\<rparr>)"

text \<open>A scroll near the bottom sends one request at a time, while there is more.\<close>

definition rv_scroll :: "string \<Rightarrow> string \<Rightarrow> string \<Rightarrow> bool \<Rightarrow> rv_state \<Rightarrow> rv_state \<times> call list" where
  "rv_scroll tc pn rCan near_bottom s =
     (if fetchingMore s \<or> \<not> more_left s \<or> \<not> near_bottom then (s, [])
      else (s\<lparr>fetchingMore := True\<rparr>,
            [fetchResourceVersions tc pn rCan
               (Some [(''before'', case oldestId s of Some i \<Rightarrow> nat_str i | None \<Rightarrow> ''null'')])]))"

definition rv_more :: "versions_page option \<Rightarrow> rv_state \<Rightarrow> rv_state" where
  "rv_more resp s =
     (case resp of
        None \<Rightarrow> s\<lparr>fetchingMore := False\<rparr>
      | Some p \<Rightarrow> s\<lparr>versions := merge_more (page_data p) (versions s), more_left := vp_has_more p,
                    oldestId := vp_oldest_id p, fetchingMore := False\<rparr>)"

section \<open>Controls\<close>

datatype rv_action = TriggerResource | ToggleWebhook | CopyWebhook | RegenerateWebhook | Unpin
  | ToggleVersion nat | TrackVersion nat | TriggerVersion nat | PinVersion nat

definition is_pinned :: "rv_state \<Rightarrow> nat \<Rightarrow> bool" where
  "is_pinned s i \<longleftrightarrow> (case res s of None \<Rightarrow> False | Some r \<Rightarrow> pinned_version_id r = Some i)"

definition webhookUrl :: "string \<Rightarrow> rv_state \<Rightarrow> string" where
  "webhookUrl origin s = (case res s of
       Some r \<Rightarrow> if webhook_token r \<noteq> '''' then origin @ ''/webhooks/'' @ webhook_token r else ''''
     | None \<Rightarrow> '''')"

text \<open>The first half of a handler, up to its \<open>await\<close>: the state and the request sent.\<close>

definition rv_click :: "string \<Rightarrow> string \<Rightarrow> string \<Rightarrow> rv_action \<Rightarrow> rv_state \<Rightarrow> rv_state \<times> call list" where
  "rv_click tc pn rCan act s =
     (case act of
        TriggerResource \<Rightarrow> (s\<lparr>rv_busy := True\<rparr>, [triggerResource tc pn rCan])
      | ToggleWebhook \<Rightarrow> (s\<lparr>webhookOpen := \<not> webhookOpen s\<rparr>, [])
      | CopyWebhook \<Rightarrow> (s, [])
      | RegenerateWebhook \<Rightarrow> (s\<lparr>rv_busy := True\<rparr>, [regenerateWebhookToken tc pn rCan])
      | Unpin \<Rightarrow> (s\<lparr>rv_busy := True\<rparr>, [unpinResource tc pn rCan])
      | ToggleVersion i \<Rightarrow> (s\<lparr>expanded := (if i \<in> set (expanded s) then filter (\<lambda>j. j \<noteq> i) (expanded s) else i # expanded s)\<rparr>, [])
      | TrackVersion i \<Rightarrow> (s, [])
      | TriggerVersion i \<Rightarrow> (s\<lparr>rv_busy := True\<rparr>, [triggerVersion tc pn rCan (nat_str i)])
      | PinVersion i \<Rightarrow> (s\<lparr>rv_busy := True\<rparr>, [if is_pinned s i then unpinResource tc pn rCan else pinResource tc pn rCan (int i)]))"

definition set_pinned :: "nat option \<Rightarrow> rv_state \<Rightarrow> rv_state" where
  "set_pinned p s = s\<lparr>res := map_option (\<lambda>r. r\<lparr>pinned_version_id := p\<rparr>) (res s)\<rparr>"

definition rv_say :: "string \<Rightarrow> rv_state \<Rightarrow> rv_state" where
  "rv_say msg s = s\<lparr>rv_toasts := rv_toasts s @ [msg]\<rparr>"

text \<open>
  The second half. \<open>was_pinned\<close> is \<open>isPinned\<close> of the pin handler, read before its request; \<open>token\<close> is
  the answer to a regeneration (empty when the answer has none). A failure only clears the flag.
\<close>

definition rv_settled :: "rv_action \<Rightarrow> bool \<Rightarrow> bool \<Rightarrow> string \<Rightarrow> rv_state \<Rightarrow> rv_state" where
  "rv_settled act ok was_pinned token s =
     (let s1 = s\<lparr>rv_busy := False\<rparr> in
      if \<not> ok then s1
      else (case act of
              TriggerResource \<Rightarrow> rv_say ''Resource check triggered'' s1
            | RegenerateWebhook \<Rightarrow>
                if token \<noteq> ''''
                then rv_say ''Webhook token regenerated'' (s1\<lparr>res := map_option (\<lambda>r. r\<lparr>webhook_token := token\<rparr>) (res s1)\<rparr>)
                else s1
            | Unpin \<Rightarrow> rv_say ''Resource unpinned'' (set_pinned None s1)
            | TriggerVersion i \<Rightarrow> rv_say (''Triggered downstream jobs with version #'' @ nat_str i) s1
            | PinVersion i \<Rightarrow>
                if was_pinned then rv_say ''Resource unpinned'' (set_pinned None s1)
                else rv_say (''Resource pinned to version #'' @ nat_str i) (set_pinned (Some i) s1)
            | _ \<Rightarrow> s1))"

definition track_url :: "string \<Rightarrow> string \<Rightarrow> nat \<Rightarrow> string" where
  "track_url tc pn i = ''/teams/'' @ tc @ ''/pipelines/'' @ pn @ ''?version='' @ nat_str i"

section \<open>The page\<close>

definition pinnedKV :: "rv_state \<Rightarrow> string" where
  "pinnedKV s = (case res s of
       None \<Rightarrow> ''''
     | Some r \<Rightarrow> (case pinned_version_id r of
         None \<Rightarrow> ''''
       | Some i \<Rightarrow> (case List.find (\<lambda>v. v_id v = i) (versions s) of
           None \<Rightarrow> ''''
         | Some v \<Rightarrow> (case v_version v of None \<Rightarrow> '''' | Some m \<Rightarrow> join_with ''  '' (map (\<lambda>(k, x). k @ '': '' @ x) m)))))"

definition version_row :: "bool \<Rightarrow> int option \<Rightarrow> rv_state \<Rightarrow> nat \<times> rversion \<Rightarrow> rv_action html" where
  "version_row isMember tracked s = (\<lambda>(idx, v).
     let isPinned = is_pinned s (v_id v); kv = (case v_version v of None \<Rightarrow> [] | Some m \<Rightarrow> m) in
     El ''div'' [(''class'', ''piko-version-row'')] []
       [El ''div'' [] [(''onClick'', ToggleVersion (v_id v))]
          (show_if (idx = 0) [Txt ''latest''] @ show_if isPinned [Txt ''pinned'']
           @ show_if (tracked = Some (int (v_id v))) [Txt ''tracked'']
           @ (case v_status v of Some st \<Rightarrow> show_if (st \<noteq> '''') [El ''span'' [(''title'', st)] [] []] | None \<Rightarrow> [])
           @ map (\<lambda>(k, x). Txt (k @ '': '' @ x)) kv
           @ show_if isMember
               [button ''Track this version through the pipeline'' (TrackVersion (v_id v)) False '''',
                button ''Trigger downstream jobs with this version'' (TriggerVersion (v_id v)) False '''',
                button (if isPinned then ''Unpin version'' else ''Pin to this version'') (PinVersion (v_id v)) False '''']),
        El ''div'' [(''style'', if v_id v \<in> set (expanded s) then ''display:block;'' else ''display:none;'')] []
          (Txt (''ID'' @ nat_str (v_id v)) # map (\<lambda>(k, x). El ''tr'' [] [] [Txt k, Txt x]) kv)])"

definition ResourceVersions_view :: "session \<Rightarrow> string \<Rightarrow> string \<Rightarrow> string \<Rightarrow> (string option \<Rightarrow> string) \<Rightarrow> rv_state \<Rightarrow> rv_action html list" where
  "ResourceVersions_view sn tc origin search timeAgo s =
     (case res s of
        None \<Rightarrow> [El ''div'' [] [] []]
      | Some r \<Rightarrow>
          (let isMember = hasTeamRole sn tc ''write''; isAdm = hasTeamRole sn tc ''maintain'';
               tracked = (case usp_get (usp_parse search) ''version'' of Some t \<Rightarrow> if t = '''' then None else js_parseInt t | None \<Rightarrow> None) in
           show_if (r_logs r \<noteq> '''') [El ''div'' [(''role'', ''alert'')] [] [Txt (r_logs r)]]
           @ [El ''div'' [] []
                (Txt (r_canonical r) #
                 show_if isMember
                   ([El ''button'' ((''id'', ''trigger-resource'') # disabled_if (rv_busy s)) [(''onClick'', TriggerResource)]
                       [Txt (if rv_busy s then ''Triggering...'' else ''Trigger Resource'')]]
                    @ show_if isAdm [El ''a'' [(''id'', ''toggle-webhook-panel'')] [(''onClick'', ToggleWebhook)] [Txt ''Webhook URL'']]))]
           @ show_if (webhookOpen s)
               [El ''div'' [(''id'', ''webhook-panel'')] []
                  [Txt (webhookUrl origin s),
                   El ''button'' [(''id'', ''copy-webhook'')] [(''onClick'', CopyWebhook)] [Txt ''Copy''],
                   El ''button'' ((''id'', ''regenerate-webhook'') # disabled_if (rv_busy s)) [(''onClick'', RegenerateWebhook)]
                     [Txt (if rv_busy s then ''Regenerating...'' else ''Regenerate Token'')]]]
           @ [El ''div'' [] []
                [Txt (''('' @ (if check_interval r \<noteq> '''' then check_interval r else ''@every 1m'') @ '')''),
                 Txt (if \<not> truthy_str (last_check r) \<or> prefix ''0001-01-01'' (the (last_check r)) then '':'' else '' at:''),
                 Txt (timeAgo (last_check r))],
              El ''div'' [(''id'', ''pinned-version-banner'')] []
                (case pinned_version_id r of
                   Some i \<Rightarrow> show_if (i \<noteq> 0)
                     ([Txt (''Pinned to version #'' @ nat_str i)] @ show_if (pinnedKV s \<noteq> '''') [Txt (pinnedKV s)]
                      @ show_if isMember [El ''button'' [(''id'', ''unpin-banner'')] [(''onClick'', Unpin)] [Txt ''Unpin'']])
                 | None \<Rightarrow> []),
              El ''div'' [(''id'', ''resource-versions'')] [] (map (version_row isMember tracked s) (enumerate 0 (versions s)))]))"

section \<open>The list is ordered by id\<close>

interpretation version_order: descending_by version_cmp v_id "\<lambda>_. True"
  by unfold_locales (simp add: version_cmp_def)

interpretation version_list: keyed v_id spread
  by unfold_locales (simp add: spread_def)

text \<open>A \<open>Map\<close> from ids: each key belongs to its value, and no key occurs twice.\<close>

definition id_map :: "(nat \<times> rversion) list \<Rightarrow> bool" where
  "id_map m \<longleftrightarrow> distinct (map fst m) \<and> (\<forall>e \<in> set m. v_id (snd e) = fst e)"

lemma set_obj_set_subset: "set (obj_set m k v) \<subseteq> insert (k, v) (set m)"
  by (induction m k v rule: obj_set.induct) auto

lemma id_map_set: "id_map m \<Longrightarrow> v_id v = k \<Longrightarrow> id_map (obj_set m k v)"
  using set_obj_set_subset [of m k v] by (auto simp: id_map_def distinct_obj_set)

lemma id_map_poll: "id_map m \<Longrightarrow> id_map (poll_set m v)"
  by (auto simp: poll_set_def id_map_set spread_def split: option.splits)

lemma id_map_more: "id_map m \<Longrightarrow> id_map (more_set m v)"
  by (simp add: more_set_def id_map_set)

lemma id_map_fold: "(\<And>m v. id_map m \<Longrightarrow> id_map (f m v)) \<Longrightarrow> id_map m \<Longrightarrow> id_map (foldl f m vs)"
  by (induction vs arbitrary: m) auto

lemma id_map_by_id: "id_map (by_id prev)"
  unfolding by_id_def by (rule id_map_fold) (simp add: id_map_set, simp add: id_map_def)

lemma keys_fold:
  "(\<And>m v. fst ` set (f m v) = insert (v_id v) (fst ` set m)) \<Longrightarrow>
   fst ` set (foldl f m vs) = fst ` set m \<union> v_id ` set vs"
  by (induction vs arbitrary: m) auto

lemma keys_by_id: "fst ` set (by_id prev) = v_id ` set prev"
  unfolding by_id_def by (subst keys_fold) auto

lemma keys_poll: "fst ` set (poll_set m v) = insert (v_id v) (fst ` set m)"
  by (simp add: poll_set_def split: option.splits)

lemma keys_more: "fst ` set (more_set m v) = insert (v_id v) (fst ` set m)"
  by (auto simp: more_set_def map_of_eq_None_iff insert_absorb)

definition strictly_descending :: "rversion list \<Rightarrow> bool" where
  "strictly_descending vs \<longleftrightarrow> sorted_wrt (\<lambda>a b. v_id b < v_id a) vs"

lemma id_map_ids: "id_map m \<Longrightarrow> map v_id (map snd m) = map fst m"
  by (auto simp: id_map_def)

lemma strict_from_distinct:
  "sorted_wrt (\<lambda>a b. v_id b \<le> v_id a) vs \<Longrightarrow> distinct (map v_id vs) \<Longrightarrow> strictly_descending vs"
  unfolding strictly_descending_def by (induction vs) (auto simp: image_iff, metis le_neq_implies_less)

lemma sorted_id_map:
  assumes "id_map m"
  shows "strictly_descending (js_sort version_cmp (map snd m)) \<and> v_id ` set (js_sort version_cmp (map snd m)) = fst ` set m"
proof
  let ?l = "js_sort version_cmp (map snd m)"
  have "sorted_wrt (\<lambda>a b. v_id b \<le> v_id a) ?l" by (rule version_order.sort_sorted) simp
  moreover have "distinct (map v_id ?l)"
    using id_map_ids [OF assms] assms by (simp add: id_map_def del: map_map)
  ultimately show "strictly_descending ?l" by (rule strict_from_distinct)
  show "v_id ` set ?l = fst ` set m"
    using arg_cong [OF id_map_ids [OF assms], of set] by (simp add: image_image)
qed

lemma merge_poll_spec:
  "strictly_descending (merge_poll news prev) \<and> v_id ` set (merge_poll news prev) = v_id ` set prev \<union> v_id ` set news"
proof -
  have "id_map (foldl poll_set (by_id prev) news)" by (intro id_map_fold id_map_poll id_map_by_id)
  from sorted_id_map [OF this] show ?thesis
    using keys_fold [of poll_set "by_id prev" news, OF keys_poll] by (simp add: merge_poll_def keys_by_id)
qed

lemma merge_more_spec:
  "strictly_descending (merge_more older prev) \<and> v_id ` set (merge_more older prev) = v_id ` set prev \<union> v_id ` set older"
proof -
  have "id_map (foldl more_set (by_id prev) older)" by (intro id_map_fold id_map_more id_map_by_id)
  from sorted_id_map [OF this] show ?thesis
    using keys_fold [of more_set "by_id prev" older, OF keys_more] by (simp add: merge_more_def keys_by_id)
qed

section \<open>Runs\<close>

datatype rv_event = VInitial "versions_page option" | VPoll "versions_page option" | VMore "versions_page option" | VScroll bool
  | VResource "resource option" | VClick rv_action | VSettled rv_action bool bool string

definition rv_step :: "string \<Rightarrow> string \<Rightarrow> string \<Rightarrow> rv_state \<Rightarrow> rv_event \<Rightarrow> rv_state" where
  "rv_step tc pn rCan s e =
     (case e of
        VInitial p \<Rightarrow> rv_initial p s
      | VPoll p \<Rightarrow> rv_poll p s
      | VMore p \<Rightarrow> rv_more p s
      | VScroll near \<Rightarrow> fst (rv_scroll tc pn rCan near s)
      | VResource r \<Rightarrow> rv_resource r s
      | VClick a \<Rightarrow> fst (rv_click tc pn rCan a s)
      | VSettled a ok was tok \<Rightarrow> rv_settled a ok was tok s)"

lemma versions_click [simp]: "versions (fst (rv_click tc pn rCan a s)) = versions s"
  by (cases a) (auto simp: rv_click_def)

lemma versions_settled [simp]: "versions (rv_settled a ok was tok s) = versions s"
  by (cases a) (auto simp: rv_settled_def rv_say_def set_pinned_def Let_def)

lemma versions_other [simp]:
  "versions (fst (rv_scroll tc pn rCan near s)) = versions s" "versions (rv_resource r s) = versions s"
  by (auto simp: rv_scroll_def rv_resource_def split: option.splits)

text \<open>The server lists versions from the newest id down.\<close>

definition rv_event_ok :: "rv_event \<Rightarrow> bool" where
  "rv_event_ok e = (case e of VInitial (Some p) \<Rightarrow> strictly_descending (page_data p) | _ \<Rightarrow> True)"

interpretation version_page: preserves "rv_step tc pn rCan" rv_event_ok "\<lambda>s. strictly_descending (versions s)" for tc pn rCan
  using merge_poll_spec merge_more_spec
  by unfold_locales
    (auto simp: rv_step_def rv_event_ok_def rv_initial_def rv_poll_def rv_more_def split: rv_event.splits option.splits)

text \<open>The versions an answer brings to those already listed, for all answers but the initial one, which replaces the list.\<close>

definition replaces_list :: "rv_event \<Rightarrow> bool" where
  "replaces_list e = (case e of VInitial (Some p) \<Rightarrow> True | _ \<Rightarrow> False)"

definition brought :: "rv_event \<Rightarrow> rversion list" where
  "brought e = (case e of VPoll (Some p) \<Rightarrow> page_data p | VMore (Some p) \<Rightarrow> page_data p | _ \<Rightarrow> [])"

lemma rv_step_ids:
  "\<not> replaces_list e \<Longrightarrow> v_id ` set (versions (rv_step tc pn rCan s e)) = v_id ` set (versions s) \<union> v_id ` set (brought e)"
  using merge_poll_spec merge_more_spec
  by (auto simp: rv_step_def rv_initial_def rv_poll_def rv_more_def replaces_list_def brought_def split: rv_event.splits option.splits)

lemma rv_run_ids:
  "\<forall>e \<in> set es. \<not> replaces_list e \<Longrightarrow>
   v_id ` set (versions (run (rv_step tc pn rCan) s es)) = v_id ` set (versions s) \<union> v_id ` set (concat (map brought es))"
  by (induction es arbitrary: s) (auto simp: rv_step_ids image_Un)

section \<open>Properties\<close>

text \<open>
  C15. The version list, from the mount on, whatever initial answers, polls, older pages, clicks and answers
  arrive in any order, of a server that lists versions from the newest id down: the list is always strictly
  descending by id, so no version is listed twice. The initial answer replaces the list by its page; every other
  sequence of events keeps all versions listed before it and adds exactly those of its polls and older pages.
\<close>

theorem versions_ordered_and_kept:
  assumes "\<forall>e \<in> set es \<union> set fs. rv_event_ok e" and "\<forall>e \<in> set fs. \<not> replaces_list e"
  shows "strictly_descending (versions (run (rv_step tc pn rCan) rv_mount (es @ fs)))
    \<and> versions (rv_step tc pn rCan s (VInitial (Some p))) = page_data p
    \<and> v_id ` set (versions (run (rv_step tc pn rCan) rv_mount (es @ fs))) =
        v_id ` set (versions (run (rv_step tc pn rCan) rv_mount es)) \<union> v_id ` set (concat (map brought fs))"
proof -
  have "strictly_descending (versions rv_mount)" by (simp add: rv_mount_def strictly_descending_def)
  from version_page.inv_run [OF this, of "es @ fs"] assms(1)
  have "strictly_descending (versions (run (rv_step tc pn rCan) rv_mount (es @ fs)))" by auto
  moreover have "versions (rv_step tc pn rCan s (VInitial (Some p))) = page_data p"
    by (simp add: rv_step_def rv_initial_def)
  ultimately show ?thesis using rv_run_ids [OF assms(2)] by (simp add: run_append)
qed

text \<open>
  The first poll is sent together with the initial request; when its answer comes first, the initial answer
  takes a version away that the poll had brought.
\<close>

lemma late_initial_answer_drops_version:
  "(let page = (\<lambda>is. Some \<lparr>vp_data = Some (map (\<lambda>i. \<lparr>v_id = i, v_status = None, v_version = None\<rparr>) is),
                          vp_has_more = False, vp_oldest_id = None\<rparr>);
        polled = run (rv_step ''t'' ''p'' ''r'') rv_mount [VPoll (page [2, 1])]
    in map v_id (versions polled) = [2, 1]
       \<and> map v_id (versions (rv_step ''t'' ''p'' ''r'' polled (VInitial (page [1])))) = [1])"
  by code_simp

text \<open>
  A poll adds exactly the new ids, in any order of the answer, and restores the order even if the
  list was not in order before.
\<close>

theorem rv_poll_union:
  "strictly_descending (versions (rv_poll (Some p) s))
   \<and> v_id ` set (versions (rv_poll (Some p) s)) = v_id ` set (versions s) \<union> v_id ` set (page_data p)"
  using merge_poll_spec [of "page_data p" "versions s"] by (simp add: rv_poll_def)

text \<open>
  The pin control: on a loaded resource a click followed by a successful answer pins the version
  if it was not pinned and unpins it if it was, so two clicks restore what was shown.
\<close>

theorem pin_toggles:
  assumes "res s = Some r"
  shows "is_pinned (rv_settled (PinVersion i) True (is_pinned s i) tok (fst (rv_click tc pn rCan (PinVersion i) s))) j
    \<longleftrightarrow> (if is_pinned s i then False else j = i)"
  using assms by (auto simp: rv_settled_def rv_click_def rv_say_def set_pinned_def is_pinned_def Let_def)

section \<open>Examples\<close>

definition demo_rv :: rv_state where
  "demo_rv = \<lparr>res = Some \<lparr>r_canonical = ''git.code'', r_logs = '''', pinned_version_id = Some 7, webhook_token = '''',
       check_interval = '''', last_check = None\<rparr>, versions = [\<lparr>v_id = 7, v_status = None, v_version = None\<rparr>],
     more_left = False, oldestId = None, expanded = [], webhookOpen = False, rv_busy = False, fetchingMore = False, rv_toasts = []\<rparr>"

definition demo_versions :: "nat list \<Rightarrow> versions_page" where
  "demo_versions is = \<lparr>vp_data = Some (map (\<lambda>i. \<lparr>v_id = i, v_status = None, v_version = None\<rparr>) is),
     vp_has_more = False, vp_oldest_id = None\<rparr>"

theorem versions_ordered_and_kept_witness:
  "v_id ` set (versions (run (rv_step ''t'' ''p'' ''r'') rv_mount
     [VInitial (Some (demo_versions [3, 2])), VPoll (Some (demo_versions [4, 3])), VScroll True, VMore (Some (demo_versions [1]))])) = {1, 2, 3, 4}"
proof -
  let ?es = "[VInitial (Some (demo_versions [3, 2]))]"
  let ?fs = "[VPoll (Some (demo_versions [4, 3])), VScroll True, VMore (Some (demo_versions [1]))]"
  have "\<forall>e \<in> set ?es \<union> set ?fs. rv_event_ok e" "\<forall>e \<in> set ?fs. \<not> replaces_list e"
    by (simp_all add: rv_event_ok_def replaces_list_def demo_versions_def page_data_def strictly_descending_def)
  from versions_ordered_and_kept [OF this, of "''t''" "''p''" "''r''"] show ?thesis
    by (simp add: brought_def demo_versions_def page_data_def) (auto simp: rv_step_def rv_initial_def page_data_def)
qed

theorem pin_toggles_witness:
  "\<not> is_pinned (rv_settled (PinVersion 7) True (is_pinned demo_rv 7) '''' (fst (rv_click ''t'' ''p'' ''r'' (PinVersion 7) demo_rv))) 7"
proof -
  have "res demo_rv = Some (the (res demo_rv))" by (simp add: demo_rv_def)
  moreover have "is_pinned demo_rv 7" by (simp add: is_pinned_def demo_rv_def)
  ultimately show ?thesis using pin_toggles [of demo_rv _ 7 "''''" "''t''" "''p''" "''r''" 7] by simp
qed

end
