(* ===== verification/PipelineShow.thy ===== *)
theory PipelineShow
  imports PipelineListState PipelineGraph ResourceVersions
begin

text \<open>
  \<open>PipelineShow.js\<close>: the page of a pipeline with its graph or list view, the tracked version, the
  option panels and the resources panel. The list view is the component of \<open>PipelineListState\<close>, kept
  in the page's state while it is mounted; the graph is zoomed by the object of \<open>GraphZoom\<close>.

  The list view hands its methods to the page in an effect that runs once, so that they see the
  tracked version of its first render: a mounted list is kept together with that value.

  Lemmas: who is offered which action; the first resource with a path is tracked; clearing the scope
  clears page and list; links out of the graph carry the tracked version.
\<close>

section \<open>State\<close>

record show_pipeline =
  sp_name :: string
  sp_public :: bool
  sp_paused :: "bool list option" \<comment> \<open>\<open>paused\<close> of its jobs\<close>
  sp_def :: pipeline

record tracked =
  tv_resource :: string
  tv_versionID :: int
  tv_ref :: string

record banner =
  bn_resource :: string
  bn_ref :: string
  bn_completed :: nat
  bn_total :: nat

record path_answer =
  pa_resource :: "(string \<times> version) option"
  pa_completed :: nat
  pa_total :: nat
  pa_path :: "scope_entry list option"

record panel_resource =
  pr_canonical :: string
  pr_type :: string
  pr_latest :: "rversion option"
  pr_check_interval :: string
  pr_last_check :: "string option"
  pr_pinned :: "nat option"

datatype show_effect = Ask call | Say string string | GoTo string

record show_page =
  pipe :: "show_pipeline option"
  show_dot :: "image_data option"
  show_resources :: "panel_resource list"
  currentView :: string
  resourcesPanelOpen :: bool
  gearPanelOpen :: bool
  sharePanelOpen :: bool
  hideIntermediates :: bool
  groupParallel :: bool
  trackedVersion :: "tracked option"
  show_banner :: "banner option"
  resolvedRef :: bool
  listView :: "(int option \<times> list_view) option" \<comment> \<open>the tracked id of its first render, its state\<close>
  graphZoom :: "zoomer option"
  location :: string
  storage :: "string jsobj"
  list_saved :: "string option \<times> string option \<times> string list option"

definition show_mount :: "string \<Rightarrow> string jsobj \<Rightarrow> string option \<times> string option \<times> string list option \<Rightarrow> show_page" where
  "show_mount loc st sv =
     \<lparr>pipe = None, show_dot = None, show_resources = [],
      currentView = (case map_of st ''piko-pipeline-view'' of
          Some v \<Rightarrow> if v = '''' \<or> v = ''pipeline'' then ''graph'' else v | None \<Rightarrow> ''graph''),
      resourcesPanelOpen = False, gearPanelOpen = False, sharePanelOpen = False,
      hideIntermediates = (map_of st ''piko-hide-intermediates'' = Some ''1''),
      groupParallel = (map_of st ''piko-group-parallel'' = Some ''1''),
      trackedVersion = None, show_banner = None, resolvedRef = False, listView = None, graphZoom = None,
      location = loc, storage = st, list_saved = sv\<rparr>"

text \<open>\<open>initialVID\<close>: read from the URL again on every render; 0 and unreadable values count as none.\<close>

definition initialVID :: "show_page \<Rightarrow> int option" where
  "initialVID s =
     (case usp_get (usp_parse (dropWhile (\<lambda>c. c \<noteq> CHR ''?'') (location s))) ''version'' of
        Some v \<Rightarrow> if js_parseInt v = Some 0 then None else js_parseInt v
      | None \<Rightarrow> None)"

definition trackedVID :: "show_page \<Rightarrow> int option" where
  "trackedVID s = map_option tv_versionID (trackedVersion s)"

definition base_path :: "string \<Rightarrow> string \<Rightarrow> string" where
  "base_path tc pn = ''/teams/'' @ tc @ ''/pipelines/'' @ pn"

section \<open>The mounted list view\<close>

text \<open>Rendering mounts the list view when it is shown, and unmounts it when it is not.\<close>

definition sync_list :: "show_page \<Rightarrow> show_page" where
  "sync_list s =
     (case (currentView s = ''graph'', pipe s, listView s) of
        (False, Some p, None) \<Rightarrow>
          s\<lparr>listView := Some (trackedVID s,
              list_mount (sp_def p) (fst (list_saved s)) (fst (snd (list_saved s))) (snd (snd (list_saved s))))\<rparr>
      | (True, _, Some (v, l)) \<Rightarrow>
          s\<lparr>listView := None, list_saved := (saved_resource l, saved_job l, saved_collapsed l)\<rparr>
      | _ \<Rightarrow> s)"

text \<open>A call of a list method; a URL it writes is the page's.\<close>

definition with_list :: "(int option \<Rightarrow> list_view \<Rightarrow> list_view) \<Rightarrow> show_page \<Rightarrow> show_page" where
  "with_list f s =
     (case listView s of
        None \<Rightarrow> s
      | Some (v, l) \<Rightarrow>
          (let l' = f v (l\<lparr>urls := []\<rparr>)
           in s\<lparr>listView := Some (v, l'), location := (if urls l' = [] then location s else last (urls l'))\<rparr>))"

definition path_scope :: "path_answer \<Rightarrow> path_data" where
  "path_scope a = \<lparr>pd_path = pa_path a, pd_version = map_option snd (pa_resource a)\<rparr>"

definition applyVersionScope :: "string \<Rightarrow> string \<Rightarrow> path_answer \<Rightarrow> show_page \<Rightarrow> show_page" where
  "applyVersionScope tc pn a s = with_list (\<lambda>v. applyVersionScopeInternal tc pn v (path_scope a)) s"

section \<open>Fetching\<close>

definition pipeline_answer :: "show_pipeline option \<Rightarrow> show_page \<Rightarrow> show_page" where
  "pipeline_answer resp s = (case resp of Some p \<Rightarrow> sync_list (s\<lparr>pipe := Some p\<rparr>) | None \<Rightarrow> s)"

definition refreshResources :: "string \<Rightarrow> string \<Rightarrow> show_effect" where
  "refreshResources tc pn = Ask (fetchResources tc pn)"

text \<open>A failed request is \<open>None\<close>, an answer without data \<open>Some None\<close>.\<close>

definition resources_answer :: "panel_resource list option option \<Rightarrow> show_page \<Rightarrow> show_page" where
  "resources_answer resp s =
     (case resp of None \<Rightarrow> s | Some d \<Rightarrow> s\<lparr>show_resources := (case d of Some rs \<Rightarrow> rs | None \<Rightarrow> [])\<rparr>)"

definition image_params :: "int option \<Rightarrow> show_page \<Rightarrow> params" where
  "image_params versionID s =
     (if hideIntermediates s then [(''hide_intermediates'', ''1'')] else [])
     @ (if groupParallel s then [(''group_parallel'', ''1'')] else [])
     @ (case versionID of Some v \<Rightarrow> if v \<noteq> 0 then [(''version_id'', int_str v)] else [] | None \<Rightarrow> [])"

definition show_fetchImage :: "string \<Rightarrow> string \<Rightarrow> int option \<Rightarrow> show_page \<Rightarrow> show_effect" where
  "show_fetchImage tc pn versionID s =
     Ask (fetchPipelineImage tc pn (if image_params versionID s = [] then None else Some (image_params versionID s)))"

definition image_answered :: "image_answer option \<Rightarrow> show_page \<Rightarrow> show_page" where
  "image_answered resp s =
     (case Option.bind resp picked_image of Some d \<Rightarrow> s\<lparr>show_dot := Some d\<rparr> | None \<Rightarrow> s)"

section \<open>Version tracking\<close>

definition pollVersionPath :: "string \<Rightarrow> string \<Rightarrow> tracked \<Rightarrow> show_effect list" where
  "pollVersionPath tc pn tv =
     (if tv_resource tv = '''' then []
      else [Ask (fetchVersionPath tc pn (tv_resource tv) (int_str (tv_versionID tv)) None)])"

text \<open>The answer; without a \<open>resource\<close> it throws before anything is set, and the \<open>catch\<close> drops that.\<close>

definition path_answered :: "string \<Rightarrow> string \<Rightarrow> tracked \<Rightarrow> path_answer option \<Rightarrow> show_page \<Rightarrow> show_page" where
  "path_answered tc pn tv resp s =
     (case resp of
        None \<Rightarrow> s
      | Some a \<Rightarrow>
          (case pa_resource a of
             None \<Rightarrow> s
           | Some (can, ver) \<Rightarrow>
               applyVersionScope tc pn a
                 (s\<lparr>show_banner := Some \<lparr>bn_resource = can,
                      bn_ref = (if tv_ref tv \<noteq> '''' then tv_ref tv
                                else if ver \<noteq> NoVersion then js_string (versionRef ver) else ''''),
                      bn_completed = pa_completed a, bn_total = pa_total a\<rparr>\<rparr>)))"

definition pollCallback :: "string \<Rightarrow> string \<Rightarrow> show_page \<Rightarrow> show_effect list" where
  "pollCallback tc pn s =
     (case trackedVersion s of
        Some tv \<Rightarrow> show_fetchImage tc pn (Some (tv_versionID tv)) s # pollVersionPath tc pn tv
      | None \<Rightarrow> [show_fetchImage tc pn (initialVID s) s])"

definition trackVersion :: "string \<Rightarrow> string \<Rightarrow> string \<Rightarrow> int \<Rightarrow> string \<Rightarrow> show_page \<Rightarrow> show_page \<times> show_effect list" where
  "trackVersion tc pn rc vid ref s =
     (let tv = \<lparr>tv_resource = rc, tv_versionID = vid, tv_ref = ref\<rparr>
      in (s\<lparr>trackedVersion := Some tv, location := base_path tc pn @ ''?version='' @ int_str vid\<rparr>,
          show_fetchImage tc pn (Some vid) s # pollVersionPath tc pn tv))"

definition clearVersionScope :: "string \<Rightarrow> string \<Rightarrow> show_page \<Rightarrow> show_page \<times> show_effect list" where
  "clearVersionScope tc pn s =
     (with_list (\<lambda>v. clearVersionScopeInternal)
        (s\<lparr>trackedVersion := None, show_banner := None, location := base_path tc pn\<rparr>),
      [show_fetchImage tc pn None s])"

text \<open>
  The version of the URL belongs to one of the resources, which are asked one after the other; the
  answers are given in that order. The result includes the requests sent.
\<close>

definition silent_opts :: opts where
  "silent_opts = default_opts\<lparr>silent := True\<rparr>"

definition has_path :: "path_answer option \<Rightarrow> bool" where
  "has_path resp = (case resp of Some a \<Rightarrow> (case pa_path a of Some (e # es) \<Rightarrow> True | _ \<Rightarrow> False) | None \<Rightarrow> False)"

definition resolve_hit :: "string \<Rightarrow> string \<Rightarrow> int \<Rightarrow> string \<Rightarrow> path_answer \<Rightarrow> show_page \<Rightarrow> show_page" where
  "resolve_hit tc pn vid rCan a s =
     (let ref = (case pa_resource a of Some (c, ver) \<Rightarrow> if ver \<noteq> NoVersion then js_string (versionRef ver) else '''' | None \<Rightarrow> '''')
      in applyVersionScope tc pn a
           (s\<lparr>trackedVersion := Some \<lparr>tv_resource = rCan, tv_versionID = vid, tv_ref = ref\<rparr>,
              show_banner := Some \<lparr>bn_resource = rCan, bn_ref = ref, bn_completed = pa_completed a, bn_total = pa_total a\<rparr>\<rparr>))"

fun resolveVersionResource :: "string \<Rightarrow> string \<Rightarrow> int \<Rightarrow> (string \<times> path_answer option) list \<Rightarrow> show_page \<Rightarrow> show_page \<times> show_effect list" where
  "resolveVersionResource tc pn vid [] s = (s, [])"
| "resolveVersionResource tc pn vid ((rCan, resp) # rest) s =
     (let ask = Ask (fetchVersionPath tc pn rCan (int_str vid) (Some silent_opts)) in
      if has_path resp then (resolve_hit tc pn vid rCan (the resp) s, [ask])
      else (let (s', es) = resolveVersionResource tc pn vid rest s in (s', ask # es)))"

text \<open>The effect that starts it, once, when the resources are known.\<close>

definition resolve_effect :: "string \<Rightarrow> string \<Rightarrow> (string \<Rightarrow> path_answer option) \<Rightarrow> show_page \<Rightarrow> show_page \<times> show_effect list" where
  "resolve_effect tc pn answers s =
     (case initialVID s of
        None \<Rightarrow> (s, [])
      | Some vid \<Rightarrow>
          if show_resources s = [] \<or> resolvedRef s then (s, [])
          else resolveVersionResource tc pn vid (map (\<lambda>r. (pr_canonical r, answers (pr_canonical r))) (show_resources s))
                 (s\<lparr>resolvedRef := True\<rparr>))"

section \<open>Graph\<close>

text \<open>A click on a link of the graph; the tracked version is appended to its target.\<close>

definition onGraphClick :: "show_page \<Rightarrow> string \<Rightarrow> string" where
  "onGraphClick s href =
     (case trackedVersion s of
        Some tv \<Rightarrow>
          if tv_versionID tv \<noteq> 0
          then href @ (if CHR ''?'' \<in> set href then ''&'' else ''?'') @ ''version='' @ int_str (tv_versionID tv)
          else href
      | None \<Rightarrow> href)"

text \<open>The drawn SVG number \<open>n\<close>; the legend of the page is neither in the container nor next to it.\<close>

definition show_onSVGReady :: "nat \<Rightarrow> svg_doc \<Rightarrow> real \<Rightarrow> real \<Rightarrow> show_page \<Rightarrow> show_page" where
  "show_onSVGReady n d cw ch s =
     (let z = (case graphZoom s of Some z \<Rightarrow> z | None \<Rightarrow> PikoGraphZoom False)
      in s\<lparr>graphZoom := Some (attachSVG n (zoom_attrs d) cw ch (graph_drawn n z))\<rparr>)"

definition show_unmount :: "show_page \<Rightarrow> zoomer option" where
  "show_unmount s = map_option destroy (graphZoom s)"

section \<open>Views and panels\<close>

definition switchView :: "string \<Rightarrow> show_page \<Rightarrow> show_page" where
  "switchView m s =
     sync_list (s\<lparr>currentView := m, storage := obj_set (storage s) ''piko-pipeline-view'' m,
                  gearPanelOpen := False, sharePanelOpen := False\<rparr>)"

definition toggleGearPanel :: "show_page \<Rightarrow> show_page" where
  "toggleGearPanel s = s\<lparr>sharePanelOpen := False, gearPanelOpen := \<not> gearPanelOpen s\<rparr>"

definition toggleSharePanel :: "show_page \<Rightarrow> show_page" where
  "toggleSharePanel s = s\<lparr>gearPanelOpen := False, sharePanelOpen := \<not> sharePanelOpen s\<rparr>"

definition onHideIntermediates :: "bool \<Rightarrow> show_page \<Rightarrow> show_page" where
  "onHideIntermediates checked s =
     s\<lparr>storage := obj_set (storage s) ''piko-hide-intermediates'' (if checked then ''1'' else ''0''), hideIntermediates := checked\<rparr>"

definition onGroupParallel :: "bool \<Rightarrow> show_page \<Rightarrow> show_page" where
  "onGroupParallel checked s =
     s\<lparr>storage := obj_set (storage s) ''piko-group-parallel'' (if checked then ''1'' else ''0''), groupParallel := checked\<rparr>"

text \<open>A click elsewhere in the document; the flags tell whether it hit a panel or its button.\<close>

definition show_outside_click :: "bool \<Rightarrow> bool \<Rightarrow> show_page \<Rightarrow> show_page" where
  "show_outside_click on_gear on_share s =
     s\<lparr>gearPanelOpen := (gearPanelOpen s \<and> on_gear), sharePanelOpen := (sharePanelOpen s \<and> on_share)\<rparr>"

definition getShareUrls :: "string \<Rightarrow> string \<Rightarrow> string \<Rightarrow> show_page \<Rightarrow> string \<times> string \<times> string" where
  "getShareUrls origin tc pn s =
     (let base = origin @ base_path tc pn;
          ps = (if hideIntermediates s then [''hide_intermediates=1''] else []) @ (if groupParallel s then [''group_parallel=1''] else []);
          qs = (if ps \<noteq> [] then ''?'' @ join_with ''&'' ps else '''');
          svgUrl = base @ ''/image.svg'' @ qs;
          nm = (case pipe s of Some p \<Rightarrow> sp_name p | None \<Rightarrow> pn)
      in (svgUrl, base @ ''/image.png'' @ qs, ''!['' @ nm @ '']('' @ svgUrl @ '')''))"

definition toggleResourcesPanel :: "string \<Rightarrow> string \<Rightarrow> show_page \<Rightarrow> show_page \<times> show_effect list" where
  "toggleResourcesPanel tc pn s =
     (s\<lparr>resourcesPanelOpen := \<not> resourcesPanelOpen s\<rparr>, if resourcesPanelOpen s then [] else [refreshResources tc pn])"

section \<open>Actions on the pipeline\<close>

datatype show_action =
    PausePipeline | UnpausePipeline | OpenSecrets | EditPipeline | DeletePipeline
  | SwitchView string | ResourcesPanel | GearPanel | HideIntermediates | GroupParallel | SharePanel | CopyUrl string | ClearScopeNow
  | ClosePanel | OpenResource string | CheckResource string | ToggleVersions string
  | PanelTrack string nat string | PanelTrigger string nat | PanelPin string nat bool | GraphClick | InList list_action

text \<open>\<open>confirmed\<close>: the answer to the question asked before a deletion; \<open>ok\<close>: the request succeeded.\<close>

definition clickDelete :: "string \<Rightarrow> string \<Rightarrow> bool \<Rightarrow> bool \<Rightarrow> show_effect list" where
  "clickDelete tc pn confirmed ok =
     (if \<not> confirmed then []
      else Ask (deletePipeline tc pn) # (if ok then [GoTo (''/teams/'' @ tc @ ''/pipelines'')] else []))"

definition clickPause :: "string \<Rightarrow> string \<Rightarrow> bool \<Rightarrow> show_effect list" where
  "clickPause tc pn ok =
     Ask (pausePipeline tc pn) # (if ok then [Say ''Pipeline paused'' ''success'', Ask (fetchPipeline tc pn)] else [])"

definition clickUnpause :: "string \<Rightarrow> string \<Rightarrow> bool \<Rightarrow> show_effect list" where
  "clickUnpause tc pn ok =
     Ask (unpausePipeline tc pn) # (if ok then [Say ''Pipeline unpaused'' ''success'', Ask (fetchPipeline tc pn)] else [])"

definition clickEdit :: "string \<Rightarrow> string \<Rightarrow> string" where
  "clickEdit tc pn = base_path tc pn @ ''/edit''"

definition clickSecrets :: "string \<Rightarrow> string \<Rightarrow> string" where
  "clickSecrets tc pn = base_path tc pn @ ''/secrets''"

section \<open>Resources panel\<close>

record panel =
  expandedResources :: "string list" \<comment> \<open>the keys present\<close>
  versionLists :: "rversion list jsobj"

definition panel_ref :: "rversion \<Rightarrow> string" where
  "panel_ref v = (case v_version v of
       Some m \<Rightarrow> js_string (versionRef (VersionMap (map (\<lambda>(k, x). (k, JStr x)) m))) | None \<Rightarrow> '''')"

definition checkNow :: "string \<Rightarrow> string \<Rightarrow> string \<Rightarrow> bool \<Rightarrow> show_effect list" where
  "checkNow tc pn canonical ok =
     Ask (triggerResource tc pn canonical) #
     (if ok then [Say ''Resource check triggered'' ''success'', refreshResources tc pn]
      else [Say ''Failed to trigger resource check'' ''error''])"

definition fetchPanelVersions :: "string \<Rightarrow> string \<Rightarrow> string \<Rightarrow> show_effect" where
  "fetchPanelVersions tc pn canonical = Ask (fetchResourceVersions tc pn canonical (Some [(''limit'', ''5'')]))"

definition panel_answer :: "string \<Rightarrow> rversion list option \<Rightarrow> panel \<Rightarrow> panel" where
  "panel_answer canonical resp p =
     (case resp of Some vs \<Rightarrow> p\<lparr>versionLists := obj_set (versionLists p) canonical vs\<rparr> | None \<Rightarrow> p)"

definition toggleVersionsList :: "string \<Rightarrow> string \<Rightarrow> string \<Rightarrow> panel \<Rightarrow> panel \<times> show_effect list" where
  "toggleVersionsList tc pn canonical p =
     (if canonical \<in> set (expandedResources p)
      then (p\<lparr>expandedResources := filter (\<lambda>c. c \<noteq> canonical) (expandedResources p)\<rparr>, [])
      else (p\<lparr>expandedResources := expandedResources p @ [canonical]\<rparr>, [fetchPanelVersions tc pn canonical]))"

definition refreshExpanded :: "string \<Rightarrow> string \<Rightarrow> panel \<Rightarrow> show_effect list" where
  "refreshExpanded tc pn p = map (fetchPanelVersions tc pn) (expandedResources p)"

definition handleTrigger :: "string \<Rightarrow> string \<Rightarrow> string \<Rightarrow> nat \<Rightarrow> bool \<Rightarrow> show_effect list" where
  "handleTrigger tc pn canonical vid ok =
     Ask (triggerVersion tc pn canonical (nat_str vid)) #
     (if ok then [Say (''Triggered downstream jobs with version #'' @ nat_str vid) ''success''] else [])"

definition handlePin :: "string \<Rightarrow> string \<Rightarrow> string \<Rightarrow> nat \<Rightarrow> bool \<Rightarrow> bool \<Rightarrow> show_effect list" where
  "handlePin tc pn canonical vid isPinned ok =
     (if isPinned
      then Ask (unpinResource tc pn canonical) # (if ok then [Say ''Resource unpinned'' ''success'', refreshResources tc pn] else [])
      else Ask (pinResource tc pn canonical (int vid)) #
           (if ok then [Say (''Resource pinned to version #'' @ nat_str vid) ''success'', refreshResources tc pn] else []))"

definition resourceUrl :: "string \<Rightarrow> string \<Rightarrow> string \<Rightarrow> string" where
  "resourceUrl tc pn canonical = base_path tc pn @ ''/resources/'' @ canonical @ ''/versions''"

section \<open>The page\<close>

definition panel_version_row :: "bool \<Rightarrow> int option \<Rightarrow> panel_resource \<Rightarrow> rversion \<Rightarrow> show_action html" where
  "panel_version_row isMember tvid r v =
     (let ref = panel_ref v; isPinned = (pr_pinned r = Some (v_id v)); isTracked = (tvid = Some (int (v_id v))) in
      El ''div'' [(''class'', ''piko-resource-panel-version-item'' @ (if isTracked then '' tracked'' else ''''))] []
        ([El ''span'' [(''class'', ''piko-vsel-dot piko-status-dot-'' @ (case v_status v of Some st \<Rightarrow> st | None \<Rightarrow> ''''))] [] [], Txt ref]
         @ (if isTracked then [El ''span'' [(''class'', ''piko-panel-tracking-badge'')] [] []]
            else [button ''Track'' (PanelTrack (pr_canonical r) (v_id v) ref) False ''''])
         @ show_if isMember
             [button ''Trigger'' (PanelTrigger (pr_canonical r) (v_id v)) False '''',
              button (if isPinned then ''Unpin'' else ''Pin'') (PanelPin (pr_canonical r) (v_id v) isPinned) False '''']))"

definition panel_card :: "bool \<Rightarrow> int option \<Rightarrow> (string option \<Rightarrow> string) \<Rightarrow> panel \<Rightarrow> panel_resource \<Rightarrow> show_action html" where
  "panel_card isMember tvid timeAgo p r =
     (let c = pr_canonical r; is_open = (c \<in> set (expandedResources p)) in
      El ''div'' [(''class'', ''piko-resource-card''), (''data-canonical'', c)] []
        ((case Option.bind (pr_latest r) v_status of
            Some st \<Rightarrow> show_if (st \<noteq> '''') [El ''span'' [(''title'', st)] [] []] | None \<Rightarrow> [])
         @ [El ''a'' [] [(''onClick'', OpenResource c)] [Txt c], Txt (pr_type r)]
         @ (case Option.bind (pr_latest r) v_version of
              Some m \<Rightarrow> map (\<lambda>(k, x). Txt (k @ '': '' @ x)) m | None \<Rightarrow> [])
         @ show_if (pr_check_interval r \<noteq> '''') [Txt (pr_check_interval r)]
         @ show_if (truthy_str (pr_last_check r) \<and> \<not> prefix ''0001-01-01'' (the (pr_last_check r)))
             [Txt (''Checked: '' @ timeAgo (pr_last_check r))]
         @ show_if isMember [button ''Check Now'' (CheckResource c) False ''Check Now'']
         @ [button ''Versions'' (ToggleVersions c) False ''Versions'',
            El ''div'' [(''class'', ''piko-resource-panel-versions''), (''style'', if is_open then '''' else ''display:none;'')] []
              (map (panel_version_row isMember tvid r) (case map_of (versionLists p) c of Some vs \<Rightarrow> vs | None \<Rightarrow> []))]))"

definition PipelineResourcesPanel :: "bool \<Rightarrow> int option \<Rightarrow> (string option \<Rightarrow> string) \<Rightarrow> panel_resource list \<Rightarrow> panel \<Rightarrow> show_action html list" where
  "PipelineResourcesPanel isMember tvid timeAgo rs p =
     [Txt ''Resources'', El ''button'' [(''id'', ''close-resources-panel'')] [(''onClick'', ClosePanel)] []]
     @ show_if (rs = []) [Txt ''No resources in this pipeline.'']
     @ map (panel_card isMember tvid timeAgo p) rs"

definition paused_flags :: "show_pipeline \<Rightarrow> bool list" where
  "paused_flags p = (case sp_paused p of Some ps \<Rightarrow> ps | None \<Rightarrow> [])"

definition show_header :: "session \<Rightarrow> string \<Rightarrow> show_pipeline \<Rightarrow> show_action html" where
  "show_header sn tc p =
     (let jobs = paused_flags p; hasPaused = list_ex (\<lambda>b. b) jobs in
      El ''div'' [] []
        ([Txt (sp_name p)] @ show_if (sp_public p) [Txt ''Public'']
         @ show_if (hasTeamRole sn tc ''write'' \<and> jobs \<noteq> [])
             [if hasPaused then button ''unpause-pipeline'' UnpausePipeline False ''Unpause''
              else button ''pause-pipeline'' PausePipeline False ''Pause'']
         @ show_if (hasTeamRole sn tc ''read'') [button ''secrets-pipeline'' OpenSecrets False ''Secrets'']
         @ show_if (hasTeamRole sn tc ''maintain'')
             [button ''edit-pipeline'' EditPipeline False ''Edit'', button ''delete-pipeline'' DeletePipeline False ''Delete'']))"

definition share_row :: "string \<Rightarrow> string \<Rightarrow> string \<Rightarrow> show_action html" where
  "share_row label tgt url =
     El ''div'' [(''class'', ''piko-share-row'')] []
       [Txt label, El ''input'' [(''id'', tgt), (''value'', url)] [] [], button tgt (CopyUrl tgt) False ''Copy'']"

definition show_toolbar :: "string \<Rightarrow> string \<Rightarrow> string \<Rightarrow> show_page \<Rightarrow> show_action html" where
  "show_toolbar origin tc pn s =
     (let (svgUrl, pngUrl, mdUrl) = getShareUrls origin tc pn s;
          view_btn = (\<lambda>v label. El ''button'' [(''class'', ''piko-view-btn'' @ (if currentView s = v then '' active'' else '''')), (''data-view'', v)]
                        [(''onClick'', SwitchView v)] [Txt label]) in
      El ''div'' [(''class'', ''piko-view-toolbar'')] []
        ([view_btn ''graph'' ''Graph'', view_btn ''list'' ''List'', button ''toggle-resources-panel'' ResourcesPanel False ''Resources'']
         @ show_if (currentView s = ''graph'')
             [button ''toggle-gear-panel'' GearPanel False '''',
              El ''div'' [(''id'', ''gear-panel''), (''class'', ''piko-gear-panel'' @ (if gearPanelOpen s then '' open'' else ''''))] []
                [El ''input'' ([(''id'', ''gear-hide-intermediates'')] @ (if hideIntermediates s then [(''checked'', '''')] else [])) [(''onChange'', HideIntermediates)] [],
                 El ''input'' ([(''id'', ''gear-group-parallel'')] @ (if groupParallel s then [(''checked'', '''')] else [])) [(''onChange'', GroupParallel)] []],
              button ''toggle-share-panel'' SharePanel False '''',
              El ''div'' [(''id'', ''share-panel''), (''class'', ''piko-share-panel'' @ (if sharePanelOpen s then '' open'' else ''''))] []
                [share_row ''SVG'' ''share-svg-url'' svgUrl, share_row ''PNG'' ''share-png-url'' pngUrl,
                 share_row ''Markdown'' ''share-md-url'' mdUrl]]))"

definition show_banner_view :: "show_page \<Rightarrow> show_action html list" where
  "show_banner_view s =
     (case show_banner s of
        Some b \<Rightarrow> [El ''div'' [(''id'', ''version-scope-banner'')] []
          [Txt ''Tracking version'', Txt (bn_resource b), Txt (bn_ref b),
           Txt (nat_str (bn_completed b) @ ''/'' @ nat_str (bn_total b) @ '' completed''),
           button ''clear-version-scope'' ClearScopeNow False ''Clear'']]
      | None \<Rightarrow> [])"

text \<open>The list view inside the page; \<open>None\<close> when drawing it throws.\<close>

definition list_info :: "(string option \<Rightarrow> string) \<Rightarrow> panel_resource \<Rightarrow> res_info" where
  "list_info timeAgo r =
     \<lparr>ri_canonical = pr_canonical r, ri_status = (case Option.bind (pr_latest r) v_status of Some st \<Rightarrow> st | None \<Rightarrow> ''''),
      ri_version = (case Option.bind (pr_latest r) v_version of Some m \<Rightarrow> m | None \<Rightarrow> []), ri_interval = pr_check_interval r,
      ri_checked = (if truthy_str (pr_last_check r) then Some (timeAgo (pr_last_check r)) else None)\<rparr>"

definition list_part :: "session \<Rightarrow> (string option \<Rightarrow> string) \<Rightarrow> show_pipeline \<Rightarrow> show_page \<Rightarrow> list_action html list option" where
  "list_part sn timeAgo p s =
     (case (currentView s = ''graph'', listView s) of
        (False, Some (v, l)) \<Rightarrow> PipelineListView_view sn (sp_def p) (map (list_info timeAgo) (show_resources s)) (trackedVID s) l
      | _ \<Rightarrow> Some [])"

definition PipelineShow_view :: "session \<Rightarrow> string \<Rightarrow> string \<Rightarrow> string \<Rightarrow> (string option \<Rightarrow> string) \<Rightarrow> panel \<Rightarrow> show_page \<Rightarrow> show_action html list option" where
  "PipelineShow_view sn origin tc pn timeAgo pl s =
     (case pipe s of
        None \<Rightarrow> Some []
      | Some p \<Rightarrow> map_option (\<lambda>listed.
          [show_header sn tc p, show_toolbar origin tc pn s] @ show_banner_view s
          @ [El ''div'' [(''id'', ''pipeline-resources-panel''), (''class'', ''piko-resources-panel'' @ (if resourcesPanelOpen s then '' open'' else ''''))] []
               (show_if (resourcesPanelOpen s)
                  (PipelineResourcesPanel (hasTeamRole sn tc ''write'') (trackedVID s) timeAgo (show_resources s) pl)),
             El ''div'' [(''class'', ''piko-view-graph''), (''style'', if currentView s = ''graph'' then '''' else ''display:none'')] []
               [El ''div'' [(''id'', ''graphviz'')] [(''onClick'', GraphClick)]
                  (show_if (case show_dot s of Some (ImageText t) \<Rightarrow> t \<noteq> '''' | Some (ImageObject d) \<Rightarrow> True | None \<Rightarrow> False)
                     [El ''PipelineGraph'' [] [] []])],
             El ''div'' [(''class'', ''piko-view-list''), (''style'', if currentView s = ''graph'' then ''display:none'' else '''')] []
               (map (map_html InList) listed)])
          (list_part sn timeAgo p s))"

section \<open>Lemmas\<close>

lemma form_encode_plain: "list_all form_plain s \<Longrightarrow> form_encode s = s"
  by (induction s) (simp_all add: form_encode_def)

lemma digit_form_plain: "is_digit c \<Longrightarrow> form_plain c"
  by (auto simp: is_digit_def form_plain_def is_alnum_def Let_def)

lemma form_encode_nat_str: "form_encode (nat_str n) = nat_str n"
  using nat_str_digits by (intro form_encode_plain) (auto simp: list_all_iff digit_form_plain)

lemma version_pair: "pair_string form_encode (''version'', nat_str n) = ''version='' @ nat_str n"
proof -
  have "form_encode ''version'' = ''version''" by code_simp
  then show ?thesis by (simp add: pair_string_def form_encode_nat_str)
qed

text \<open>Appending a parameter to a link with or without a query.\<close>

lemma join_with_snoc: "xs \<noteq> [] \<Longrightarrow> join_with sep (xs @ [y]) = join_with sep xs @ sep @ y"
proof (induction xs)
  case (Cons x xs)
  then show ?case by (cases xs) auto
qed simp

lemma usp_string_version:
  "usp_string (ps @ [(''version'', nat_str n)]) = (if ps = [] then '''' else usp_string ps @ ''&'') @ ''version='' @ nat_str n"
proof (cases "ps = []")
  case True
  then show ?thesis using version_pair [of n] by (simp add: usp_string_def params_string_def)
next
  case False
  have "map (pair_string form_encode) ps \<noteq> []" using False by simp
  from join_with_snoc [OF this, of "''&''" "pair_string form_encode (''version'', nat_str n)"] False show ?thesis
    by (simp add: usp_string_def params_string_def version_pair)
qed

definition link_to :: "string \<Rightarrow> params \<Rightarrow> string" where
  "link_to path ps = path @ (if ps = [] then '''' else ''?'' @ usp_string ps)"

definition link_params :: "string \<Rightarrow> params" where
  "link_params url = usp_parse (dropWhile (\<lambda>c. c \<noteq> CHR ''?'') url)"

lemma dropWhile_path: "c \<notin> set path \<Longrightarrow> dropWhile (\<lambda>x. x \<noteq> c) (path @ c # r) = c # r"
  by (induction path) auto

lemma link_params_query: "CHR ''?'' \<notin> set path \<Longrightarrow> link_params (path @ ''?'' @ usp_string ps) = ps"
  by (simp add: link_params_def dropWhile_path)

lemma int_str_nat: "int_str (int n) = nat_str n"
  by (simp add: int_str_def)

lemma no_qmark_base: "CHR ''?'' \<notin> set tc \<Longrightarrow> CHR ''?'' \<notin> set pn \<Longrightarrow> CHR ''?'' \<notin> set (base_path tc pn)"
  by (simp add: base_path_def)

lemma initialVID_params: "initialVID s = (case usp_get (link_params (location s)) ''version'' of
    Some v \<Rightarrow> if js_parseInt v = Some 0 then None else js_parseInt v | None \<Rightarrow> None)"
  by (simp add: initialVID_def link_params_def)

lemma link_params_none: "CHR ''?'' \<notin> set path \<Longrightarrow> link_params path = []"
proof -
  assume "CHR ''?'' \<notin> set path"
  then have d: "dropWhile (\<lambda>c. c \<noteq> CHR ''?'') path = []" by (auto simp: dropWhile_eq_Nil_conv)
  show ?thesis unfolding link_params_def d by (simp add: usp_parse_def parse_params_def)
qed

lemma live_share_row [simp]: "live (share_row l t u) = [CopyUrl t]"
  by (simp add: share_row_def)

lemma with_list_fields [simp]:
  "trackedVersion (with_list f s) = trackedVersion s" "show_banner (with_list f s) = show_banner s"
  "hideIntermediates (with_list f s) = hideIntermediates s" "groupParallel (with_list f s) = groupParallel s"
  "show_resources (with_list f s) = show_resources s"
  by (simp_all add: with_list_def Let_def split: option.splits prod.splits)

text \<open>What the parts of the page offer.\<close>

definition panel_list :: "panel \<Rightarrow> panel_resource \<Rightarrow> rversion list" where
  "panel_list p r = (case map_of (versionLists p) (pr_canonical r) of Some vs \<Rightarrow> vs | None \<Rightarrow> [])"

lemma live_version_row:
  "set (live (panel_version_row m tvid r v)) =
     (if tvid = Some (int (v_id v)) then {} else {PanelTrack (pr_canonical r) (v_id v) (panel_ref v)})
     \<union> (if m then {PanelTrigger (pr_canonical r) (v_id v), PanelPin (pr_canonical r) (v_id v) (pr_pinned r = Some (v_id v))} else {})"
  by (auto simp: panel_version_row_def Let_def)

lemma live_texts: "live_all (map (\<lambda>(k, x). Txt (f k x)) m) = []"
  by (induction m) auto

lemma live_panel_card:
  "set (live (panel_card m tvid ta p r)) =
     {OpenResource (pr_canonical r), ToggleVersions (pr_canonical r)} \<union> (if m then {CheckResource (pr_canonical r)} else {})
     \<union> (\<Union>v \<in> set (panel_list p r). set (live (panel_version_row m tvid r v)))"
  by (auto simp: panel_card_def panel_list_def Let_def live_texts live_all_map split: option.splits)

lemma live_panel:
  "set (live_all (PipelineResourcesPanel m tvid ta rs p)) = insert ClosePanel (\<Union>r \<in> set rs. set (live (panel_card m tvid ta p r)))"
  by (auto simp: PipelineResourcesPanel_def live_all_map)

lemma live_header:
  "set (live (show_header sn tc p)) =
     (let jobs = paused_flags p in
      (if hasTeamRole sn tc ''write'' \<and> jobs \<noteq> [] then {if True \<in> set jobs then UnpausePipeline else PausePipeline} else {})
      \<union> (if hasTeamRole sn tc ''read'' then {OpenSecrets} else {})
      \<union> (if hasTeamRole sn tc ''maintain'' then {EditPipeline, DeletePipeline} else {}))"
  by (auto simp: show_header_def Let_def list_ex_iff)

definition toolbar_actions :: "show_action set" where
  "toolbar_actions = range SwitchView \<union> {ResourcesPanel, GearPanel, HideIntermediates, GroupParallel, SharePanel} \<union> range CopyUrl"

lemma live_toolbar: "set (live (show_toolbar origin tc pn s)) \<subseteq> toolbar_actions"
  by (auto simp: show_toolbar_def toolbar_actions_def Let_def split: prod.splits)

lemma live_page:
  assumes "PipelineShow_view sn origin tc pn ta pl s = Some hs"
  shows "set (live_all hs) =
     (case pipe s of
        None \<Rightarrow> {}
      | Some p \<Rightarrow> set (live (show_header sn tc p)) \<union> set (live (show_toolbar origin tc pn s))
          \<union> (if show_banner s = None then {} else {ClearScopeNow})
          \<union> (if resourcesPanelOpen s
             then set (live_all (PipelineResourcesPanel (hasTeamRole sn tc ''write'') (trackedVID s) ta (show_resources s) pl)) else {})
          \<union> {GraphClick} \<union> InList ` set (live_all (the (list_part sn ta p s))))"
  using assms by (auto simp: PipelineShow_view_def show_banner_view_def live_all_map_html split: option.splits)

definition list_shown :: "show_page \<Rightarrow> bool" where
  "list_shown s \<longleftrightarrow> pipe s \<noteq> None \<and> currentView s \<noteq> ''graph'' \<and> listView s \<noteq> None"

lemma list_part_offers:
  assumes "list_part sn ta p s = Some hs" and "pipe s = Some p"
  shows "CheckNow \<in> set (live_all hs) \<longleftrightarrow> list_shown s \<and> findTriggerResources (sp_def p) \<noteq> [] \<and> truthy_str (jwt sn)"
    and "PickResource c \<in> set (live_all hs) \<longleftrightarrow> list_shown s \<and> c \<in> set (findTriggerResources (sp_def p))"
proof -
  have "(\<exists>l. list_shown s \<and> PipelineListView_view sn (sp_def p) (map (list_info ta) (show_resources s)) (trackedVID s) l = Some hs)
      \<or> (\<not> list_shown s \<and> hs = [])"
    using assms by (cases "currentView s = ''graph''") (auto simp: list_part_def list_shown_def split: option.splits)
  then show "CheckNow \<in> set (live_all hs) \<longleftrightarrow> list_shown s \<and> findTriggerResources (sp_def p) \<noteq> [] \<and> truthy_str (jwt sn)"
    "PickResource c \<in> set (live_all hs) \<longleftrightarrow> list_shown s \<and> c \<in> set (findTriggerResources (sp_def p))"
    using list_offers by (metis empty_iff live_all_simps(1) list.set(1))+
qed

section \<open>Properties\<close>

text \<open>
  C37. What the page of a pipeline offers, once it is loaded and drawn: pausing or unpausing (as its jobs are) to
  writers, the secrets to readers, editing and deleting to maintainers; with the panel open, checking its resources and
  triggering and pinning their listed versions to writers. The list view, while it is shown, lets anyone choose among
  the trigger resources, and offers \<open>Check Now\<close> to whoever is signed in, a writer or not. (The page of the job that is
  open in the list view is the component of \<open>JobBuilds\<close>.)
\<close>

theorem PipelineShow_offers:
  "let drawn = PipelineShow_view sn origin tc pn ta pl s;
       offered = (case drawn of Some hs \<Rightarrow> set (live_all hs) | None \<Rightarrow> {});
       loaded = (pipe s \<noteq> None \<and> drawn \<noteq> None);
       jobs = (case pipe s of Some p \<Rightarrow> paused_flags p | None \<Rightarrow> []);
       triggers = (case pipe s of Some p \<Rightarrow> findTriggerResources (sp_def p) | None \<Rightarrow> []);
       writer = (loaded \<and> hasTeamRole sn tc ''write'');
       panel = (writer \<and> resourcesPanelOpen s);
       listed = (loaded \<and> currentView s \<noteq> ''graph'' \<and> listView s \<noteq> None)
   in (PausePipeline \<in> offered \<longleftrightarrow> writer \<and> jobs \<noteq> [] \<and> True \<notin> set jobs)
    \<and> (UnpausePipeline \<in> offered \<longleftrightarrow> writer \<and> True \<in> set jobs)
    \<and> (OpenSecrets \<in> offered \<longleftrightarrow> loaded \<and> hasTeamRole sn tc ''read'')
    \<and> (EditPipeline \<in> offered \<longleftrightarrow> loaded \<and> hasTeamRole sn tc ''maintain'')
    \<and> (DeletePipeline \<in> offered \<longleftrightarrow> loaded \<and> hasTeamRole sn tc ''maintain'')
    \<and> {c. CheckResource c \<in> offered} = {c. panel \<and> c \<in> pr_canonical ` set (show_resources s)}
    \<and> {(c, v). PanelTrigger c v \<in> offered} =
        {(c, v). panel \<and> (\<exists>r \<in> set (show_resources s). c = pr_canonical r \<and> v \<in> v_id ` set (panel_list pl r))}
    \<and> {(c, v, b). PanelPin c v b \<in> offered} =
        {(c, v, b). panel \<and> (\<exists>r \<in> set (show_resources s). c = pr_canonical r \<and> v \<in> v_id ` set (panel_list pl r) \<and> b = (pr_pinned r = Some v))}
    \<and> (InList CheckNow \<in> offered \<longleftrightarrow> listed \<and> triggers \<noteq> [] \<and> truthy_str (jwt sn))
    \<and> {c. InList (PickResource c) \<in> offered} = {c. listed \<and> c \<in> set triggers}"
proof (cases "PipelineShow_view sn origin tc pn ta pl s")
  case None
  then show ?thesis by simp
next
  case drawn: (Some hs)
  show ?thesis
  proof (cases "pipe s")
    case None
    then show ?thesis by (simp add: drawn live_page [OF drawn])
  next
    case (Some p)
    then obtain ls where ls: "list_part sn ta p s = Some ls" using drawn by (auto simp: PipelineShow_view_def)
    have t: "a \<notin> set (live (show_toolbar origin tc pn s))" if "a \<notin> toolbar_actions" for a
      using that live_toolbar by blast
    have n: "PausePipeline \<notin> toolbar_actions" "UnpausePipeline \<notin> toolbar_actions" "OpenSecrets \<notin> toolbar_actions"
      "EditPipeline \<notin> toolbar_actions" "DeletePipeline \<notin> toolbar_actions" "CheckResource c \<notin> toolbar_actions"
      "PanelTrigger c v \<notin> toolbar_actions" "PanelPin c v b \<notin> toolbar_actions" "InList a \<notin> toolbar_actions" for c v b a
      by (auto simp: toolbar_actions_def)
    have k: "InList a \<in> InList ` X \<longleftrightarrow> a \<in> X" for a X by auto
    show ?thesis
      unfolding Let_def drawn option.case live_page [OF drawn] Some live_panel live_panel_card live_version_row live_header ls option.sel
      by (intro conjI) (auto simp: t n k list_part_offers [OF ls Some] list_shown_def Some split: if_splits)
  qed
qed

text \<open>A page shown as a list to a user of no team: a check is offered, none in the panel.\<close>

lemma reader_offered_check:
  "let sn = \<lparr>jwt = Some ''j'', user = Some no_user_fields\<rparr>;
       s = switchView ''list'' (pipeline_answer (Some \<lparr>sp_name = ''p'', sp_public = True, sp_paused = None, sp_def = demo_two\<rparr>)
             (show_mount ''/'' [] (None, None, None)))
   in \<not> hasTeamRole sn ''t'' ''write''
      \<and> map_option (\<lambda>hs. InList CheckNow \<in> set (live_all hs)) (PipelineShow_view sn '''' ''t'' ''p'' (\<lambda>_. '''') \<lparr>expandedResources = [], versionLists = []\<rparr> s) = Some True"
  by code_simp

text \<open>
  Resolving the version of the URL: when no resource knows it nothing is tracked; otherwise the
  first resource with a path is tracked and shown in the banner, and exactly the resources up to it
  were asked.
\<close>

theorem resolveVersionResource_first:
  "fst (resolveVersionResource tc pn vid rs s) =
     (case dropWhile (\<lambda>(c, r). \<not> has_path r) rs of
        [] \<Rightarrow> s
      | (rc, resp) # _ \<Rightarrow> resolve_hit tc pn vid rc (the resp) s)
   \<and> snd (resolveVersionResource tc pn vid rs s) =
       map (\<lambda>(c, r). Ask (fetchVersionPath tc pn c (int_str vid) (Some silent_opts)))
         (take (Suc (length (takeWhile (\<lambda>(c, r). \<not> has_path r) rs))) rs)"
  by (induction tc pn vid rs s rule: resolveVersionResource.induct) (auto simp: Let_def split: prod.splits)

text \<open>
  A link of the graph carries the tracked version: its own parameters are kept in order, and the
  version is added as the last one.
\<close>

theorem graph_link_carries_version:
  assumes "CHR ''?'' \<notin> set path" and "trackedVersion s = Some tv" and "tv_versionID tv = int n" and "n > 0"
  shows "link_params (onGraphClick s (link_to path ps)) = ps @ [(''version'', nat_str n)]"
proof -
  have q: "CHR ''?'' \<in> set (link_to path ps) \<longleftrightarrow> ps \<noteq> []"
    using assms(1) by (auto simp: link_to_def)
  have "onGraphClick s (link_to path ps) = path @ ''?'' @ usp_string (ps @ [(''version'', nat_str n)])"
    using assms q by (cases "ps = []") (simp_all add: onGraphClick_def link_to_def int_str_nat usp_string_version usp_string_version [of "[]" n, simplified])
  then show ?thesis using link_params_query [OF assms(1)] by simp
qed

text \<open>
  C38. Tracking a version survives a reload: the page mounted at the URL that tracking wrote starts
  from that version; after clearing the scope, page, list view and the
  URL are without a version, and polling asks for the plain image.
\<close>

theorem tracking_in_url:
  assumes "CHR ''?'' \<notin> set tc" and "CHR ''?'' \<notin> set pn" and "n > 0"
  shows "initialVID (show_mount (location (fst (trackVersion tc pn rc (int n) ref s))) st sv) = Some (int n)
    \<and> initialVID (fst (clearVersionScope tc pn s)) = None
    \<and> pollCallback tc pn (fst (clearVersionScope tc pn s)) = [show_fetchImage tc pn None s]
    \<and> show_banner (fst (clearVersionScope tc pn s)) = None
    \<and> (\<forall>v l. listView (fst (clearVersionScope tc pn s)) = Some (v, l) \<longrightarrow>
          versionChainJobs l = None \<and> versionBuildMap l = None \<and> scopedVersionID l = None)"
proof -
  have "link_params (base_path tc pn @ ''?version='' @ nat_str n) = [(''version'', nat_str n)]"
    using link_params_query [OF no_qmark_base [OF assms(1,2)], of "[(''version'', nat_str n)]"] usp_string_version [of "[]" n] by simp
  then have 1: "initialVID (show_mount (location (fst (trackVersion tc pn rc (int n) ref s))) st sv) = Some (int n)"
    using assms(3) by (simp add: initialVID_params trackVersion_def show_mount_def Let_def int_str_nat usp_get_def js_parseInt_nat_str)
  have "location (fst (clearVersionScope tc pn s)) = base_path tc pn"
    by (auto simp: clearVersionScope_def with_list_def clearVersionScopeInternal_def Let_def split: option.splits prod.splits)
  then have 2: "initialVID (fst (clearVersionScope tc pn s)) = None"
    using link_params_none [OF no_qmark_base [OF assms(1,2)]] by (simp add: initialVID_params usp_get_def)
  have 3: "pollCallback tc pn (fst (clearVersionScope tc pn s)) = [show_fetchImage tc pn None s]"
    using 2 by (simp add: pollCallback_def clearVersionScope_def show_fetchImage_def image_params_def)
  have 4: "show_banner (fst (clearVersionScope tc pn s)) = None"
    by (simp add: clearVersionScope_def)
  have 5: "versionChainJobs l = None \<and> versionBuildMap l = None \<and> scopedVersionID l = None"
    if "listView (fst (clearVersionScope tc pn s)) = Some (v, l)" for v l
    using that by (auto simp: clearVersionScope_def with_list_def clearVersionScopeInternal_def Let_def split: option.splits prod.splits)
  from 1 2 3 4 5 show ?thesis by blast
qed

text \<open>
  A path answer that arrives after the scope was cleared shows the banner again, although no version
  is tracked and no further poll will refresh it.
\<close>

theorem late_answer_restores_banner:
  assumes "pa_resource a \<noteq> None"
  shows "show_banner (path_answered tc pn tv (Some a) (fst (clearVersionScope tc pn s))) \<noteq> None
    \<and> trackedVersion (path_answered tc pn tv (Some a) (fst (clearVersionScope tc pn s))) = None"
  using assms by (auto simp: path_answered_def applyVersionScope_def clearVersionScope_def)

text \<open>
  Tracking a version from a list view that was mounted without one loses it from the URL: the answer
  selects a job with the version the first render saw, which is none.
\<close>

theorem list_tracking_lost_from_url:
  assumes "listView s = Some (None, l)" and "versionChainJobs l = None"
    and "pa_resource a \<noteq> None" and "pa_path a = Some (e # es)"
  shows "\<exists>j. location (path_answered tc pn tv (Some a) (fst (trackVersion tc pn rc vid ref s)))
    = ''/teams/'' @ tc @ ''/pipelines/'' @ pn @ ''/jobs/'' @ j @ ''/builds''"
proof -
  obtain can ver where r: "pa_resource a = Some (can, ver)" using assms(3) by auto
  show ?thesis
    using assms(1,2,4) r
    by (auto simp: path_answered_def applyVersionScope_def with_list_def trackVersion_def applyVersionScopeInternal_def
        path_scope_def selectJob_def Let_def split: option.splits)
qed

section \<open>Examples\<close>

definition demo_show :: show_page where
  "demo_show = (show_mount ''/teams/t/pipelines/p'' [] (None, None, None))
     \<lparr>trackedVersion := Some \<lparr>tv_resource = ''git.r'', tv_versionID = 7, tv_ref = ''abc''\<rparr>\<rparr>"

theorem graph_link_carries_version_witness:
  "link_params (onGraphClick demo_show (link_to ''/teams/t/pipelines/p/jobs/j/builds'' [(''a'', ''b'')])) = [(''a'', ''b''), (''version'', nat_str 7)]"
  using graph_link_carries_version [of "''/teams/t/pipelines/p/jobs/j/builds''" demo_show "\<lparr>tv_resource = ''git.r'', tv_versionID = 7, tv_ref = ''abc''\<rparr>" 7 "[(''a'', ''b'')]"]
  by (simp add: demo_show_def)

theorem tracking_in_url_witness:
  "initialVID (show_mount (location (fst (trackVersion ''t'' ''p'' ''git.r'' (int 7) ''abc'' demo_show))) [] (None, None, None)) = Some (int 7)"
  using tracking_in_url [of "''t''" "''p''" 7 "''git.r''" "''abc''" demo_show "[]" "(None, None, None)"] by simp

end
