(* ===== verification/Toasts.thy ===== *)
theory Toasts
  imports JsPrelude
begin

text \<open>
  \<open>toast.js\<close>: the queue of notifications. A toast is identified by the millisecond it was shown in;
  the timers of a toast act on every toast with its id. Lemmas: events about other ids leave a toast
  alone, and two toasts of the same millisecond share their fate.
\<close>

record toast_item =
  tid :: nat
  tmsg :: string
  ttype :: string
  tshow :: bool

datatype timer_action = DismissLater nat | RemoveLater nat

record toaster =
  registered :: bool \<comment> \<open>\<open>_setToasts\<close> is set\<close>
  items :: "toast_item list"
  frames :: "nat list" \<comment> \<open>requested animation frames\<close>
  due :: "(nat \<times> timer_action) list" \<comment> \<open>timers with the time they fire\<close>

definition toast_duration :: "string \<Rightarrow> nat" where
  "toast_duration ty = (if ty = ''error'' then 8000 else 4000)"

definition registerToastSetter :: "bool \<Rightarrow> toaster \<Rightarrow> toaster" where
  "registerToastSetter present s = s\<lparr>registered := present\<rparr>"

definition set_show :: "nat \<Rightarrow> bool \<Rightarrow> toast_item list \<Rightarrow> toast_item list" where
  "set_show i b ts = map (\<lambda>t. if tid t = i then t\<lparr>tshow := b\<rparr> else t) ts"

text \<open>\<open>showToast\<close> at time \<open>now\<close>.\<close>

definition showToast :: "nat \<Rightarrow> string \<Rightarrow> string \<Rightarrow> toaster \<Rightarrow> toaster" where
  "showToast now msg ty s =
     (if \<not> registered s then s
      else s\<lparr>items := items s @ [\<lparr>tid = now, tmsg = msg, ttype = ty, tshow = False\<rparr>],
             frames := frames s @ [now],
             due := due s @ [(now + toast_duration ty, DismissLater now)]\<rparr>)"

definition toast_frame :: "nat \<Rightarrow> toaster \<Rightarrow> toaster" where
  "toast_frame i s =
     (let s1 = s\<lparr>frames := remove1 i (frames s)\<rparr> in
      if \<not> registered s then s1 else s1\<lparr>items := set_show i True (items s)\<rparr>)"

definition dismissToast :: "nat \<Rightarrow> nat \<Rightarrow> toaster \<Rightarrow> toaster" where
  "dismissToast now i s =
     (if \<not> registered s then s
      else s\<lparr>items := set_show i False (items s), due := due s @ [(now + 300, RemoveLater i)]\<rparr>)"

definition toast_remove :: "nat \<Rightarrow> toaster \<Rightarrow> toaster" where
  "toast_remove i s = (if \<not> registered s then s else s\<lparr>items := filter (\<lambda>t. tid t \<noteq> i) (items s)\<rparr>)"

text \<open>A timer fires: it leaves the list and runs its callback.\<close>

definition fire :: "nat \<times> timer_action \<Rightarrow> toaster \<Rightarrow> toaster" where
  "fire tm s =
     (let s1 = s\<lparr>due := remove1 tm (due s)\<rparr> in
      case snd tm of DismissLater i \<Rightarrow> dismissToast (fst tm) i s1 | RemoveLater i \<Rightarrow> toast_remove i s1)"

datatype toast_event = ShowAt nat string string | Frame nat | CloseAt nat nat | Timer nat timer_action

definition toast_step :: "toaster \<Rightarrow> toast_event \<Rightarrow> toaster" where
  "toast_step s e =
     (case e of
        ShowAt now msg ty \<Rightarrow> showToast now msg ty s
      | Frame i \<Rightarrow> toast_frame i s
      | CloseAt now i \<Rightarrow> dismissToast now i s
      | Timer t a \<Rightarrow> fire (t, a) s)"

definition event_toast :: "toast_event \<Rightarrow> nat" where
  "event_toast e =
     (case e of ShowAt now msg ty \<Rightarrow> now | Frame i \<Rightarrow> i | CloseAt now i \<Rightarrow> i
      | Timer t a \<Rightarrow> (case a of DismissLater i \<Rightarrow> i | RemoveLater i \<Rightarrow> i))"

lemma filter_set_show: "j \<noteq> i \<Longrightarrow> filter (\<lambda>t. tid t = i) (set_show j b ts) = filter (\<lambda>t. tid t = i) ts"
  by (induction ts) (auto simp: set_show_def)

lemma toast_step_other:
  "event_toast e \<noteq> i \<Longrightarrow> filter (\<lambda>t. tid t = i) (items (toast_step s e)) = filter (\<lambda>t. tid t = i) (items s)"
  by (cases e) (auto simp: toast_step_def event_toast_def showToast_def toast_frame_def dismissToast_def toast_remove_def
      fire_def filter_set_show Let_def intro: filter_cong split: timer_action.splits)

text \<open>
  Toasts do not interfere: events about other ids (shown in other milliseconds) leave the toasts
  of an id exactly as they are, whether it is showing, closing or waiting.
\<close>

theorem toasts_isolated:
  assumes "\<forall>e \<in> set es. event_toast e \<noteq> i"
  shows "filter (\<lambda>t. tid t = i) (items (run toast_step s es)) = filter (\<lambda>t. tid t = i) (items s)"
  using assms by (induction es arbitrary: s) (simp_all add: toast_step_other)

text \<open>
  Two toasts of one millisecond share an id: the timer of a success message shown in the same
  millisecond as an error removes the error after 4.3 seconds instead of 8.3.
\<close>

theorem same_millisecond_toasts_vanish_together:
  "items (run toast_step \<lparr>registered = True, items = [], frames = [], due = []\<rparr>
     [ShowAt now e ''error'', ShowAt now m ''success'', Timer (now + 4000) (DismissLater now), Timer (now + 4300) (RemoveLater now)])
   = []"
  by (simp add: toast_step_def showToast_def fire_def dismissToast_def toast_remove_def set_show_def)

theorem toasts_isolated_witness:
  "filter (\<lambda>t. tid t = 1) (items (run toast_step \<lparr>registered = True,
     items = [\<lparr>tid = 1, tmsg = ''a'', ttype = ''error'', tshow = True\<rparr>], frames = [], due = []\<rparr> [ShowAt 2 ''b'' ''error'', CloseAt 5 2]))
   = [\<lparr>tid = 1, tmsg = ''a'', ttype = ''error'', tshow = True\<rparr>]"
  by (subst toasts_isolated) (simp_all add: event_toast_def)

end
