(* ===== verification/SignIn.thy ===== *)
theory SignIn
  imports Hooks Html Endpoints
begin

text \<open>
  Signing in: \<open>Login.js\<close>, \<open>OAuthCallback.js\<close>, \<open>OAuthCompleteProfile.js\<close>, the treatment of the
  server's redirects at the start of \<open>app.js\<close>, and \<open>provider-icons.js\<close>. The pages change the
  application state of \<open>AppState\<close>; the answer to the token refresh goes through \<open>api_recv\<close>.

  Lemmas: a login leads to a page whose guard lets the user stay; whatever the answer to the refresh,
  the callback ends at the start page with a session in step with its storage; the redirect at start
  happens once.
\<close>

section \<open>Redirects at start\<close>

datatype boot_action = Stay | ReplaceLocation string | SayAt string string string \<comment> \<open>message, type, new URL\<close>

definition boot_redirect :: "string \<Rightarrow> string \<Rightarrow> boot_action" where
  "boot_redirect pathname search =
     (let sp = usp_parse search; oauthAction = usp_get sp ''oauth_action''; oauthError = usp_get sp ''oauth_error'' in
      if oauthAction = Some ''callback'' \<or> oauthAction = Some ''complete-profile''
      then (let tgt = (if oauthAction = Some ''callback'' then ''/auth/callback'' else ''/auth/complete-profile'')
            in if pathname \<noteq> tgt then ReplaceLocation (tgt @ search) else Stay)
      else if oauthAction = Some ''linked''
      then SayAt (''Account linked: '' @ str_or (usp_get sp ''provider'')) ''success'' ''/profile?tab=linked''
      else if truthy_str oauthError then SayAt (the oauthError) ''error'' ''/login''
      else Stay)"

section \<open>Provider icons\<close>

text \<open>The icon of the first provider whose key starts the name; \<open>None\<close> is the generic one.\<close>

definition providerIcons :: "string list" where
  "providerIcons = [''github'', ''google'', ''gitlab'', ''bitbucket'', ''microsoft'', ''keycloak'']"

definition getProviderIcon :: "string \<Rightarrow> string option" where
  "getProviderIcon canonical = List.find (\<lambda>key. prefix key canonical) providerIcons"

section \<open>Login\<close>

record auth_provider =
  prov_canonical :: string
  prov_name :: string

record login_form =
  lf_username :: string
  lf_password :: string
  lf_loading :: bool
  authMethods :: "auth_provider auth_methods option"

datatype login_action = LoginSubmit | LoginName | LoginPassword | OAuthLogin string

definition login_mount :: "app \<Rightarrow> app" where
  "login_mount a = (if isLoggedIn (sess a) then route ''/'' True a else a)"

definition login_methods :: "auth_provider auth_methods result \<Rightarrow> login_form \<Rightarrow> login_form" where
  "login_methods r f = f\<lparr>authMethods := fetchAuthMethods_settle r\<rparr>"

definition login_submit :: "login_form \<Rightarrow> login_form \<times> call" where
  "login_submit f =
     (f\<lparr>lf_loading := True\<rparr>, postLogin (JObj [(''username'', JStr (lf_username f)), (''password'', JStr (lf_password f))]))"

text \<open>The request settled: \<open>None\<close> when it failed.\<close>

definition login_settled :: "(string \<times> user) option \<Rightarrow> login_form \<times> app \<Rightarrow> login_form \<times> app" where
  "login_settled resp st =
     (case resp of
        None \<Rightarrow> ((fst st)\<lparr>lf_loading := False\<rparr>, snd st)
      | Some (j, u) \<Rightarrow>
          ((fst st)\<lparr>lf_password := '''', lf_loading := False\<rparr>,
           route (if must_change_password u then ''/profile'' else ''/'') False (login j (Some u) (snd st))))"

definition onOAuthLogin :: "string \<Rightarrow> string" where
  "onOAuthLogin canonical = ''/auth/oauth/'' @ canonical"

definition Login_view :: "login_form \<Rightarrow> login_action html" where
  "Login_view f =
     (let localEnabled = (case authMethods f of None \<Rightarrow> True | Some m \<Rightarrow> local_auth_enabled m);
          provs = (case authMethods f of None \<Rightarrow> [] | Some m \<Rightarrow> providers m) in
      El ''div'' [] []
        (Txt ''Log In'' #
         show_if localEnabled
           [El ''form'' [] [(''onSubmit'', LoginSubmit)]
              [El ''input'' [(''id'', ''username''), (''value'', lf_username f)] [(''onInput'', LoginName)] [],
               El ''input'' [(''id'', ''password''), (''value'', lf_password f)] [(''onInput'', LoginPassword)] [],
               El ''button'' ((''id'', ''login'') # disabled_if (lf_loading f)) [] [Txt (if lf_loading f then ''Logging in...'' else ''Log In'')]]]
         @ show_if (provs \<noteq> [])
             (show_if localEnabled [Txt ''or'']
              @ map (\<lambda>p. El ''button'' [(''icon'', case getProviderIcon (prov_canonical p) of Some i \<Rightarrow> i | None \<Rightarrow> ''bi-shield-lock'')]
                   [(''onClick'', OAuthLogin (prov_canonical p))] [Txt (''Log in with '' @ prov_name p)]) provs)
         @ show_if (\<not> localEnabled \<and> provs = []) [Txt ''No authentication methods available.'']))"

section \<open>OAuth callback\<close>

text \<open>
  The effect: with a token in the URL, the URL is cleaned, a session without user fields is made from
  the token and the token is refreshed. The URL is the second result, the request the third.
\<close>

definition oauth_callback :: "string \<Rightarrow> app \<Rightarrow> app \<times> string option \<times> call list" where
  "oauth_callback search a =
     (case usp_get (usp_parse search) ''jwt'' of
        Some j \<Rightarrow>
          if j \<noteq> '''' then (login j (Some no_user_fields) a, Some ''/auth/callback'', [postRefreshToken])
          else (route ''/login'' True a, None, [])
      | None \<Rightarrow> (route ''/login'' True a, None, []))"

definition oauth_refreshed :: "(string option \<times> user option) outcome \<Rightarrow> app \<Rightarrow> app" where
  "oauth_refreshed out a =
     (let (a', refresh, r) = api_recv (copts postRefreshToken) out a in
      case r of
        Returned p \<Rightarrow>
          (case pdata p of
             Some (Some j, u) \<Rightarrow> if j \<noteq> '''' then route ''/'' True (login j u a') else route ''/'' True a'
           | _ \<Rightarrow> route ''/'' True a')
      | _ \<Rightarrow> route ''/'' True a')"

section \<open>Completing a profile\<close>

record profile_form =
  pf_token :: string
  pf_username :: string
  pf_fullName :: string
  pf_email :: string
  pf_loading :: bool

text \<open>The parameters are read once and removed from the URL, if there were any.\<close>

definition complete_mount :: "string \<Rightarrow> profile_form \<times> string option" where
  "complete_mount search =
     (let p = usp_parse search; field = (\<lambda>k. str_or (usp_get p k)) in
      (\<lparr>pf_token = field ''token'', pf_username = field ''username'', pf_fullName = field ''full_name'',
        pf_email = field ''email'', pf_loading = False\<rparr>,
       if search \<noteq> '''' then Some ''/auth/complete-profile'' else None))"

definition complete_render :: "profile_form \<Rightarrow> app \<Rightarrow> app" where
  "complete_render f a = (if pf_token f = '''' then route ''/login'' True a else a)"

definition complete_submit :: "profile_form \<Rightarrow> profile_form \<times> call" where
  "complete_submit f =
     (f\<lparr>pf_loading := True\<rparr>,
      postOAuthCompleteProfile (JObj [(''token'', JStr (pf_token f)), (''username'', JStr (pf_username f)), (''full_name'', JStr (pf_fullName f))]))"

text \<open>\<open>None\<close>: the request failed; \<open>Inl\<close>: an answer with an error text; \<open>Inr\<close>: token and user.\<close>

definition complete_settled :: "(string + string \<times> user) option \<Rightarrow> profile_form \<times> app \<Rightarrow> profile_form \<times> app" where
  "complete_settled resp st =
     ((fst st)\<lparr>pf_loading := False\<rparr>,
      case resp of
        None \<Rightarrow> snd st
      | Some (Inl msg) \<Rightarrow> toast msg ''error'' (snd st)
      | Some (Inr (j, u)) \<Rightarrow> route ''/'' False (login j (Some u) (snd st)))"

datatype complete_action = CompleteSubmit | CompleteName | CompleteFullName

definition OAuthCompleteProfile_view :: "profile_form \<Rightarrow> complete_action html list" where
  "OAuthCompleteProfile_view f =
     show_if (pf_token f \<noteq> '''')
       [El ''div'' [] []
          ([Txt ''Complete Your Profile''] @ show_if (pf_email f \<noteq> '''') [Txt (''Signing in as '' @ pf_email f)]
           @ [El ''form'' [] [(''onSubmit'', CompleteSubmit)]
                [El ''input'' [(''id'', ''username''), (''value'', pf_username f), (''required'', '''')] [(''onInput'', CompleteName)] [],
                 El ''input'' [(''id'', ''full_name''), (''value'', pf_fullName f)] [(''onInput'', CompleteFullName)] [],
                 El ''button'' ((''type'', ''submit'') # disabled_if (pf_loading f)) []
                   [Txt (if pf_loading f then ''Creating account...'' else ''Create Account'')]]])]"

section \<open>Lemmas\<close>

text \<open>The guard of a page that only asks for a login.\<close>

definition login_guard :: guard_opts where
  "login_guard = \<lparr>adminOnly = False, requiredRole = None, teamCanonical = None, redirectTo = None\<rparr>"

lemma stays_after_login:
  "j \<noteq> '''' \<Longrightarrow> useRequireAuth login_guard (if must_change_password u then ''/profile'' else ''/'') (route url r (login j (Some u) a))
     = route url r (login j (Some u) a)"
  by (simp add: useRequireAuth_def login_guard_def guard_denied_def must_change_def login_def route_def isLoggedIn_def truthy_str_def Let_def)

lemma synced_route: "session_synced (route url r a) = session_synced a"
  by (simp add: session_synced_def route_def)

lemma recv_session:
  "session_synced a \<Longrightarrow> session_synced (fst (api_recv ops out a)) \<and> sess (fst (api_recv ops out a)) \<in> {sess a, empty_session}"
  using synced_logout [of a]
  by (cases out) (auto simp: api_recv_def session_synced_def toast_def route_def logout_def Let_def)

lemma navigations_login [simp]: "navigations (login j u a) = navigations a"
  by (simp add: login_def Let_def)

section \<open>Properties\<close>

text \<open>
  A login leads to a page that keeps the user: the session is the one of the answer, the typed
  password is gone, and the guard of the page navigated to makes no further navigation.
\<close>

theorem login_lands:
  assumes "j \<noteq> ''''"
  shows "let (f', a') = login_settled (Some (j, u)) (f, a); url = target (last (navigations a'))
    in sess a' = \<lparr>jwt = Some j, user = Some u\<rparr> \<and> lf_password f' = '''' \<and> \<not> lf_loading f'
       \<and> useRequireAuth login_guard url a' = a'"
  using stays_after_login [OF assms, of u "if must_change_password u then ''/profile'' else ''/''" False a]
  by (simp add: login_settled_def login_def route_def Let_def)

text \<open>
  C34. The OAuth callback: the token leaves the URL before anything is requested; whatever the answer
  to the refresh, the browser ends at the start page, storage and memory agree, and the session is the
  refreshed one, the one of the token, or (after an authentication failure) none.
\<close>

theorem oauth_callback_ends:
  assumes "usp_get (usp_parse search) ''jwt'' = Some j" and "j \<noteq> ''''"
  shows "let (a1, url, calls) = oauth_callback search a; a2 = oauth_refreshed out a1
    in url = Some ''/auth/callback'' \<and> calls = [postRefreshToken]
       \<and> last (navigations a2) = \<lparr>target = ''/'', replaces = True\<rparr> \<and> session_synced a2
       \<and> (sess a2 = \<lparr>jwt = Some j, user = Some no_user_fields\<rparr> \<or> sess a2 = empty_session
          \<or> (\<exists>k u. k \<noteq> '''' \<and> sess a2 = \<lparr>jwt = Some k, user = u\<rparr>))"
proof -
  let ?a = "login j (Some no_user_fields) a"
  have c: "oauth_callback search a = (?a, Some ''/auth/callback'', [postRefreshToken])"
    using assms by (simp add: oauth_callback_def)
  have r: "session_synced (fst (api_recv ops out ?a)) \<and> sess (fst (api_recv ops out ?a)) \<in> {sess ?a, empty_session}" for ops
    by (rule recv_session [OF synced_login])
  have s: "sess ?a = \<lparr>jwt = Some j, user = Some no_user_fields\<rparr>" by (simp add: login_def Let_def)
  obtain b x res where b: "api_recv (copts postRefreshToken) out ?a = (b, x, res)" by (metis prod_cases3)
  have b': "session_synced b" "sess b \<in> {sess ?a, empty_session}" using r [of "copts postRefreshToken"] b by simp_all
  have "oauth_refreshed out ?a = route ''/'' True b \<or> (\<exists>k u. k \<noteq> '''' \<and> oauth_refreshed out ?a = route ''/'' True (login k u b))"
    unfolding oauth_refreshed_def b by (auto split: result.splits option.splits prod.splits)
  then show ?thesis
  proof (elim disjE exE conjE)
    assume "oauth_refreshed out ?a = route ''/'' True b"
    with b' s show ?thesis by (auto simp: c route_def session_synced_def)
  next
    fix k u assume "k \<noteq> ''''" "oauth_refreshed out ?a = route ''/'' True (login k u b)"
    moreover have "last (navigations (route ''/'' True (login k u b))) = \<lparr>target = ''/'', replaces = True\<rparr>"
      "sess (route ''/'' True (login k u b)) = \<lparr>jwt = Some k, user = u\<rparr>"
      by (simp_all add: route_def login_def Let_def)
    ultimately show ?thesis using synced_login [of k u b] by (auto simp: c synced_route)
  qed
qed

text \<open>
  The redirect at start happens once: at its target the same parameters lead to no redirect.
\<close>

theorem boot_redirect_once:
  "boot_redirect p search = ReplaceLocation url \<Longrightarrow>
     (\<exists>tgt. url = tgt @ search \<and> boot_redirect tgt search = Stay)"
  by (auto simp: boot_redirect_def Let_def split: if_splits)

section \<open>Examples\<close>

theorem oauth_callback_ends_witness:
  "sess (oauth_refreshed NetworkError (fst (oauth_callback ''?jwt=abc'' (boot (\<lambda>_. None))))) = \<lparr>jwt = Some ''abc'', user = Some no_user_fields\<rparr>
   \<and> session_synced (oauth_refreshed NetworkError (fst (oauth_callback ''?jwt=abc'' (boot (\<lambda>_. None)))))"
proof -
  have "usp_get (usp_parse ''?jwt=abc'') ''jwt'' = Some ''abc''" by code_simp
  moreover have "oauth_refreshed NetworkError b = route ''/'' True b" for b
    by (simp add: oauth_refreshed_def api_recv_def)
  ultimately show ?thesis
    using oauth_callback_ends [of "''?jwt=abc''" "''abc''" "boot (\<lambda>_. None)" NetworkError]
    by (simp add: oauth_callback_def login_def route_def Let_def)
qed

end
