(* ===== verification/PageFrame.thy ===== *)
theory PageFrame
  imports Html Toasts UtilFns Endpoints
begin

text \<open>
  \<open>Layout.js\<close>: the toasts on the page, the header with its menu and the warning about workers, and
  the breadcrumb of every page. Lemmas: the administration entries are offered to logged-in
  administrators only; the links of a breadcrumb lead from the root downwards.
\<close>

section \<open>Notice\<close>

datatype frame_action = CloseToast nat | NavTo string | SwitchTheme | ExportDb | LogoutNow

definition toast_view :: "toast_item \<Rightarrow> frame_action html" where
  "toast_view t =
     El ''div'' [(''class'', ''piko-toast '' @ (if ttype t \<noteq> '''' then ''piko-toast-'' @ ttype t else '''') @ '' '' @ (if tshow t then ''show'' else ''''))] []
       [Txt (tmsg t), El ''button'' [(''aria-label'', ''Dismiss'')] [(''onClick'', CloseToast (tid t))] []]"

text \<open>Mounting registers the setter, unmounting removes it; the list starts empty.\<close>

definition notice_mount :: "toaster \<Rightarrow> toaster" where
  "notice_mount s = registerToastSetter True (s\<lparr>items := []\<rparr>)"

definition notice_unmount :: "toaster \<Rightarrow> toaster" where
  "notice_unmount s = registerToastSetter False s"

definition Notice :: "toaster \<Rightarrow> frame_action html" where
  "Notice s = El ''div'' [(''id'', ''notice'')] [] (map toast_view (items s))"

section \<open>Header\<close>

record header =
  versionText :: string
  unhealthy :: bool

definition header_version :: "(string \<times> string) option \<Rightarrow> header \<Rightarrow> header" where
  "header_version resp h =
     (case resp of Some (v, commit) \<Rightarrow> h\<lparr>versionText := ''Version: '' @ v @ '' ('' @ commit @ '')''\<rparr> | None \<Rightarrow> h)"

text \<open>Only administrators ask for the health of the workers; an answer has \<open>error\<close> and \<open>healthy\<close>.\<close>

definition header_requests :: "session \<Rightarrow> call list" where
  "header_requests s = fetchVersion # (if isAdmin s then [fetchWorkersHealth] else [])"

definition header_health :: "(string \<times> bool) option \<Rightarrow> header \<Rightarrow> header" where
  "header_health resp h =
     (case resp of Some (er, healthy) \<Rightarrow> h\<lparr>unhealthy := (er = '''' \<and> \<not> healthy)\<rparr> | None \<Rightarrow> h)"

definition handleExportDb :: "app \<Rightarrow> request option" where
  "handleExportDb a = exportDatabase (jwt (sess a))"

definition handleLogout :: "app \<Rightarrow> app" where
  "handleLogout a = route ''/login'' True (logout a)"

definition nav_item :: "string \<Rightarrow> string \<Rightarrow> string \<Rightarrow> frame_action html" where
  "nav_item ident href label = El ''li'' [] [] [El ''a'' [(''id'', ident), (''href'', href)] [(''onClick'', NavTo href)] [Txt label]]"

definition Header :: "session \<Rightarrow> header \<Rightarrow> frame_action html list" where
  "Header s h =
     [El ''nav'' [] []
        (El ''a'' [(''id'', ''logo''), (''href'', ''/'')] [(''onClick'', NavTo ''/'')] [Txt ''PikoCI''] #
         show_if (isLoggedIn s)
           [El ''div'' [(''id'', ''navbarContent'')] []
              ([Txt (case user s of Some u \<Rightarrow> full_name u | None \<Rightarrow> ''''),
                El ''a'' [] [(''onClick'', SwitchTheme)] [Txt ''Dark Mode''],
                nav_item ''nav-profile'' ''/profile'' ''Profile'']
               @ show_if (isAdmin s)
                   [nav_item ''nav-users'' ''/users'' ''Users Admin'', nav_item ''nav-workers'' ''/workers'' ''Workers Admin'',
                    nav_item ''nav-auth'' ''/admin/auth'' ''Authentication Admin'',
                    El ''a'' [(''id'', ''nav-export-db'')] [(''onClick'', ExportDb)] [Txt ''Export Database Admin'']]
               @ [El ''span'' [(''id'', ''app-version'')] [] [Txt (versionText h)],
                  El ''a'' [(''id'', ''logout'')] [(''onClick'', LogoutNow)] [Txt ''Logout'']])])]
     @ show_if (unhealthy h)
         [El ''div'' [(''id'', ''worker-health-banner'')] []
            [Txt ''No healthy workers detected. Builds will queue until a worker comes online.'',
             El ''a'' [(''href'', ''/workers'')] [(''onClick'', NavTo ''/workers'')] [Txt ''View workers'']]]"

section \<open>Breadcrumb\<close>

text \<open>One entry: a link (with its target) or the active text.\<close>

datatype crumb = Link string string | Active string

record crumb_props =
  cr_team :: "(string \<times> string) option" \<comment> \<open>canonical, name\<close>
  cr_pipeline :: "(string \<times> string) option"
  cr_job :: "string option" \<comment> \<open>name\<close>
  cr_resource :: "string option" \<comment> \<open>canonical\<close>
  cr_secrets :: bool
  cr_showPipelines :: bool

definition Breadcrumb :: "crumb_props \<Rightarrow> crumb list" where
  "Breadcrumb p =
     (let deeper = (cr_job p \<noteq> None \<or> cr_resource p \<noteq> None \<or> cr_secrets p) in
      [Link ''/'' ''Teams'']
      @ (case cr_team p of
           None \<Rightarrow> []
         | Some (tc, tname) \<Rightarrow>
             (if cr_pipeline p = None \<and> \<not> cr_showPipelines p then [Active tname] else [])
             @ (if cr_pipeline p \<noteq> None \<or> cr_showPipelines p
                then [Link (''/teams/'' @ tc) tname]
                     @ (if cr_showPipelines p \<and> cr_pipeline p = None then [Active ''Pipelines''] else [])
                     @ (if cr_pipeline p \<noteq> None \<or> \<not> cr_showPipelines p then [Link (''/teams/'' @ tc @ ''/pipelines'') ''Pipelines''] else [])
                else []))
      @ (case cr_pipeline p of
           None \<Rightarrow> []
         | Some (pc, pname) \<Rightarrow>
             (if \<not> deeper then [Active pname] else [])
             @ (case cr_team p of
                  Some (tc, tname) \<Rightarrow> if deeper then [Link (''/teams/'' @ tc @ ''/pipelines/'' @ pc) pname] else []
                | None \<Rightarrow> []))
      @ (if cr_secrets p then [Active ''Secrets''] else [])
      @ (case cr_job p of Some j \<Rightarrow> [Active ''Jobs'', Active j, Active ''Builds''] | None \<Rightarrow> [])
      @ (case cr_resource p of Some r \<Rightarrow> [Active ''Resources'', Active r, Active ''Versions''] | None \<Rightarrow> []))"

definition hrefs :: "crumb list \<Rightarrow> string list" where
  "hrefs cs = List.map_filter (\<lambda>c. case c of Link h t \<Rightarrow> Some h | Active t \<Rightarrow> None) cs"

section \<open>Lemmas\<close>

lemma hrefs_simps [simp]:
  "hrefs [] = []" "hrefs (Link h t # cs) = h # hrefs cs" "hrefs (Active t # cs) = hrefs cs" "hrefs (xs @ ys) = hrefs xs @ hrefs ys"
  by (simp_all add: hrefs_def List.map_filter_def)

lemma live_nav_item [simp]: "live (nav_item i h l) = [NavTo h]"
  by (simp add: nav_item_def)

text \<open>
  The links of a breadcrumb lead downwards: each target is a proper prefix of the next.
\<close>

theorem breadcrumb_links_nested:
  "sorted_wrt strict_prefix (hrefs (Breadcrumb p))"
  by (auto simp: Breadcrumb_def Let_def strict_prefix_def split: option.splits)

text \<open>
  The administration entries are offered to logged-in administrators only, the logout to everybody
  who is logged in.
\<close>

theorem Header_offers:
  "(ExportDb \<in> set (live_all (Header s h)) \<longleftrightarrow> isLoggedIn s \<and> isAdmin s)
   \<and> (NavTo ''/users'' \<in> set (live_all (Header s h)) \<longleftrightarrow> isLoggedIn s \<and> isAdmin s)
   \<and> (NavTo ''/admin/auth'' \<in> set (live_all (Header s h)) \<longleftrightarrow> isLoggedIn s \<and> isAdmin s)
   \<and> (LogoutNow \<in> set (live_all (Header s h)) \<longleftrightarrow> isLoggedIn s)"
  by (auto simp: Header_def)

text \<open>
  Logging out from the menu leaves no session, in memory or after a reload.
\<close>

theorem handleLogout_forgets:
  "sess (handleLogout a) = empty_session \<and> sess (boot (localStorage (handleLogout a))) = empty_session"
  by (simp add: handleLogout_def logout_def route_def boot_def load_session_def)

end
