(* ===== verification/Workers.thy ===== *)
theory Workers
  imports Html UtilFns Endpoints
begin

text \<open>
  \<open>Workers.js\<close>: the list of workers with their state. \<open>ago\<close> stands for \<open>pikoTimeAgo\<close> at the time of
  the render. Tooltips are not kept. Lemmas: only stale workers can be deleted; the warning at the top
  is shown exactly when a row has one; deletions and answers in any order.
\<close>

record worker =
  wk_name :: string
  wk_status :: string
  wk_team :: string
  wk_tags :: "string list option"
  wk_exclusive :: bool
  wk_os :: string
  wk_arch :: string
  wk_go :: string
  wk_version :: string
  wk_commit :: string
  wk_started :: "string option"
  wk_ping :: "string option"

record workers_page =
  wks :: "worker list"
  serverVersion :: string
  serverCommit :: string

definition workers_mount :: workers_page where
  "workers_mount = \<lparr>wks = [], serverVersion = '''', serverCommit = ''''\<rparr>"

definition workers_requests :: "call list" where
  "workers_requests = [fetchVersion, fetchWorkers]"

text \<open>Answers; \<open>None\<close> is a rejection, missing fields are empty.\<close>

definition version_answer :: "(string \<times> string) option \<Rightarrow> workers_page \<Rightarrow> workers_page" where
  "version_answer r p = (case r of Some (v, c) \<Rightarrow> p\<lparr>serverVersion := v, serverCommit := c\<rparr> | None \<Rightarrow> p)"

definition workers_answer :: "worker list option option \<Rightarrow> workers_page \<Rightarrow> workers_page" where
  "workers_answer r p = (case r of Some d \<Rightarrow> p\<lparr>wks := (case d of Some ws \<Rightarrow> ws | None \<Rightarrow> [])\<rparr> | None \<Rightarrow> p)"

definition deleteWorker_settled :: "string \<Rightarrow> bool \<Rightarrow> workers_page \<Rightarrow> workers_page" where
  "deleteWorker_settled nm ok p = (if ok then p\<lparr>wks := filter (\<lambda>w. wk_name w \<noteq> nm) (wks p)\<rparr> else p)"

definition isOutdated :: "workers_page \<Rightarrow> worker \<Rightarrow> bool" where
  "isOutdated p w \<longleftrightarrow> serverVersion p \<noteq> '''' \<and> (wk_version w \<noteq> serverVersion p \<or> wk_commit w \<noteq> serverCommit p)"

definition hasOutdated :: "workers_page \<Rightarrow> bool" where
  "hasOutdated p \<longleftrightarrow> serverVersion p \<noteq> '''' \<and> (\<exists>w \<in> set (wks p). wk_version w \<noteq> serverVersion p \<or> wk_commit w \<noteq> serverCommit p)"

datatype worker_action = DeleteWorker string

definition WorkerRow :: "(string option \<Rightarrow> string) \<Rightarrow> workers_page \<Rightarrow> worker \<Rightarrow> worker_action html" where
  "WorkerRow ago p w =
     El ''tr'' [] []
       [El ''td'' [] [] [Txt (wk_name w)],
        El ''td'' [] [] [Txt (if wk_status w = ''healthy'' then ''healthy'' else ''stale'')],
        El ''td'' [] [] [Txt (if wk_team w \<noteq> '''' then wk_team w else ''Global'')],
        El ''td'' [] []
          (case wk_tags w of
             Some (t # ts) \<Rightarrow> map Txt (t # ts) @ show_if (wk_exclusive w) [Txt ''exclusive'']
           | _ \<Rightarrow> [Txt ''-'']),
        El ''td'' [] [] [Txt (wk_os w @ ''/'' @ wk_arch w @ '' ('' @ wk_go w @ '')'')],
        El ''td'' [] []
          (Txt (wk_version w @ (if wk_commit w \<noteq> '''' \<and> wk_commit w \<noteq> ''unknown'' then '' ('' @ wk_commit w @ '')'' else '''')) #
           show_if (isOutdated p w)
             [El ''span'' [(''title'', ''Worker version does not match server (server: '' @ serverVersion p @ '' ('' @ serverCommit p @ ''))'')] [] []]),
        El ''td'' [] [] [Txt (ago (wk_started w))],
        El ''td'' [] [] [Txt (ago (wk_ping w))],
        El ''td'' [] [] (show_if (wk_status w = ''stale'')
          [El ''button'' [(''data-name'', wk_name w)] [(''onClick'', DeleteWorker (wk_name w))] []])]"

definition WorkersList :: "(string option \<Rightarrow> string) \<Rightarrow> workers_page \<Rightarrow> worker_action html list" where
  "WorkersList ago p =
     [Txt ''Workers'',
      El ''div'' [(''id'', ''worker-health-banner-container'')] []
        (show_if (hasOutdated p) [Txt ''Some workers are running an outdated version. Restart them to pick up the latest release.'']),
      El ''table'' [] []
        [El ''tr'' [] [] (map Txt [''Name'', ''Status'', ''Team'', ''Tags'', ''Platform'', ''Version'', ''Uptime'', ''Last Seen'', '''']),
         El ''tbody'' [(''id'', ''workers-table-body'')] [] (map (WorkerRow ago p) (wks p))]]"

definition delete_request :: "worker_action \<Rightarrow> call" where
  "delete_request a = (case a of DeleteWorker nm \<Rightarrow> deleteWorker nm)"

lemma live_Txt_map [simp]: "live_all (map Txt xs) = []"
  by (induction xs) auto

lemma live_tags [simp]:
  "live_all (case ts of Some (t # us) \<Rightarrow> map Txt (t # us) @ show_if b [Txt ''exclusive''] | _ \<Rightarrow> [Txt ''-'']) = []"
  by (cases ts) (auto split: list.splits)

lemma live_WorkerRow: "live (WorkerRow ago p w) = (if wk_status w = ''stale'' then [DeleteWorker (wk_name w)] else [])"
  by (simp add: WorkerRow_def)

text \<open>
  A worker can be deleted from the list exactly when one of that name is stale, and the warning at the
  top is shown exactly when some row carries one.
\<close>

theorem WorkersList_offers:
  "(DeleteWorker nm \<in> set (live_all (WorkersList ago p)) \<longleftrightarrow> (\<exists>w \<in> set (wks p). wk_name w = nm \<and> wk_status w = ''stale''))
   \<and> (hasOutdated p \<longleftrightarrow> (\<exists>w \<in> set (wks p). isOutdated p w))"
  by (auto simp: WorkersList_def live_all_map live_WorkerRow hasOutdated_def isOutdated_def)

text \<open>
  Deletions commute: the rows left after any sequence of settled deletions are those not deleted
  successfully, in their order.
\<close>

theorem workers_left:
  "wks (foldl (\<lambda>p (nm, ok). deleteWorker_settled nm ok p) p ds) = filter (\<lambda>w. (wk_name w, True) \<notin> set ds) (wks p)"
proof (induction ds arbitrary: p)
  case (Cons d ds)
  obtain nm ok where d: "d = (nm, ok)" by (cases d)
  have "wks (foldl (\<lambda>p (nm, ok). deleteWorker_settled nm ok p) p (d # ds))
    = filter (\<lambda>w. (wk_name w, True) \<notin> set ds) (wks (deleteWorker_settled nm ok p))" by (simp add: Cons.IH d)
  also have "\<dots> = filter (\<lambda>w. (wk_name w, True) \<notin> set (d # ds)) (wks p)"
    by (cases ok) (auto simp: deleteWorker_settled_def d intro: filter_cong)
  finally show ?case .
qed simp

end
