(* ===== verification/Users.thy ===== *)
theory Users
  imports SignIn
begin

text \<open>
  \<open>Users.js\<close>, the administration of users and the profile page: list, new user, one user, the tabs
  \<open>Profile\<close> and \<open>Password\<close>. Handlers work on the form and the application state; a request's answer is
  \<open>None\<close> when it was rejected, \<open>Some (Inl e)\<close> when the body carries an error text.

  Lemmas: what each answer does to form, session and notices; the profile tabs and their addresses;
  resetting a password also stores the unsaved administrator box.
\<close>

section \<open>List of users\<close>

record listed_user =
  lu_username :: string
  lu_full_name :: string
  lu_admin :: bool

definition users_list_answer :: "listed_user list option option \<Rightarrow> listed_user list \<Rightarrow> listed_user list" where
  "users_list_answer r us = (case r of Some d \<Rightarrow> case_option [] (\<lambda>xs. xs) d | None \<Rightarrow> us)"

datatype user_action = UserNav string | UserName | UserFullName | UserPassword | UserAdmin | UserSubmit | UserReset | UserDelete
  | CurrentPassword | NewPassword | ConfirmPassword | ProfileTabClick string

definition UsersList :: "listed_user list \<Rightarrow> user_action html list" where
  "UsersList us =
     [Txt ''Users'', El ''a'' [(''id'', ''user-new''), (''href'', ''/users/new'')] [(''onClick'', UserNav ''/users/new'')] [Txt ''New User''],
      El ''table'' [] []
        [El ''tr'' [] [] [Txt ''Username'', Txt ''Full Name'', Txt ''Global Admin''],
         El ''tbody'' [(''id'', ''users-table-body'')] []
           (map (\<lambda>u. El ''tr'' [] []
              [El ''a'' [(''href'', ''/users/'' @ lu_username u)] [(''onClick'', UserNav (''/users/'' @ lu_username u))] [Txt (lu_username u)],
               El ''td'' [] [] [Txt (lu_full_name u)], El ''td'' [] [] [Txt (if lu_admin u then ''Yes'' else ''No'')]]) us)]]"

section \<open>New user\<close>

text \<open>The hint under a password, which also disables the button.\<close>

definition short_password :: "string \<Rightarrow> bool" where
  "short_password pw \<longleftrightarrow> length pw > 0 \<and> length pw < 8"

definition password_hint :: "string \<Rightarrow> user_action html list" where
  "password_hint pw = show_if (short_password pw) [El ''div'' [(''class'', ''form-text text-danger'')] [] [Txt ''Password must be at least 8 characters'']]"

definition report_error :: "string \<Rightarrow> app \<Rightarrow> app" where
  "report_error e a = toast e ''error'' (setNoticeError e a)"

record user_new =
  un_username :: string
  un_fullName :: string
  un_password :: string
  un_admin :: bool
  un_loading :: bool

definition user_new_mount :: user_new where
  "user_new_mount = \<lparr>un_username = '''', un_fullName = '''', un_password = '''', un_admin = False, un_loading = False\<rparr>"

definition createUser_submit :: "user_new \<Rightarrow> user_new \<times> call" where
  "createUser_submit f =
     (f\<lparr>un_loading := True\<rparr>,
      createUser (JObj [(''username'', JStr (un_username f)), (''password'', JStr (un_password f)),
                        (''full_name'', JStr (un_fullName f)), (''admin'', JBool (un_admin f))]))"

text \<open>\<open>seen\<close>: the form at the submission.\<close>

definition createUser_settled :: "user_new \<Rightarrow> (string + unit) option \<Rightarrow> user_new \<times> app \<Rightarrow> user_new \<times> app" where
  "createUser_settled seen r st =
     ((fst st)\<lparr>un_loading := False\<rparr>,
      case r of
        None \<Rightarrow> snd st
      | Some (Inl e) \<Rightarrow> report_error e (snd st)
      | Some (Inr _) \<Rightarrow> route (''/users/'' @ un_username seen) False (snd st))"

definition UserNew :: "user_new \<Rightarrow> user_action html list" where
  "UserNew f =
     [Txt ''New User'',
      El ''form'' [(''id'', ''user-create-form'')] [(''onSubmit'', UserSubmit)]
        ([El ''input'' [(''id'', ''username''), (''value'', un_username f)] [(''onInput'', UserName)] [],
          El ''input'' [(''id'', ''full_name''), (''value'', un_fullName f)] [(''onInput'', UserFullName)] [],
          El ''input'' [(''id'', ''password''), (''value'', un_password f)] [(''onInput'', UserPassword)] []]
         @ password_hint (un_password f)
         @ [El ''input'' ((''id'', ''admin'') # (if un_admin f then [(''checked'', '''')] else [])) [(''onChange'', UserAdmin)] [],
            El ''button'' ((''type'', ''submit'') # disabled_if (un_loading f \<or> short_password (un_password f))) []
              [Txt (if un_loading f then ''Creating...'' else ''Create User'')]])]"

section \<open>One user\<close>

record user_show =
  us_user :: "listed_user option"
  us_fullName :: string
  us_username :: string
  us_admin :: bool
  us_newPassword :: string
  us_loading :: bool
  us_resetLoading :: bool

definition user_show_mount :: user_show where
  "user_show_mount = \<lparr>us_user = None, us_fullName = '''', us_username = '''', us_admin = False, us_newPassword = '''',
     us_loading = False, us_resetLoading = False\<rparr>"

definition user_answer :: "listed_user option \<Rightarrow> user_show \<Rightarrow> user_show" where
  "user_answer r f =
     (case r of
        None \<Rightarrow> f
      | Some u \<Rightarrow> f\<lparr>us_user := Some u, us_fullName := lu_full_name u, us_username := lu_username u, us_admin := lu_admin u\<rparr>)"

text \<open>The handlers of the page are only on it when there is a user.\<close>

definition submitForm :: "user_show \<Rightarrow> user_show \<times> call list" where
  "submitForm f =
     (case us_user f of
        None \<Rightarrow> (f, [])
      | Some u \<Rightarrow>
          (f\<lparr>us_loading := True\<rparr>,
           [updateUser (lu_username u) (JObj [(''full_name'', JStr (us_fullName f)), (''username'', JStr (us_username f)), (''admin'', JBool (us_admin f))])]))"

text \<open>\<open>seen\<close>: the page at the submission; an answer carries the user as stored.\<close>

definition submitForm_settled :: "user_show \<Rightarrow> (string + listed_user) option \<Rightarrow> user_show \<times> app \<Rightarrow> user_show \<times> app" where
  "submitForm_settled seen r st =
     (let f = (fst st)\<lparr>us_loading := False\<rparr> in
      case r of
        None \<Rightarrow> (f, snd st)
      | Some (Inl e) \<Rightarrow> (f, report_error e (snd st))
      | Some (Inr u') \<Rightarrow>
          (case us_user seen of
             None \<Rightarrow> (f, snd st)
           | Some u \<Rightarrow>
               if us_username seen \<noteq> lu_username u then (f, route (''/users/'' @ us_username seen) False (snd st))
               else (f\<lparr>us_user := Some u'\<rparr>, toast ''User updated'' ''success'' (snd st))))"

definition onResetPassword :: "user_show \<Rightarrow> user_show \<times> call list" where
  "onResetPassword f =
     (case us_user f of
        None \<Rightarrow> (f, [])
      | Some u \<Rightarrow>
          if us_newPassword f = '''' then (f, [])
          else (f\<lparr>us_resetLoading := True\<rparr>,
                [updateUser (lu_username u) (JObj [(''password'', JStr (us_newPassword f)), (''admin'', JBool (us_admin f))])]))"

definition onResetPassword_settled :: "(string + unit) option \<Rightarrow> user_show \<times> app \<Rightarrow> user_show \<times> app" where
  "onResetPassword_settled r st =
     (let f = (fst st)\<lparr>us_resetLoading := False\<rparr> in
      case r of
        None \<Rightarrow> (f, snd st)
      | Some (Inl e) \<Rightarrow> (f, report_error e (snd st))
      | Some (Inr _) \<Rightarrow> (f\<lparr>us_newPassword := ''''\<rparr>, toast ''Password reset successfully'' ''success'' (snd st)))"

definition onDeleteUser :: "bool \<Rightarrow> user_show \<Rightarrow> user_show \<times> call list" where
  "onDeleteUser confirmed f =
     (case us_user f of
        None \<Rightarrow> (f, [])
      | Some u \<Rightarrow> if confirmed then (f\<lparr>us_loading := True\<rparr>, [deleteUser (lu_username u)]) else (f, []))"

definition onDeleteUser_settled :: "(string + unit) option \<Rightarrow> user_show \<times> app \<Rightarrow> user_show \<times> app" where
  "onDeleteUser_settled r st =
     ((fst st)\<lparr>us_loading := False\<rparr>,
      case r of
        None \<Rightarrow> snd st
      | Some (Inl e) \<Rightarrow> report_error e (snd st)
      | Some (Inr _) \<Rightarrow> route ''/users'' False (snd st))"

definition UserShow :: "user_show \<Rightarrow> user_action html list" where
  "UserShow f =
     (case us_user f of
        None \<Rightarrow> [El ''div'' [] [] []]
      | Some u \<Rightarrow>
          [Txt (''Edit User: '' @ lu_username u),
           El ''form'' [(''id'', ''user-form'')] [(''onSubmit'', UserSubmit)]
             [El ''input'' [(''id'', ''full_name''), (''value'', us_fullName f)] [(''onInput'', UserFullName)] [],
              El ''input'' [(''id'', ''username''), (''value'', us_username f)] [(''onInput'', UserName)] [],
              El ''input'' ((''id'', ''admin'') # (if us_admin f then [(''checked'', '''')] else [])) [(''onChange'', UserAdmin)] [],
              El ''button'' ((''type'', ''submit'') # disabled_if (us_loading f)) [] [Txt (if us_loading f then ''Saving...'' else ''Save Changes'')]],
           Txt ''Reset Password'',
           El ''form'' [(''id'', ''reset-password-form'')] [(''onSubmit'', UserReset)]
             (El ''input'' [(''id'', ''new_password''), (''value'', us_newPassword f)] [(''onInput'', UserPassword)] []
              # password_hint (us_newPassword f)
              @ [El ''button'' ((''type'', ''submit'') # disabled_if (us_resetLoading f \<or> short_password (us_newPassword f))) []
                   [Txt (if us_resetLoading f then ''Resetting...'' else ''Reset Password'')]]),
           El ''button'' ((''id'', ''delete-user'') # disabled_if (us_loading f)) [(''onClick'', UserDelete)]
             [Txt (if us_loading f then ''Deleting...'' else ''Delete User'')]])"

section \<open>Profile page\<close>

definition default_tab :: "bool \<Rightarrow> string \<Rightarrow> string" where
  "default_tab mustChange search =
     (if mustChange then ''password''
      else if truthy_str (usp_get (usp_parse search) ''tab'') then the (usp_get (usp_parse search) ''tab'') else ''profile'')"

text \<open>The URL written; the tab itself becomes the active one.\<close>

definition profile_switchTab :: "string \<Rightarrow> string" where
  "profile_switchTab tab = (if tab = ''profile'' then ''/profile'' else ''/profile?tab='' @ tab)"

text \<open>
  A refresh of the token: the new session, and when there was a token in the answer its user and the
  field \<open>has_password\<close>.
\<close>

type_synonym login_data = "string option \<times> user option \<times> bool option"

definition refresh_login :: "login_data outcome \<Rightarrow> app \<Rightarrow> app \<times> (user option \<times> bool option) option" where
  "refresh_login out a =
     (let (a', refresh, r) = api_recv (copts postRefreshToken) out a in
      case r of
        Returned p \<Rightarrow>
          (case pdata p of
             Some (Some j, u, hp) \<Rightarrow> if j \<noteq> '''' then (login j u a', Some (u, hp)) else (a', None)
           | _ \<Rightarrow> (a', None))
      | _ \<Rightarrow> (a', None))"

record profile_tab =
  pr_fullName :: string
  pr_username :: string
  pr_loading :: bool

definition profile_mount :: "session \<Rightarrow> profile_tab" where
  "profile_mount s =
     (case user s of
        None \<Rightarrow> \<lparr>pr_fullName = '''', pr_username = '''', pr_loading = False\<rparr>
      | Some u \<Rightarrow> \<lparr>pr_fullName = full_name u, pr_username = username u, pr_loading = False\<rparr>)"

definition onSubmitProfile :: "profile_tab \<Rightarrow> profile_tab \<times> call list" where
  "onSubmitProfile f =
     (f\<lparr>pr_loading := True\<rparr>, [updateProfile (JObj [(''full_name'', JStr (pr_fullName f)), (''username'', JStr (pr_username f))])])"

text \<open>The update settled (a refresh of the token follows), and the refresh settled.\<close>

definition profile_updated :: "(string + unit) option \<Rightarrow> profile_tab \<times> app \<Rightarrow> profile_tab \<times> app \<times> call list" where
  "profile_updated r st =
     (case r of
        None \<Rightarrow> ((fst st)\<lparr>pr_loading := False\<rparr>, snd st, [])
      | Some (Inl e) \<Rightarrow> ((fst st)\<lparr>pr_loading := False\<rparr>, report_error e (snd st), [])
      | Some (Inr _) \<Rightarrow> (fst st, snd st, [postRefreshToken]))"

definition profile_refreshed :: "login_data outcome \<Rightarrow> profile_tab \<times> app \<Rightarrow> profile_tab \<times> app" where
  "profile_refreshed out st =
     ((fst st)\<lparr>pr_loading := False\<rparr>, toast ''Profile updated successfully'' ''success'' (fst (refresh_login out (snd st))))"

definition ProfileTab :: "profile_tab \<Rightarrow> user_action html list" where
  "ProfileTab f =
     [El ''form'' [(''id'', ''profile-form'')] [(''onSubmit'', UserSubmit)]
        [El ''input'' [(''id'', ''full_name''), (''value'', pr_fullName f)] [(''onInput'', UserFullName)] [],
         El ''input'' [(''id'', ''username''), (''value'', pr_username f)] [(''onInput'', UserName)] [],
         El ''button'' ((''type'', ''submit'') # disabled_if (pr_loading f)) [] [Txt (if pr_loading f then ''Saving...'' else ''Save Changes'')]]]"

section \<open>Password\<close>

record password_tab =
  pt_current :: string
  pt_new :: string
  pt_confirm :: string
  pt_loading :: bool
  pt_hasPassword :: bool

text \<open>\<open>hp\<close>: the field \<open>has_password\<close> of the session's user, missing in old sessions.\<close>

definition password_mount :: "bool option \<Rightarrow> password_tab \<times> call list" where
  "password_mount hp =
     (\<lparr>pt_current = '''', pt_new = '''', pt_confirm = '''', pt_loading = False, pt_hasPassword = (hp \<noteq> Some False)\<rparr>,
      if hp = None then [postRefreshToken] else [])"

definition password_mount_refreshed :: "login_data outcome \<Rightarrow> password_tab \<times> app \<Rightarrow> password_tab \<times> app" where
  "password_mount_refreshed out st =
     (let (a', r) = refresh_login out (snd st) in
      (case r of Some (Some u, hp) \<Rightarrow> (fst st)\<lparr>pt_hasPassword := (hp \<noteq> Some False)\<rparr> | _ \<Rightarrow> fst st, a'))"

definition onChangePassword :: "password_tab \<times> app \<Rightarrow> password_tab \<times> app \<times> call list" where
  "onChangePassword st =
     (let f = fst st in
      if pt_new f \<noteq> pt_confirm f then (f, report_error ''New passwords do not match'' (snd st), [])
      else (f\<lparr>pt_loading := True\<rparr>, snd st,
            [changePassword (JObj [(''old_password'', JStr (pt_current f)), (''new_password'', JStr (pt_new f))])]))"

text \<open>
  The answer: \<open>None\<close> a rejection, \<open>Some d\<close> its data. A token without a user object throws after the
  login. The last result says whether the start page is opened shortly after.
\<close>

definition onChangePassword_settled :: "bool \<Rightarrow> login_data option option \<Rightarrow> password_tab \<times> app \<Rightarrow> password_tab \<times> app \<times> bool" where
  "onChangePassword_settled mustChange r st =
     (let f = (fst st)\<lparr>pt_loading := False\<rparr>;
          finish = (\<lambda>f a. (f\<lparr>pt_current := '''', pt_new := '''', pt_confirm := ''''\<rparr>, toast ''Password changed successfully'' ''success'' a, mustChange)) in
      case r of
        None \<Rightarrow> (f, snd st, False)
      | Some d \<Rightarrow>
          (case d of
             Some (Some j, u, hp) \<Rightarrow>
               if j = '''' then finish f (snd st)
               else if u = None then (f, login j u (snd st), False)
               else finish (f\<lparr>pt_hasPassword := (hp \<noteq> Some False)\<rparr>) (login j u (snd st))
           | _ \<Rightarrow> finish f (snd st)))"

definition PasswordTab :: "password_tab \<Rightarrow> user_action html list" where
  "PasswordTab f =
     [El ''form'' [(''id'', ''change-password-form'')] [(''onSubmit'', UserSubmit)]
        ((if \<not> pt_hasPassword f
          then [Txt ''You do not have a local password yet. Set one below to enable username/password login.'']
          else [El ''input'' [(''id'', ''current_password''), (''value'', pt_current f)] [(''onInput'', CurrentPassword)] []])
         @ [El ''input'' [(''id'', ''new_password''), (''value'', pt_new f)] [(''onInput'', NewPassword)] []]
         @ password_hint (pt_new f)
         @ [El ''input'' [(''id'', ''confirm_password''), (''value'', pt_confirm f)] [(''onInput'', ConfirmPassword)] [],
            El ''button'' ((''type'', ''submit'') # disabled_if (pt_loading f \<or> short_password (pt_new f))) []
              [Txt (if pt_loading f then ''Changing...'' else ''Change Password'')]])]"

text \<open>The page around the tabs; the tabs of tokens and linked accounts are in their own theory.\<close>

definition tab_button :: "string \<Rightarrow> string \<Rightarrow> string \<Rightarrow> user_action html" where
  "tab_button active tab label =
     El ''button'' [(''class'', ''nav-link '' @ (if active = tab then ''active'' else ''''))] [(''onClick'', ProfileTabClick tab)] [Txt label]"

definition Profile_tabs :: "bool \<Rightarrow> string \<Rightarrow> user_action html list" where
  "Profile_tabs mustChange active =
     Txt ''Profile''
     # show_if mustChange
         [El ''div'' [(''id'', ''must-change-password-banner'')] [] [Txt ''Please change your default password before continuing.'']]
     @ [tab_button active ''profile'' ''Profile'', tab_button active ''password'' ''Password'',
        tab_button active ''tokens'' ''API Tokens'', tab_button active ''linked'' ''Linked Accounts'']"

section \<open>Lemmas\<close>

lemma refresh_login_session:
  assumes "session_synced a"
  shows "session_synced (fst (refresh_login out a))
    \<and> (sess (fst (refresh_login out a)) \<in> {sess a, empty_session} \<or> (\<exists>k u. k \<noteq> '''' \<and> sess (fst (refresh_login out a)) = \<lparr>jwt = Some k, user = u\<rparr>))"
proof -
  obtain b x r where b: "api_recv (copts postRefreshToken) out a = (b, x, r)" by (metis prod_cases3)
  have "session_synced b" "sess b \<in> {sess a, empty_session}"
    using recv_session [OF assms, of "copts postRefreshToken" out] b by simp_all
  moreover have "fst (refresh_login out a) = b \<or> (\<exists>k u. k \<noteq> '''' \<and> fst (refresh_login out a) = login k u b)"
    unfolding refresh_login_def b by (auto split: result.splits option.splits prod.splits)
  moreover have "sess (login k u b) = \<lparr>jwt = Some k, user = u\<rparr>" for k u by (simp add: login_def Let_def)
  ultimately show ?thesis using synced_login by metis
qed

lemma report_error_simps [simp]:
  "sess (report_error e a) = sess a" "localStorage (report_error e a) = localStorage a" "navigations (report_error e a) = navigations a"
  by (simp_all add: report_error_def toast_def setNoticeError_def)

section \<open>Properties\<close>

text \<open>
  The tab of the profile survives a reload: the URL written by a click makes it the first tab again,
  unless the password has to be changed, when the password tab always comes first.
\<close>

theorem profile_tab_restored:
  "\<forall>t \<in> {''profile'', ''password'', ''tokens'', ''linked''}. default_tab False (dropWhile (\<lambda>c. c \<noteq> CHR ''?'') (profile_switchTab t)) = t
     \<and> default_tab True (dropWhile (\<lambda>c. c \<noteq> CHR ''?'') (profile_switchTab t)) = ''password''"
proof -
  have "default_tab False (dropWhile (\<lambda>c. c \<noteq> CHR ''?'') (profile_switchTab ''profile'')) = ''profile''"
    "default_tab False (dropWhile (\<lambda>c. c \<noteq> CHR ''?'') (profile_switchTab ''password'')) = ''password''"
    "default_tab False (dropWhile (\<lambda>c. c \<noteq> CHR ''?'') (profile_switchTab ''tokens'')) = ''tokens''"
    "default_tab False (dropWhile (\<lambda>c. c \<noteq> CHR ''?'') (profile_switchTab ''linked'')) = ''linked''"
    by code_simp+
  then show ?thesis by (simp add: default_tab_def)
qed

text \<open>
  Changing the password: two different entries send nothing and change neither form nor session; a
  rejection keeps what was typed; a success empties the form, and when the password had to be changed
  the start page that is opened then keeps the user.
\<close>

theorem change_password_outcomes:
  "(pt_new f \<noteq> pt_confirm f \<longrightarrow> (\<exists>a'. onChangePassword (f, a) = (f, a', []) \<and> sess a' = sess a))
   \<and> onChangePassword_settled mc None (f, a) = (f\<lparr>pt_loading := False\<rparr>, a, False)
   \<and> (j \<noteq> '''' \<longrightarrow> (let (f', a', home) = onChangePassword_settled mc (Some (Some (Some j, Some u, hp))) (f, a) in
        pt_current f' = '''' \<and> pt_new f' = '''' \<and> pt_confirm f' = '''' \<and> \<not> pt_loading f' \<and> home = mc \<and> session_synced a'
        \<and> (\<not> must_change_password u \<longrightarrow> useRequireAuth login_guard ''/'' a' = a')))"
proof -
  have "session_synced (toast m ty (login j v a))" for m ty v
    using synced_login [of j v a] by (simp add: session_synced_def toast_def)
  moreover have "useRequireAuth login_guard ''/'' (toast m ty (login j (Some u) a)) = toast m ty (login j (Some u) a)"
    if "j \<noteq> ''''" "\<not> must_change_password u" for m ty
    using that by (simp add: useRequireAuth_def login_guard_def guard_denied_def must_change_def login_def toast_def isLoggedIn_def truthy_str_def Let_def)
  ultimately show ?thesis
    by (auto simp: onChangePassword_def onChangePassword_settled_def Let_def)
qed

text \<open>
  Saving the profile: whatever the refresh that follows answers, the session stays in step with its
  storage, and it is the old one, a new one with a token, or (after an authentication failure) none.
\<close>

theorem profile_save_keeps_session:
  "session_synced a \<Longrightarrow> let (f', a') = profile_refreshed out (f, a) in
     \<not> pr_loading f' \<and> session_synced a'
     \<and> (sess a' \<in> {sess a, empty_session} \<or> (\<exists>k u. k \<noteq> '''' \<and> sess a' = \<lparr>jwt = Some k, user = u\<rparr>))"
  using refresh_login_session [of a out] by (simp add: profile_refreshed_def session_synced_def toast_def)

text \<open>
  Resetting the password also stores the administrator box, saved or not: toggling it and resetting the
  password changes the rights of the user.
\<close>

lemma reset_password_stores_unsaved_admin:
  assumes "us_user f = Some u" and "us_newPassword f \<noteq> ''''"
  shows "snd (onResetPassword (f\<lparr>us_admin := \<not> lu_admin u\<rparr>))
    = [updateUser (lu_username u) (JObj [(''password'', JStr (us_newPassword f)), (''admin'', JBool (\<not> lu_admin u))])]"
  using assms by (simp add: onResetPassword_def)

end
