(* ===== verification/Secrets.thy ===== *)
theory Secrets
  imports PageFrame Hooks
begin

text \<open>
  \<open>Secrets.js\<close>: the table of secrets and plain values of a team or a pipeline. A pipeline shows its
  effective set, its own entries merged over those of the team.

  The panel is the record \<open>panel\<close>. The rows with a form of their own are mounted and unmounted with the
  flags of the panel (\<open>sync_rows\<close>), as a render does. The collation of \<open>localeCompare\<close> is a parameter.

  Lemmas: the merged list implements the override of maps; what the page shows does not depend on the
  value of any secret; what it offers to whom; only well-formed, new names are stored, and an edit
  keeps name and kind; at most one form is open.
\<close>

section \<open>Entries\<close>

record entry =
  en_name :: string
  en_canonical :: string
  en_kind :: string
  en_value :: "string option"
  inherited :: bool
  overrides :: bool

definition is_letter :: "char \<Rightarrow> bool" where
  "is_letter c \<longleftrightarrow> (65 \<le> (of_char c :: nat) \<and> (of_char c :: nat) \<le> 90) \<or> (97 \<le> (of_char c :: nat) \<and> (of_char c :: nat) \<le> 122)"

text \<open>\<open>NAME_RE.test(s)\<close>.\<close>

fun NAME_RE :: "string \<Rightarrow> bool" where
  "NAME_RE [] = False"
| "NAME_RE (c # cs) = ((is_letter c \<or> c = CHR ''_'') \<and> (\<forall>d \<in> set cs. is_letter d \<or> is_digit d \<or> d = CHR ''_'') \<and> length cs \<le> 254)"

definition or_empty :: "'a list option \<Rightarrow> 'a list" where
  "or_empty xs = (case xs of Some ys \<Rightarrow> ys | None \<Rightarrow> [])"

definition mergeEntries :: "(string \<Rightarrow> string \<Rightarrow> int) \<Rightarrow> entry list option \<Rightarrow> entry list option \<Rightarrow> entry list" where
  "mergeEntries lc teamEntries pipelineEntries =
     (let teamNames = map en_canonical (or_empty teamEntries);
          pipelineNames = map en_canonical (or_empty pipelineEntries);
          own = map (\<lambda>e. e\<lparr>inherited := False, overrides := en_canonical e \<in> set teamNames\<rparr>) (or_empty pipelineEntries);
          inh = map (\<lambda>e. e\<lparr>inherited := True, overrides := False\<rparr>)
                  (filter (\<lambda>e. en_canonical e \<notin> set pipelineNames) (or_empty teamEntries))
      in js_sort (\<lambda>a b. lc (en_canonical a) (en_canonical b)) (own @ inh))"

text \<open>
  The requests of \<open>loadEntries\<close> and its result. A leg is \<open>None\<close> when its request failed; the data of an
  answer may be null. The result is \<open>None\<close> when the promise rejects.
\<close>

definition load_requests :: "string \<Rightarrow> string option \<Rightarrow> call list" where
  "load_requests tc pno = (if \<not> truthy_str pno then [fetchSecrets tc None] else [fetchSecrets tc pno, fetchSecrets tc None])"

definition loadEntries ::
  "(string \<Rightarrow> string \<Rightarrow> int) \<Rightarrow> string option \<Rightarrow> entry list option option \<Rightarrow> entry list option option \<Rightarrow> (entry list \<times> entry list) option" where
  "loadEntries lc pno own_leg team_leg =
     (if \<not> truthy_str pno then map_option (\<lambda>d. (or_empty d, or_empty d)) team_leg
      else (let own = (case own_leg of Some d \<Rightarrow> d | None \<Rightarrow> Some []);
                team = (case team_leg of Some d \<Rightarrow> d | None \<Rightarrow> Some [])
            in Some (mergeEntries lc team own, or_empty own)))"

definition entry_json :: "string \<Rightarrow> string \<Rightarrow> string \<Rightarrow> json" where
  "entry_json nm v kd = JObj [(''name'', JStr nm), (''value'', JStr v), (''kind'', JStr kd)]"

definition saveEntry :: "string \<Rightarrow> string option \<Rightarrow> json \<Rightarrow> call" where
  "saveEntry tc pno e = setSecret tc pno e"

definition removeEntry :: "string \<Rightarrow> string option \<Rightarrow> string \<Rightarrow> call" where
  "removeEntry tc pno canonical = deleteSecret tc pno canonical"

section \<open>Rows with a form\<close>

record edit_row =
  er_entry :: entry
  er_value :: string
  er_saving :: bool

definition is_secret :: "entry \<Rightarrow> bool" where
  "is_secret e \<longleftrightarrow> en_kind e = ''secret''"

definition edit_mount :: "entry \<Rightarrow> edit_row" where
  "edit_mount e = \<lparr>er_entry = e, er_value = (if is_secret e then '''' else str_or (en_value e)), er_saving = False\<rparr>"

definition edit_canSave :: "edit_row \<Rightarrow> bool" where
  "edit_canSave r \<longleftrightarrow> er_value r \<noteq> '''' \<and> \<not> er_saving r"

record new_row =
  nr_name :: string
  nr_value :: string
  nr_secret :: bool
  nr_saving :: bool

definition new_mount :: new_row where
  "new_mount = \<lparr>nr_name = '''', nr_value = '''', nr_secret = True, nr_saving = False\<rparr>"

definition duplicate :: "entry list \<Rightarrow> new_row \<Rightarrow> bool" where
  "duplicate existing r \<longleftrightarrow> (\<exists>e \<in> set existing. en_canonical e = js_trim (nr_name r))"

definition new_canSave :: "entry list \<Rightarrow> new_row \<Rightarrow> bool" where
  "new_canSave existing r \<longleftrightarrow>
     NAME_RE (js_trim (nr_name r)) \<and> \<not> duplicate existing r \<and> nr_value r \<noteq> '''' \<and> \<not> nr_saving r"

section \<open>Panel\<close>

record panel =
  entries :: "entry list"
  ownEntries :: "entry list"
  loaded :: bool
  showNew :: bool
  editing :: "string option"
  newRow :: "new_row option"
  editRow :: "edit_row option"

definition panel_mount :: panel where
  "panel_mount = \<lparr>entries = [], ownEntries = [], loaded = False, showNew = False, editing = None, newRow = None, editRow = None\<rparr>"

text \<open>
  What a render does to the rows: a row with a form lives as long as its flag; the row of the entry
  being edited lives as long as that entry is in the list, and always sees the entry of the list.
\<close>

definition sync_rows :: "panel \<Rightarrow> panel" where
  "sync_rows p =
     p\<lparr>newRow := (if loaded p \<and> showNew p then Some (case newRow p of Some r \<Rightarrow> r | None \<Rightarrow> new_mount) else None),
       editRow := (if loaded p
          then (case editing p of
             None \<Rightarrow> None
           | Some c \<Rightarrow> (case List.find (\<lambda>e. en_canonical e = c) (entries p) of
                None \<Rightarrow> None
              | Some e \<Rightarrow> Some (case editRow p of
                  Some r \<Rightarrow> if en_canonical (er_entry r) = c then r\<lparr>er_entry := e\<rparr> else edit_mount e
                | None \<Rightarrow> edit_mount e)))
          else None)\<rparr>"

datatype secret_effect = SecretCall call | SecretToast string | SecretGo string

definition load :: "string \<Rightarrow> string option \<Rightarrow> secret_effect list" where
  "load tc pno = map SecretCall (load_requests tc pno)"

definition load_settled :: "(entry list \<times> entry list) option \<Rightarrow> panel \<Rightarrow> panel" where
  "load_settled res p =
     sync_rows (case res of Some (es, own) \<Rightarrow> p\<lparr>entries := es, ownEntries := own, loaded := True\<rparr> | None \<Rightarrow> p\<lparr>loaded := True\<rparr>)"

definition clickNew :: "panel \<Rightarrow> panel" where
  "clickNew p = sync_rows (p\<lparr>editing := None, showNew := \<not> showNew p\<rparr>)"

definition cancelNew :: "panel \<Rightarrow> panel" where
  "cancelNew p = sync_rows (p\<lparr>showNew := False\<rparr>)"

definition onEdit :: "entry \<Rightarrow> panel \<Rightarrow> panel" where
  "onEdit e p = sync_rows (p\<lparr>showNew := False, editing := Some (en_canonical e)\<rparr>)"

definition cancelEdit :: "panel \<Rightarrow> panel" where
  "cancelEdit p = sync_rows (p\<lparr>editing := None\<rparr>)"

text \<open>Typing into the forms.\<close>

definition typeNew :: "(new_row \<Rightarrow> new_row) \<Rightarrow> panel \<Rightarrow> panel" where
  "typeNew f p = p\<lparr>newRow := map_option f (newRow p)\<rparr>"

definition typeEdit :: "string \<Rightarrow> panel \<Rightarrow> panel" where
  "typeEdit v p = p\<lparr>editRow := map_option (\<lambda>r. r\<lparr>er_value := v\<rparr>) (editRow p)\<rparr>"

text \<open>
  Submitting. The request settles later: \<open>onAdd_settled\<close> and \<open>onSave_settled\<close>, where \<open>ok\<close> is False for a
  rejection and \<open>mounted\<close> says whether the form that sent it is still the one on the page.
\<close>

definition submitNew :: "string \<Rightarrow> string option \<Rightarrow> panel \<Rightarrow> panel \<times> secret_effect list" where
  "submitNew tc pno p =
     (case newRow p of
        None \<Rightarrow> (p, [])
      | Some r \<Rightarrow>
          if \<not> new_canSave (ownEntries p) r then (p, [])
          else (p\<lparr>newRow := Some (r\<lparr>nr_saving := True\<rparr>)\<rparr>,
                [SecretCall (saveEntry tc pno (entry_json (js_trim (nr_name r)) (nr_value r) (if nr_secret r then ''secret'' else ''plain'')))]))"

definition onAdd_settled :: "string \<Rightarrow> string option \<Rightarrow> string \<Rightarrow> bool \<Rightarrow> bool \<Rightarrow> panel \<Rightarrow> panel \<times> secret_effect list" where
  "onAdd_settled tc pno kd ok mounted p =
     (if ok then (sync_rows (p\<lparr>showNew := False\<rparr>),
                  SecretToast (if kd = ''secret'' then ''Secret stored'' else ''Value stored'') # load tc pno)
      else (if mounted then typeNew (\<lambda>r. r\<lparr>nr_saving := False\<rparr>) p else p, []))"

definition submitEdit :: "string \<Rightarrow> string option \<Rightarrow> panel \<Rightarrow> panel \<times> secret_effect list" where
  "submitEdit tc pno p =
     (case editRow p of
        None \<Rightarrow> (p, [])
      | Some r \<Rightarrow>
          if \<not> edit_canSave r then (p, [])
          else (p\<lparr>editRow := Some (r\<lparr>er_saving := True\<rparr>)\<rparr>,
                [SecretCall (saveEntry tc pno (entry_json (en_name (er_entry r)) (er_value r) (en_kind (er_entry r))))]))"

definition onSave_settled :: "string \<Rightarrow> string option \<Rightarrow> string \<Rightarrow> bool \<Rightarrow> bool \<Rightarrow> panel \<Rightarrow> panel \<times> secret_effect list" where
  "onSave_settled tc pno kd ok mounted p =
     (if ok then (sync_rows (p\<lparr>editing := None\<rparr>),
                  SecretToast (if kd = ''secret'' then ''Secret updated'' else ''Value updated'') # load tc pno)
      else (if mounted then p\<lparr>editRow := map_option (\<lambda>r. r\<lparr>er_saving := False\<rparr>) (editRow p)\<rparr> else p, []))"

definition delete_question :: "entry \<Rightarrow> string" where
  "delete_question e = ''Are you sure you want to delete the '' @ (if is_secret e then ''secret'' else ''value'') @ '' '' @ [CHR 0x27] @ en_name e @ [CHR 0x27] @ ''?''"

definition onDelete :: "string \<Rightarrow> string option \<Rightarrow> bool \<Rightarrow> entry \<Rightarrow> secret_effect list" where
  "onDelete tc pno confirmed e = (if confirmed then [SecretCall (removeEntry tc pno (en_canonical e))] else [])"

definition onDelete_settled :: "string \<Rightarrow> string option \<Rightarrow> bool \<Rightarrow> secret_effect list" where
  "onDelete_settled tc pno ok = (if ok then SecretToast ''Deleted'' # load tc pno else [])"

section \<open>Views\<close>

datatype secret_action = ClickNew | NewName | NewValue | NewKind | SubmitNew | CancelNew
  | EditEntry string | DeleteEntry string | EditValue | SubmitEdit | CancelEdit | TeamSecrets string

definition kind_badge :: "entry \<Rightarrow> secret_action html" where
  "kind_badge e = El ''span'' [] [] [Txt (if is_secret e then ''secret'' else ''plain'')]"

definition EntryRow :: "string \<Rightarrow> bool \<Rightarrow> bool \<Rightarrow> entry \<Rightarrow> secret_action html" where
  "EntryRow tc canWrite showScope e =
     El ''tr'' [(''class'', ''piko-secret-row'' @ (if inherited e then '' table-light'' else '''')), (''data-name'', en_canonical e)] []
       ([El ''td'' [] [] [Txt (en_name e)], El ''td'' [] [] [kind_badge e],
         El ''td'' [] [] [if is_secret e then El ''span'' [(''title'', ''Secret values are never returned'')] [] [Txt ''********'']
                           else El ''code'' [] [] [Txt (str_or (en_value e))]]]
        @ show_if showScope
            [El ''td'' [] [] [Txt (if inherited e then ''inherited'' else if overrides e then ''overrides team'' else ''pipeline'')]]
        @ [El ''td'' [] []
             (if inherited e
              then [El ''a'' [(''href'', ''/teams/'' @ tc @ ''/secrets'')] [(''onClick'', TeamSecrets (''/teams/'' @ tc @ ''/secrets''))] [Txt ''Team'']]
              else show_if canWrite
                [El ''button'' [(''title'', ''Replace the value'')] [(''onClick'', EditEntry (en_canonical e))] [],
                 El ''button'' [] [(''onClick'', DeleteEntry (en_canonical e))] []])])"

definition EditEntryRow :: "bool \<Rightarrow> edit_row \<Rightarrow> secret_action html" where
  "EditEntryRow showScope r =
     (let e = er_entry r in
      El ''tr'' [(''class'', ''piko-secret-row''), (''data-name'', en_canonical e)] []
       ([El ''td'' [] [] [Txt (en_name e)], El ''td'' [] [] [kind_badge e],
         El ''td'' [] []
           [El ''input'' [(''type'', if is_secret e then ''password'' else ''text''), (''id'', ''secret-edit-value''),
                          (''placeholder'', if is_secret e then ''New value'' else ''''), (''value'', er_value r)]
              [(''onInput'', EditValue), (''onKeyDown'', SubmitEdit)] []]]
        @ show_if showScope [El ''td'' [] [] []]
        @ [El ''td'' [] []
             [El ''button'' ((''id'', ''save-secret-edit'') # disabled_if (\<not> edit_canSave r)) [(''onClick'', SubmitEdit)] [],
              El ''button'' [(''id'', ''cancel-secret-edit'')] [(''onClick'', CancelEdit)] []]]))"

definition NewEntryRow :: "bool \<Rightarrow> entry list \<Rightarrow> entry list \<Rightarrow> new_row \<Rightarrow> secret_action html" where
  "NewEntryRow showScope existing teamEntries r =
     (let trimmed = js_trim (nr_name r); nameValid = NAME_RE trimmed;
          willOverride = (\<exists>e \<in> set teamEntries. en_canonical e = trimmed) in
      El ''tr'' [] []
       ([El ''td'' [] []
           (El ''input'' [(''id'', ''secret-name''), (''value'', nr_name r)] [(''onInput'', NewName), (''onKeyDown'', SubmitNew)] []
            # show_if (trimmed \<noteq> '''' \<and> \<not> nameValid) [Txt ''Letters, digits and underscores only, not starting with a digit.'']
            @ show_if (duplicate existing r) [Txt (''An entry named '' @ trimmed @ '' already exists. Edit it to replace its value.'')]
            @ show_if (\<not> duplicate existing r \<and> willOverride) [Txt ''Overrides the team entry of the same name for this pipeline.'']),
         El ''td'' [] []
           [El ''input'' ((''id'', ''secret-kind'') # (if nr_secret r then [(''checked'', '''')] else [])) [(''onChange'', NewKind)] [], Txt ''Secret''],
         El ''td'' [] []
           [El ''input'' [(''type'', if nr_secret r then ''password'' else ''text''), (''id'', ''secret-value''),
                          (''placeholder'', if nr_secret r then '''' else ''debug''), (''value'', nr_value r)]
              [(''onInput'', NewValue), (''onKeyDown'', SubmitNew)] []]]
        @ show_if showScope [El ''td'' [] [] []]
        @ [El ''td'' [] []
             [El ''button'' ((''id'', ''save-secret'') # disabled_if (\<not> new_canSave existing r)) [(''onClick'', SubmitNew)] [],
              El ''button'' [(''id'', ''cancel-secret'')] [(''onClick'', CancelNew)] []]]))"

definition panel_row :: "string \<Rightarrow> bool \<Rightarrow> bool \<Rightarrow> panel \<Rightarrow> entry \<Rightarrow> secret_action html" where
  "panel_row tc canWrite scoped p e =
     (if editing p = Some (en_canonical e)
      then EditEntryRow scoped ((case editRow p of Some r \<Rightarrow> r | None \<Rightarrow> edit_mount e)\<lparr>er_entry := e\<rparr>)
      else EntryRow tc canWrite scoped e)"

definition SecretsPanel :: "session \<Rightarrow> string \<Rightarrow> string option \<Rightarrow> panel \<Rightarrow> secret_action html list" where
  "SecretsPanel s tc pno p =
     (let canWrite = hasTeamRole s tc ''maintain''; scoped = truthy_str pno in
      show_if (loaded p)
        [El ''div'' [] []
           (Txt (if scoped then ''Pipeline Secrets'' else ''Team Secrets'') #
            show_if canWrite [El ''button'' [(''id'', ''new-secret'')] [(''onClick'', ClickNew)] [Txt ''New Entry'']]),
         El ''p'' [] []
           [Txt ''Secrets are encrypted at rest and masked in build logs; their values are never shown again, though they can be replaced. Plain values are stored as-is and printed in build logs.'',
            Txt (if scoped then '' This is the effective set for the pipeline: entries inherited from the team are shown alongside its own, which override them by name.''
                 else '' Team entries are available to every pipeline in the team.''),
            Txt '' Reference one from a pipeline with secret \"pikoci\" { key = \"NAME\" }.''],
         El ''table'' [] []
           [El ''tr'' [] [] ([Txt ''Name'', Txt ''Kind'', Txt ''Value''] @ show_if scoped [Txt ''Scope''] @ [Txt ''Options'']),
            El ''tbody'' [(''id'', ''secrets-body'')] []
              (show_if (showNew p)
                 [NewEntryRow scoped (ownEntries p) (if scoped then filter inherited (entries p) else [])
                    (case newRow p of Some r \<Rightarrow> r | None \<Rightarrow> new_mount)]
               @ show_if (entries p = [] \<and> \<not> showNew p) [Txt ''No entries yet.'']
               @ map (panel_row tc canWrite scoped p) (entries p))]])"

section \<open>Page\<close>

record secrets_page =
  sp_team :: "(string \<times> string) option" \<comment> \<open>canonical, name\<close>
  sp_pipeline :: "(string \<times> string) option"

definition page_requests :: "string \<Rightarrow> string \<Rightarrow> call list" where
  "page_requests tc pn = [fetchTeam tc, fetchPipeline tc pn]"

definition PipelineSecrets :: "session \<Rightarrow> string \<Rightarrow> string \<Rightarrow> secrets_page \<Rightarrow> panel \<Rightarrow> (crumb list \<times> secret_action html list) option" where
  "PipelineSecrets s tc pn pg p =
     (case sp_team pg of
        None \<Rightarrow> None
      | Some t \<Rightarrow> (case sp_pipeline pg of
          None \<Rightarrow> None
        | Some (pc, pname) \<Rightarrow>
            Some (Breadcrumb \<lparr>cr_team = Some t, cr_pipeline = Some (pc, pname), cr_job = None, cr_resource = None, cr_secrets = True, cr_showPipelines = False\<rparr>,
                  Txt pname # SecretsPanel s tc (Some pn) p)))"

section \<open>Runs of the panel\<close>

text \<open>
  What can happen to a mounted panel: the two legs of a load answer, the user clicks and types, a
  request of a form settles (\<open>ok\<close>, and whether its form is still mounted).
\<close>

datatype panel_event = Loaded "entry list option option" "entry list option option"
  | PushNew | PushCancelNew | PushEdit entry | PushCancelEdit
  | TypeName string | TypeValue string | TypeKind bool | TypeEdit string
  | PushSubmitNew | PushSubmitEdit | AddSettled string bool bool | SaveSettled string bool bool

fun panel_step :: "(string \<Rightarrow> string \<Rightarrow> int) \<Rightarrow> string \<Rightarrow> string option \<Rightarrow> panel \<Rightarrow> panel_event \<Rightarrow> panel" where
  "panel_step lc tc pno p (Loaded own team) = load_settled (loadEntries lc pno own team) p"
| "panel_step lc tc pno p PushNew = clickNew p"
| "panel_step lc tc pno p PushCancelNew = cancelNew p"
| "panel_step lc tc pno p (PushEdit e) = onEdit e p"
| "panel_step lc tc pno p PushCancelEdit = cancelEdit p"
| "panel_step lc tc pno p (TypeName v) = typeNew (\<lambda>r. r\<lparr>nr_name := v\<rparr>) p"
| "panel_step lc tc pno p (TypeValue v) = typeNew (\<lambda>r. r\<lparr>nr_value := v\<rparr>) p"
| "panel_step lc tc pno p (TypeKind b) = typeNew (\<lambda>r. r\<lparr>nr_secret := b\<rparr>) p"
| "panel_step lc tc pno p (TypeEdit v) = typeEdit v p"
| "panel_step lc tc pno p PushSubmitNew = fst (submitNew tc pno p)"
| "panel_step lc tc pno p PushSubmitEdit = fst (submitEdit tc pno p)"
| "panel_step lc tc pno p (AddSettled kd ok mounted) = fst (onAdd_settled tc pno kd ok mounted p)"
| "panel_step lc tc pno p (SaveSettled kd ok mounted) = fst (onSave_settled tc pno kd ok mounted p)"

section \<open>Merging is overriding\<close>

text \<open>The values a list of entries stands for: name, kind and value by canonical name.\<close>

definition eff :: "entry list \<Rightarrow> string \<rightharpoonup> string \<times> string \<times> string option" where
  "eff es = map_of (map (\<lambda>e. (en_canonical e, en_name e, en_kind e, en_value e)) es)"

lemma eff_cong:
  assumes "distinct (map en_canonical xs)" and "mset ys = mset xs"
  shows "eff ys = eff xs"
proof -
  let ?g = "\<lambda>e. (en_canonical e, en_name e, en_kind e, en_value e)"
  have "distinct (map fst (map ?g xs))" "distinct (map fst (map ?g ys))"
    using assms mset_eq_imp_distinct_iff [of "map en_canonical ys" "map en_canonical xs"] by (simp_all add: o_def)
  moreover have "set (map ?g ys) = set (map ?g xs)" using mset_eq_setD [OF assms(2)] by simp
  ultimately show ?thesis unfolding eff_def by (intro iffD2 [OF map_of_inject_set])
qed

lemma eff_append: "eff (xs @ ys) = eff ys ++ eff xs"
  by (simp add: eff_def map_of_append)

lemma eff_flags: "eff (map (\<lambda>e. e\<lparr>inherited := i e, overrides := v e\<rparr>) xs) = eff xs"
  by (simp add: eff_def o_def)

lemma eff_filter_add: "eff (filter (\<lambda>e. en_canonical e \<notin> en_canonical ` set own) team) ++ eff own = eff team ++ eff own"
proof
  fix c
  have dom: "eff own c = None \<longleftrightarrow> c \<notin> en_canonical ` set own"
    by (auto simp: eff_def map_of_eq_None_iff image_image)
  have "c \<notin> en_canonical ` set own \<Longrightarrow> eff (filter (\<lambda>e. en_canonical e \<notin> en_canonical ` set own) team) c = eff team c"
    by (induction team) (auto simp: eff_def)
  then show "(eff (filter (\<lambda>e. en_canonical e \<notin> en_canonical ` set own) team) ++ eff own) c = (eff team ++ eff own) c"
    using dom by (cases "eff own c") (auto simp: map_add_def)
qed

section \<open>Concealing the values of secrets\<close>

text \<open>The same entries with other values of the secrets: \<open>f\<close> gives the new ones by name.\<close>

definition conceal :: "(string \<Rightarrow> string option) \<Rightarrow> entry \<Rightarrow> entry" where
  "conceal f e = (if is_secret e then e\<lparr>en_value := f (en_canonical e)\<rparr> else e)"

definition conceal_panel :: "(string \<Rightarrow> string option) \<Rightarrow> panel \<Rightarrow> panel" where
  "conceal_panel f p = p\<lparr>entries := map (conceal f) (entries p), ownEntries := map (conceal f) (ownEntries p),
     editRow := map_option (\<lambda>r. r\<lparr>er_entry := conceal f (er_entry r)\<rparr>) (editRow p)\<rparr>"

fun conceal_event :: "(string \<Rightarrow> string option) \<Rightarrow> panel_event \<Rightarrow> panel_event" where
  "conceal_event f (Loaded own team) = Loaded (map_option (map_option (map (conceal f))) own) (map_option (map_option (map (conceal f))) team)"
| "conceal_event f (PushEdit e) = PushEdit (conceal f e)"
| "conceal_event f ev = ev"

lemma conceal_simps [simp]:
  "en_canonical (conceal f e) = en_canonical e" "en_name (conceal f e) = en_name e" "en_kind (conceal f e) = en_kind e"
  "is_secret (conceal f e) = is_secret e" "inherited (conceal f e) = inherited e" "overrides (conceal f e) = overrides e"
  by (simp_all add: conceal_def is_secret_def)

lemma conceal_flags: "(conceal f e)\<lparr>inherited := i, overrides := v\<rparr> = conceal f (e\<lparr>inherited := i, overrides := v\<rparr>)"
  by (simp add: conceal_def is_secret_def)

lemma conceal_plain: "\<not> is_secret e \<Longrightarrow> conceal f e = e"
  by (simp add: conceal_def)

lemma or_empty_simps [simp]: "or_empty None = []" "or_empty (Some xs) = xs"
  by (simp_all add: or_empty_def)

lemma er_entry_mount [simp]: "er_entry (edit_mount e) = e"
  by (simp add: edit_mount_def)

lemma or_empty_map: "or_empty (map_option (map g) xs) = map g (or_empty xs)"
  by (simp add: or_empty_def split: option.splits)

lemma conceal_merge:
  "mergeEntries lc (map_option (map (conceal f)) team) (map_option (map (conceal f)) own) = map (conceal f) (mergeEntries lc team own)"
  by (simp add: mergeEntries_def Let_def or_empty_map filter_map o_def conceal_flags flip: js_sort_map [where g = "conceal f"])

lemma conceal_merge_nil:
  "map (conceal f) (mergeEntries lc (Some []) own) = mergeEntries lc (Some []) (map_option (map (conceal f)) own)"
  "map (conceal f) (mergeEntries lc team (Some [])) = mergeEntries lc (map_option (map (conceal f)) team) (Some [])"
  using conceal_merge [of lc f "Some []" own] conceal_merge [of lc f team "Some []"] by simp_all

lemma conceal_load:
  "loadEntries lc pno (map_option (map_option (map (conceal f))) own) (map_option (map_option (map (conceal f))) team)
   = map_option (map_prod (map (conceal f)) (map (conceal f))) (loadEntries lc pno own team)"
  by (auto simp: loadEntries_def Let_def or_empty_map option.map_comp o_def conceal_merge conceal_merge_nil split: option.splits)

lemma find_conceal: "List.find (\<lambda>e. en_canonical e = c) (map (conceal f) es) = map_option (conceal f) (List.find (\<lambda>e. en_canonical e = c) es)"
  by (induction es) auto

lemma edit_mount_conceal: "edit_mount (conceal f e) = (edit_mount e)\<lparr>er_entry := conceal f e\<rparr>"
  by (cases "is_secret e") (simp_all add: edit_mount_def conceal_plain)

lemma conceal_sync: "conceal_panel f (sync_rows p) = sync_rows (conceal_panel f p)"
  by (cases p) (auto simp: sync_rows_def conceal_panel_def find_conceal edit_mount_conceal split: option.splits)

lemma conceal_panel_fields [simp]:
  "loaded (conceal_panel f p) = loaded p" "showNew (conceal_panel f p) = showNew p" "editing (conceal_panel f p) = editing p"
  "newRow (conceal_panel f p) = newRow p" "entries (conceal_panel f p) = map (conceal f) (entries p)"
  "ownEntries (conceal_panel f p) = map (conceal f) (ownEntries p)"
  "editRow (conceal_panel f p) = map_option (\<lambda>r. r\<lparr>er_entry := conceal f (er_entry r)\<rparr>) (editRow p)"
  by (simp_all add: conceal_panel_def)

lemma conceal_canSave [simp]:
  "new_canSave (map (conceal f) es) r = new_canSave es r" "duplicate (map (conceal f) es) r = duplicate es r"
  "edit_canSave (r'\<lparr>er_entry := e\<rparr>) = edit_canSave r'"
  by (simp_all add: new_canSave_def duplicate_def edit_canSave_def)

lemma conceal_updates:
  "conceal_panel f (p\<lparr>loaded := b\<rparr>) = (conceal_panel f p)\<lparr>loaded := b\<rparr>"
  "conceal_panel f (p\<lparr>showNew := b\<rparr>) = (conceal_panel f p)\<lparr>showNew := b\<rparr>"
  "conceal_panel f (p\<lparr>editing := c\<rparr>) = (conceal_panel f p)\<lparr>editing := c\<rparr>"
  "conceal_panel f (p\<lparr>newRow := r\<rparr>) = (conceal_panel f p)\<lparr>newRow := r\<rparr>"
  "conceal_panel f (p\<lparr>entries := es\<rparr>) = (conceal_panel f p)\<lparr>entries := map (conceal f) es\<rparr>"
  "conceal_panel f (p\<lparr>ownEntries := es\<rparr>) = (conceal_panel f p)\<lparr>ownEntries := map (conceal f) es\<rparr>"
  "conceal_panel f (p\<lparr>editRow := er\<rparr>) = (conceal_panel f p)\<lparr>editRow := map_option (\<lambda>r. r\<lparr>er_entry := conceal f (er_entry r)\<rparr>) er\<rparr>"
  by (cases p; simp add: conceal_panel_def)+

lemma conceal_settled:
  "load_settled (map_option (map_prod (map (conceal f)) (map (conceal f))) res) (conceal_panel f p) = conceal_panel f (load_settled res p)"
  by (cases res) (auto simp: load_settled_def conceal_sync conceal_updates)

lemma conceal_submit:
  "submitNew tc pno (conceal_panel f p) = map_prod (conceal_panel f) id (submitNew tc pno p)"
  "submitEdit tc pno (conceal_panel f p) = map_prod (conceal_panel f) id (submitEdit tc pno p)"
  by (auto simp: submitNew_def submitEdit_def conceal_panel_def split: option.splits)

lemma er_entry_last:
  "r\<lparr>er_entry := e, er_value := v\<rparr> = r\<lparr>er_value := v, er_entry := e\<rparr>"
  "r\<lparr>er_entry := e, er_saving := b\<rparr> = r\<lparr>er_saving := b, er_entry := e\<rparr>"
  by (cases r; simp)+

lemma conceal_step:
  "panel_step lc tc pno (conceal_panel f p) (conceal_event f e) = conceal_panel f (panel_step lc tc pno p e)"
proof (cases e)
  case (Loaded own team)
  then show ?thesis by (simp only: conceal_event.simps panel_step.simps conceal_load conceal_settled)
qed (simp_all add: clickNew_def cancelNew_def onEdit_def cancelEdit_def typeNew_def typeEdit_def conceal_submit
      onAdd_settled_def onSave_settled_def conceal_sync conceal_updates er_entry_last option.map_comp o_def)

lemma conceal_run:
  "run (panel_step lc tc pno) (conceal_panel f p) (map (conceal_event f) es) = conceal_panel f (run (panel_step lc tc pno) p es)"
  by (induction es arbitrary: p) (simp_all add: conceal_step)

lemma EntryRow_conceal: "EntryRow tc w sc (conceal f e) = EntryRow tc w sc e"
  by (cases "is_secret e") (simp_all add: EntryRow_def kind_badge_def conceal_plain)

lemma EditEntryRow_conceal: "EditEntryRow sc (r\<lparr>er_entry := conceal f e\<rparr>) = EditEntryRow sc (r\<lparr>er_entry := e\<rparr>)"
  by (simp add: EditEntryRow_def kind_badge_def Let_def edit_canSave_def)

lemma panel_row_conceal: "panel_row tc w sc (conceal_panel f p) (conceal f e) = panel_row tc w sc p e"
  by (simp add: panel_row_def EntryRow_conceal EditEntryRow_conceal edit_mount_conceal split: option.splits)

lemma NewEntryRow_conceal:
  "NewEntryRow sc (map (conceal f) own) (filter inherited (map (conceal f) es)) r = NewEntryRow sc own (filter inherited es) r"
  "NewEntryRow sc (map (conceal f) own) [] r = NewEntryRow sc own [] r"
  by (auto simp: NewEntryRow_def Let_def Bex_def)

lemma SecretsPanel_conceal: "SecretsPanel s tc pno (conceal_panel f p) = SecretsPanel s tc pno p"
  by (simp add: SecretsPanel_def Let_def panel_row_conceal NewEntryRow_conceal o_def del: filter_map)

section \<open>One form at a time\<close>

definition one_form :: "panel \<Rightarrow> bool" where
  "one_form p \<longleftrightarrow> (editing p \<noteq> None \<longrightarrow> \<not> showNew p) \<and> (newRow p \<noteq> None \<longrightarrow> showNew p) \<and> (editRow p \<noteq> None \<longrightarrow> editing p \<noteq> None)"

lemma one_form_sync [simp]: "one_form (sync_rows p) \<longleftrightarrow> (editing p \<noteq> None \<longrightarrow> \<not> showNew p)"
  by (auto simp: one_form_def sync_rows_def split: option.splits if_splits)

lemma one_form_forms:
  "one_form p \<Longrightarrow> one_form (p\<lparr>newRow := map_option f (newRow p)\<rparr>)"
  "one_form p \<Longrightarrow> one_form (p\<lparr>editRow := map_option g (editRow p)\<rparr>)"
  "one_form p \<Longrightarrow> newRow p = Some r \<Longrightarrow> one_form (p\<lparr>newRow := Some r'\<rparr>)"
  "one_form p \<Longrightarrow> editRow p = Some e \<Longrightarrow> one_form (p\<lparr>editRow := Some e'\<rparr>)"
  by (auto simp: one_form_def)

lemma one_form_step [js_inv]: 
  assumes "one_form p"
  shows "one_form (panel_step lc tc pno p e)"
proof -
  have "editing p \<noteq> None \<longrightarrow> \<not> showNew p" using assms by (simp add: one_form_def)
  with assms show ?thesis
    by (cases e) (simp_all add: load_settled_def clickNew_def cancelNew_def onEdit_def cancelEdit_def typeNew_def typeEdit_def
        submitNew_def submitEdit_def onAdd_settled_def onSave_settled_def one_form_forms split: option.split prod.split)
qed

interpretation secrets: preserves "panel_step lc tc pno" "\<lambda>_. True" one_form for lc tc pno
  by unfold_locales (rule one_form_step)

lemma NAME_RE_plain: "NAME_RE nm \<Longrightarrow> c \<in> set nm \<Longrightarrow> uri_plain c"
  by (cases nm) (auto simp: uri_plain_def is_alnum_def is_letter_def is_digit_def)

lemma encode_plain: "(\<And>c. c \<in> set nm \<Longrightarrow> uri_plain c) \<Longrightarrow> encodeURIComponent nm = nm"
  by (induction nm) (auto simp: encodeURIComponent_def)

lemma merge_mset:
  "mset (mergeEntries lc (Some team) (Some own)) =
     mset (map (\<lambda>e. e\<lparr>inherited := False, overrides := en_canonical e \<in> en_canonical ` set team\<rparr>) own
           @ map (\<lambda>e. e\<lparr>inherited := True, overrides := False\<rparr>) (filter (\<lambda>e. en_canonical e \<notin> en_canonical ` set own) team))"
  by (simp add: mergeEntries_def Let_def)

lemma merge_canonical_distinct:
  assumes "distinct (map en_canonical team)" and "distinct (map en_canonical own)"
  shows "distinct (map en_canonical (map (\<lambda>e. e\<lparr>inherited := False, overrides := v e\<rparr>) own
           @ map (\<lambda>e. e\<lparr>inherited := True, overrides := False\<rparr>) (filter (\<lambda>e. en_canonical e \<notin> en_canonical ` set own) team)))"
  using assms by (auto simp: o_def distinct_map intro: inj_on_subset) (metis imageI)

lemma live_panel_row:
  "x \<in> set (live (panel_row tc w sc p e)) \<longleftrightarrow>
     (if editing p = Some (en_canonical e)
      then x \<in> {EditValue, SubmitEdit, CancelEdit}
      else if inherited e then x = TeamSecrets (''/teams/'' @ tc @ ''/secrets'')
      else w \<and> x \<in> {EditEntry (en_canonical e), DeleteEntry (en_canonical e)})"
  by (auto simp: panel_row_def EditEntryRow_def EntryRow_def kind_badge_def Let_def)

lemma live_new_row: "set (live (NewEntryRow sc own team r)) \<subseteq> {NewName, NewValue, NewKind, SubmitNew, CancelNew}"
  by (auto simp: NewEntryRow_def Let_def)

lemma live_secrets_panel:
  assumes "x \<notin> {NewName, NewValue, NewKind, SubmitNew, CancelNew}" and "loaded p"
  shows "x \<in> set (live_all (SecretsPanel s tc pno p)) \<longleftrightarrow>
     x = ClickNew \<and> hasTeamRole s tc ''maintain''
     \<or> (\<exists>e \<in> set (entries p). x \<in> set (live (panel_row tc (hasTeamRole s tc ''maintain'') (truthy_str pno) p e)))"
proof -
  have "x \<notin> set (live (NewEntryRow sc own team r))" for sc own team r using live_new_row assms(1) by blast
  then show ?thesis using assms(2) by (auto simp: SecretsPanel_def Let_def live_all_map)
qed

lemma submitNew_sends:
  "snd (submitNew tc pno p) = [] \<or>
     (\<exists>r. new_canSave (ownEntries p) r \<and> snd (submitNew tc pno (fst (submitNew tc pno p))) = [] \<and> snd (submitNew tc pno p)
        = [SecretCall (setSecret tc pno (entry_json (js_trim (nr_name r)) (nr_value r) (if nr_secret r then ''secret'' else ''plain'')))])"
  by (auto simp: submitNew_def saveEntry_def new_canSave_def split: option.splits)

lemma canSave_name:
  "new_canSave es r \<Longrightarrow> NAME_RE (js_trim (nr_name r)) \<and> encodeURIComponent (js_trim (nr_name r)) = js_trim (nr_name r)
     \<and> js_trim (nr_name r) \<notin> en_canonical ` set es \<and> nr_value r \<noteq> ''''"
  by (auto simp: new_canSave_def duplicate_def intro: encode_plain NAME_RE_plain)

section \<open>Properties\<close>

text \<open>
  C20. The set of entries a pipeline page shows is the override of the team's entries by the pipeline's
  own: the merged list stands for that map, names no entry twice, says of each entry whether it is
  inherited and whether it overrides one of the team, and is in the order of the collation.
\<close>

theorem mergeEntries_overrides:
  assumes "distinct (map en_canonical team)" and "distinct (map en_canonical own)"
    and "\<And>a b. lc a b \<le> 0 \<or> lc b a \<le> 0" and "\<And>a b c. lc a b \<le> 0 \<Longrightarrow> lc b c \<le> 0 \<Longrightarrow> lc a c \<le> 0"
  shows "let es = mergeEntries lc (Some team) (Some own) in
      eff es = eff team ++ eff own \<and> distinct (map en_canonical es)
      \<and> (\<forall>e \<in> set es. inherited e = (en_canonical e \<notin> en_canonical ` set own)
           \<and> overrides e = (en_canonical e \<in> en_canonical ` set own \<inter> en_canonical ` set team))
      \<and> sorted_wrt (\<lambda>a b. lc (en_canonical a) (en_canonical b) \<le> 0) es"
proof -
  let ?own = "map (\<lambda>e. e\<lparr>inherited := False, overrides := en_canonical e \<in> en_canonical ` set team\<rparr>) own"
  let ?inh = "map (\<lambda>e. e\<lparr>inherited := True, overrides := False\<rparr>) (filter (\<lambda>e. en_canonical e \<notin> en_canonical ` set own) team)"
  let ?es = "mergeEntries lc (Some team) (Some own)"
  have m: "mset ?es = mset (?own @ ?inh)" by (rule merge_mset)
  have d: "distinct (map en_canonical (?own @ ?inh))" using merge_canonical_distinct [OF assms(1,2)] .
  have "eff ?es = eff (?own @ ?inh)" by (rule eff_cong [OF d m])
  also have "\<dots> = eff team ++ eff own" by (simp only: eff_append eff_flags eff_filter_add)
  finally have 1: "eff ?es = eff team ++ eff own" .
  have 2: "distinct (map en_canonical ?es)" using d
    mset_eq_imp_distinct_iff [of "map en_canonical ?es" "map en_canonical (?own @ ?inh)"] arg_cong [OF m, of "image_mset en_canonical"]
    unfolding mset_map by simp
  have 3: "\<forall>e \<in> set ?es. inherited e = (en_canonical e \<notin> en_canonical ` set own)
           \<and> overrides e = (en_canonical e \<in> en_canonical ` set own \<inter> en_canonical ` set team)"
    unfolding mset_eq_setD [OF m] by auto (metis imageI)
  have 4: "sorted_wrt (\<lambda>a b. lc (en_canonical a) (en_canonical b) \<le> 0) ?es"
    unfolding mergeEntries_def Let_def using assms(3,4) by (intro js_sort_sorted) blast+
  show ?thesis unfolding Let_def by (intro conjI 1 2 3 4)
qed

text \<open>
  C21. The values of secrets stay hidden: whatever the server answers and the user does, the page is the
  same if the answers carried other values for the secrets.
\<close>

theorem secret_values_hidden:
  "SecretsPanel s tc pno (run (panel_step lc tc pno) panel_mount (map (conceal_event f) es))
   = SecretsPanel s tc pno (run (panel_step lc tc pno) panel_mount es)"
proof -
  have "conceal_panel f panel_mount = panel_mount" by (simp add: conceal_panel_def panel_mount_def)
  then show ?thesis using conceal_run [of lc tc pno f panel_mount es] SecretsPanel_conceal by simp
qed

text \<open>
  Changing entries is offered to maintainers only, and inherited entries are never changed from the
  page of a pipeline.
\<close>

theorem SecretsPanel_offers:
  "(ClickNew \<in> set (live_all (SecretsPanel s tc pno p)) \<longleftrightarrow> loaded p \<and> hasTeamRole s tc ''maintain'')
   \<and> (EditEntry c \<in> set (live_all (SecretsPanel s tc pno p)) \<longleftrightarrow>
        loaded p \<and> hasTeamRole s tc ''maintain'' \<and> editing p \<noteq> Some c \<and> (\<exists>e \<in> set (entries p). en_canonical e = c \<and> \<not> inherited e))
   \<and> (DeleteEntry c \<in> set (live_all (SecretsPanel s tc pno p)) \<longleftrightarrow>
        loaded p \<and> hasTeamRole s tc ''maintain'' \<and> editing p \<noteq> Some c \<and> (\<exists>e \<in> set (entries p). en_canonical e = c \<and> \<not> inherited e))"
proof (cases "loaded p")
  case True
  then show ?thesis
    using live_secrets_panel [of ClickNew p s tc pno] live_secrets_panel [of "EditEntry c" p s tc pno] live_secrets_panel [of "DeleteEntry c" p s tc pno]
    by (auto simp: live_panel_row)
next
  case False
  then show ?thesis by (simp add: SecretsPanel_def Let_def)
qed

text \<open>
  C22. What is stored: a new entry has a well-formed name that no entry of this scope has and a value, and
  is sent once; its name is a path segment as it is. An edit sends name and kind of the entry it is
  for, with a new value, and is sent once. Whatever happened before, at most one form is open.
\<close>

theorem stored_entries_guarded:
  "(snd (submitNew tc pno p) = [] \<or>
     (\<exists>nm v kd. snd (submitNew tc pno p) = [SecretCall (setSecret tc pno (entry_json nm v kd))] \<and> NAME_RE nm
        \<and> encodeURIComponent nm = nm \<and> nm \<notin> en_canonical ` set (ownEntries p) \<and> v \<noteq> '''' \<and> kd \<in> {''secret'', ''plain''}
        \<and> snd (submitNew tc pno (fst (submitNew tc pno p))) = []))
   \<and> (snd (submitEdit tc pno p) = [] \<or>
     (\<exists>r. editRow p = Some r \<and> er_value r \<noteq> ''''
        \<and> snd (submitEdit tc pno p) = [SecretCall (setSecret tc pno (entry_json (en_name (er_entry r)) (er_value r) (en_kind (er_entry r))))]
        \<and> snd (submitEdit tc pno (fst (submitEdit tc pno p))) = []))
   \<and> one_form (run (panel_step lc tc pno) panel_mount es)"
proof (intro conjI)
  show "one_form (run (panel_step lc tc pno) panel_mount es)"
    by (rule secrets.inv_run) (simp_all add: one_form_def panel_mount_def)
  show "snd (submitNew tc pno p) = [] \<or>
     (\<exists>nm v kd. snd (submitNew tc pno p) = [SecretCall (setSecret tc pno (entry_json nm v kd))] \<and> NAME_RE nm
        \<and> encodeURIComponent nm = nm \<and> nm \<notin> en_canonical ` set (ownEntries p) \<and> v \<noteq> '''' \<and> kd \<in> {''secret'', ''plain''}
        \<and> snd (submitNew tc pno (fst (submitNew tc pno p))) = [])"
    using submitNew_sends [of tc pno p]
  proof (elim disjE exE conjE)
    fix r assume "new_canSave (ownEntries p) r" and c: "snd (submitNew tc pno (fst (submitNew tc pno p))) = []" "snd (submitNew tc pno p)
        = [SecretCall (setSecret tc pno (entry_json (js_trim (nr_name r)) (nr_value r) (if nr_secret r then ''secret'' else ''plain'')))]"
    note n = canSave_name [OF this(1)]
    show ?thesis
      by (intro disjI2 exI [of _ "js_trim (nr_name r)"] exI [of _ "nr_value r"] exI [of _ "if nr_secret r then ''secret'' else ''plain''"] conjI c)
        (use n in auto)
  qed (rule disjI1)
qed (auto simp: submitEdit_def saveEntry_def edit_canSave_def split: option.splits)

text \<open>
  A save that settles after the user went on to edit another entry closes that form and drops what was
  typed into it.
\<close>

lemma late_save_closes_other_form:
  "editing (fst (onSave_settled tc pno kd True False p)) = None \<and> editRow (fst (onSave_settled tc pno kd True False p)) = None"
  by (simp add: onSave_settled_def sync_rows_def)

section \<open>Examples\<close>

text \<open>A collation by character codes, for strings of the same length.\<close>

definition demo_code :: "string \<Rightarrow> nat" where
  "demo_code s = foldl (\<lambda>n c. 256 * n + of_char c) 0 s"

definition demo_lc :: "string \<Rightarrow> string \<Rightarrow> int" where
  "demo_lc a b = int (demo_code a) - int (demo_code b)"

definition demo_entry :: "string \<Rightarrow> string \<Rightarrow> entry" where
  "demo_entry nm v = \<lparr>en_name = nm, en_canonical = nm, en_kind = ''plain'', en_value = Some v, inherited = False, overrides = False\<rparr>"

theorem mergeEntries_overrides_witness:
  "eff (mergeEntries demo_lc (Some [demo_entry ''A'' ''1'', demo_entry ''B'' ''2'']) (Some [demo_entry ''B'' ''3''])) ''B''
     = Some (''B'', ''plain'', Some ''3'')"
proof -
  let ?team = "[demo_entry ''A'' ''1'', demo_entry ''B'' ''2'']" and ?own = "[demo_entry ''B'' ''3'']"
  have d: "distinct (map en_canonical ?team)" "distinct (map en_canonical ?own)" by (simp_all add: demo_entry_def)
  have lc: "demo_lc a b \<le> 0 \<or> demo_lc b a \<le> 0" "demo_lc a b \<le> 0 \<Longrightarrow> demo_lc b c \<le> 0 \<Longrightarrow> demo_lc a c \<le> 0" for a b c
    by (auto simp: demo_lc_def)
  have "eff (mergeEntries demo_lc (Some ?team) (Some ?own)) = eff ?team ++ eff ?own"
    using mergeEntries_overrides [of ?team ?own demo_lc, OF d lc(1) lc(2)] unfolding Let_def by (rule conjunct1)
  then show ?thesis by (simp add: eff_def demo_entry_def)
qed

end
