(* ===== verification/AuditLog.thy ===== *)
theory AuditLog
  imports Html Hooks Endpoints
begin

text \<open>
  The audit log of a team (\<open>FilterChips\<close> and \<open>AuditLogTab\<close> of \<open>Teams.js\<close>): filters as chips, the
  query they make, the list with its pages. Times are formatted and read by the browser in its locale:
  \<open>show_time\<close> and \<open>toISO\<close> (\<open>new Date(s).toISOString()\<close>, \<open>None\<close> when it throws) are parameters.

  Lemmas: no value is filtered twice; the query reaches the server with every filter; the pages stay
  in order; a further page is asked for with the filters of the form, not with those of the list.
\<close>

section \<open>JSON text and sets of strings\<close>

definition json_char :: "char \<Rightarrow> string" where
  "json_char c =
     (let n = (of_char c :: nat); hex = (\<lambda>d. char_of (if d < 10 then 48 + d else 87 + d :: nat)) in
      if n = 34 then [CHR 0x5C, CHR 0x22] else if n = 92 then [CHR 0x5C, CHR 0x5C]
      else if n = 8 then [CHR 0x5C, CHR ''b''] else if n = 9 then [CHR 0x5C, CHR ''t'']
      else if n = 10 then [CHR 0x5C, CHR ''n''] else if n = 12 then [CHR 0x5C, CHR ''f'']
      else if n = 13 then [CHR 0x5C, CHR ''r'']
      else if n < 32 then CHR 0x5C # ''u00'' @ [hex (n div 16), hex (n mod 16)] else [c])"

definition json_quote :: "string \<Rightarrow> string" where
  "json_quote s = CHR 0x22 # concat (map json_char s) @ [CHR 0x22]"

text \<open>\<open>JSON.stringify\<close>.\<close>

fun json_stringify :: "json \<Rightarrow> string" where
  "json_stringify JNull = ''null''"
| "json_stringify (JBool b) = (if b then ''true'' else ''false'')"
| "json_stringify (JNum i) = int_str i"
| "json_stringify (JStr s) = json_quote s"
| "json_stringify (JArr js) = ''['' @ join_with '','' (map json_stringify js) @ '']''"
| "json_stringify (JObj kvs) = ''{'' @ join_with '','' (map (\<lambda>kv. json_quote (fst kv) @ '':'' @ json_stringify (snd kv)) kvs) @ ''}''"

text \<open>The members of \<open>new Set(xs)\<close> in order, and the order of \<open>sort()\<close> on strings (by code units).\<close>

definition js_set :: "'a list \<Rightarrow> 'a list" where
  "js_set xs = rev (remdups (rev xs))"

fun code_cmp :: "string \<Rightarrow> string \<Rightarrow> int" where
  "code_cmp [] [] = 0"
| "code_cmp [] (d # ds) = -1"
| "code_cmp (c # cs) [] = 1"
| "code_cmp (c # cs) (d # ds) =
     (if (of_char c :: nat) < of_char d then -1 else if (of_char d :: nat) < of_char c then 1 else code_cmp cs ds)"

text \<open>\<open>sp.set(k, v)\<close>: the first pair of that key gets the value, further ones go; else it is appended.\<close>

fun usp_set :: "params \<Rightarrow> string \<Rightarrow> string \<Rightarrow> params" where
  "usp_set [] k v = [(k, v)]"
| "usp_set ((k', v') # ps) k v = (if k' = k then (k, v) # filter (\<lambda>p. fst p \<noteq> k) ps else (k', v') # usp_set ps k v)"

section \<open>Filter chips\<close>

record chip =
  ch_value :: string
  ch_exclude :: bool

record chip_box =
  box_sel :: string
  box_items :: "chip list"

definition empty_box :: chip_box where
  "empty_box = \<lparr>box_sel = '''', box_items = []\<rparr>"

definition has_chip :: "chip_box \<Rightarrow> string \<Rightarrow> bool" where
  "has_chip b v \<longleftrightarrow> (\<exists>i \<in> set (box_items b). ch_value i = v)"

definition available :: "string list \<Rightarrow> chip_box \<Rightarrow> string list" where
  "available options b = filter (\<lambda>v. \<not> has_chip b v) options"

definition addFilter :: "string \<Rightarrow> chip_box \<Rightarrow> chip_box" where
  "addFilter v b = b\<lparr>box_items := box_items b @ [\<lparr>ch_value = v, ch_exclude = False\<rparr>]\<rparr>"

definition removeFilter :: "nat \<Rightarrow> chip_box \<Rightarrow> chip_box" where
  "removeFilter i b = b\<lparr>box_items := take i (box_items b) @ drop (Suc i) (box_items b)\<rparr>"

definition toggleFilter :: "nat \<Rightarrow> chip_box \<Rightarrow> chip_box" where
  "toggleFilter i b =
     (if i < length (box_items b)
      then b\<lparr>box_items := (box_items b)[i := (box_items b ! i)\<lparr>ch_exclude := \<not> ch_exclude (box_items b ! i)\<rparr>]\<rparr> else b)"

definition handleAdd :: "chip_box \<Rightarrow> chip_box" where
  "handleAdd b = (if box_sel b \<noteq> '''' \<and> \<not> has_chip b (box_sel b) then (addFilter (box_sel b) b)\<lparr>box_sel := ''''\<rparr> else b)"

definition setSel :: "string \<Rightarrow> chip_box \<Rightarrow> chip_box" where
  "setSel v b = b\<lparr>box_sel := v\<rparr>"

datatype chip_action = ChipSelect | ChipAdd | ChipToggle nat | ChipRemove nat

definition FilterChips :: "string list \<Rightarrow> string \<Rightarrow> chip_box \<Rightarrow> chip_action html" where
  "FilterChips options placeholder b =
     El ''div'' [] []
       [El ''select'' [(''value'', box_sel b)] [(''onChange'', ChipSelect)]
          (El ''option'' [(''value'', '''')] [] [Txt (if placeholder \<noteq> '''' then placeholder else ''Select...'')]
           # map (\<lambda>v. El ''option'' [(''value'', v)] [] [Txt v]) (available options b)),
        El ''button'' (disabled_if (box_sel b = '''')) [(''onClick'', ChipAdd)] [],
        El ''div'' [] []
          (map (\<lambda>(i, c). El ''span'' [(''class'', if ch_exclude c then ''bg-danger'' else ''bg-primary'')] []
              [El ''span'' [(''title'', ''Click to toggle include/exclude'')] [(''onClick'', ChipToggle i)]
                 [Txt ((if ch_exclude c then ''!='' else ''='') @ '' '' @ ch_value c)],
               El ''button'' [] [(''onClick'', ChipRemove i)] []]) (enumerate 0 (box_items b)))]"

section \<open>The tab\<close>

definition AUDIT_ACTIONS :: "string list" where
  "AUDIT_ACTIONS = [''pipeline.created'', ''pipeline.updated'', ''pipeline.deleted'',
     ''pipeline.paused'', ''pipeline.unpaused'',
     ''job.triggered'', ''job.cancelled'', ''job.retried'', ''job.paused'', ''job.unpaused'',
     ''build.approved'', ''build.rejected'',
     ''resource.pinned'', ''resource.unpinned'', ''resource.check_triggered'',
     ''member.added'', ''member.removed'', ''member.role_changed'']"

record audit_entry =
  ae_id :: nat
  ae_created :: string
  ae_actor :: string
  ae_action :: string
  ae_target_type :: string
  ae_target_name :: string
  ae_details :: "json jsobj option"

record audit_tab =
  au_entries :: "audit_entry list"
  au_hasMore :: bool
  userFilters :: chip_box
  actionFilters :: chip_box
  pipelineFilters :: chip_box
  filterSince :: string
  filterUntil :: string
  au_loading :: bool
  teamMembers :: "string list"
  au_pipelines :: "string list"

definition audit_mount :: audit_tab where
  "audit_mount = \<lparr>au_entries = [], au_hasMore = False, userFilters = empty_box, actionFilters = empty_box, pipelineFilters = empty_box,
     filterSince = '''', filterUntil = '''', au_loading = False, teamMembers = [], au_pipelines = []\<rparr>"

text \<open>The options of the filters; the three requests, and their answers when all three succeed. The field
  \<open>pipeline\<close> of the details is a string.\<close>

definition option_requests :: "string \<Rightarrow> call list" where
  "option_requests tc = [fetchTeam tc, fetchPipelines tc, fetchAuditLog tc (Some [(''limit'', ''0'')])]"

definition entry_pipelines :: "audit_entry \<Rightarrow> string list" where
  "entry_pipelines e =
     (if ae_target_type e = ''pipeline'' \<and> ae_target_name e \<noteq> '''' then [ae_target_name e] else [])
     @ (case ae_details e of
          None \<Rightarrow> []
        | Some d \<Rightarrow> (case map_of d ''pipeline'' of Some (JStr p) \<Rightarrow> if p \<noteq> '''' then [p] else [] | _ \<Rightarrow> []))"

definition options_answer :: "string list option \<Rightarrow> string list option \<Rightarrow> audit_entry list option \<Rightarrow> audit_tab \<Rightarrow> audit_tab" where
  "options_answer usernames ps log a =
     (let orEmpty = case_option [] (\<lambda>xs. xs); actors = filter (\<lambda>x. x \<noteq> '''') (map ae_actor (case_option [] (\<lambda>xs. xs) log));
          userSet = js_set ([''system''] @ orEmpty usernames @ actors);
          pipeSet = js_set (orEmpty ps @ concat (map entry_pipelines (case_option [] (\<lambda>xs. xs) log)))
      in a\<lparr>teamMembers := js_sort code_cmp userSet, au_pipelines := js_sort code_cmp pipeSet\<rparr>)"

definition chip_params :: "string \<Rightarrow> string \<Rightarrow> chip_box \<Rightarrow> params" where
  "chip_params incl excl b = map (\<lambda>c. (if ch_exclude c then excl else incl, ch_value c)) (box_items b)"

definition set_time :: "(string \<Rightarrow> string option) \<Rightarrow> string \<Rightarrow> string \<Rightarrow> params option \<Rightarrow> params option" where
  "set_time toISO k t ps =
     (case ps of
        None \<Rightarrow> None
      | Some sp \<Rightarrow> if t = '''' then Some sp else (case toISO t of Some v \<Rightarrow> Some (usp_set sp k v) | None \<Rightarrow> None))"

text \<open>\<open>None\<close>: reading a date throws.\<close>

definition buildSearchParams :: "(string \<Rightarrow> string option) \<Rightarrow> params \<Rightarrow> audit_tab \<Rightarrow> params option" where
  "buildSearchParams toISO extra a =
     map_option (\<lambda>sp. foldl (\<lambda>sp (k, v). usp_set sp k v) sp extra)
       (set_time toISO ''until'' (filterUntil a) (set_time toISO ''since'' (filterSince a)
         (Some (chip_params ''user'' ''exclude_user'' (userFilters a) @ chip_params ''action'' ''exclude_action'' (actionFilters a)
                @ map (\<lambda>c. (''pipeline'', ch_value c)) (box_items (pipelineFilters a))))))"

definition ask_log :: "(string \<Rightarrow> string option) \<Rightarrow> string \<Rightarrow> params \<Rightarrow> audit_tab \<Rightarrow> audit_tab \<times> call list" where
  "ask_log toISO tc extra a =
     (case buildSearchParams toISO extra a of
        None \<Rightarrow> (a\<lparr>au_loading := False\<rparr>, [])
      | Some sp \<Rightarrow> (a\<lparr>au_loading := True\<rparr>, [fetchAuditLog tc (Some sp)]))"

definition audit_loadEntries :: "(string \<Rightarrow> string option) \<Rightarrow> string \<Rightarrow> audit_tab \<Rightarrow> audit_tab \<times> call list" where
  "audit_loadEntries toISO tc a = ask_log toISO tc [] a"

text \<open>An answer: the data (or null) and, if there is a \<open>meta\<close>, its \<open>has_more\<close>.\<close>

type_synonym log_answer = "audit_entry list option \<times> bool option"

definition entries_answer :: "log_answer option \<Rightarrow> audit_tab \<Rightarrow> audit_tab" where
  "entries_answer r a =
     (case r of
        None \<Rightarrow> a\<lparr>au_loading := False\<rparr>
      | Some (d, m) \<Rightarrow> a\<lparr>au_entries := case_option [] (\<lambda>xs. xs) d, au_hasMore := (m = Some True), au_loading := False\<rparr>)"

definition loadMore :: "(string \<Rightarrow> string option) \<Rightarrow> string \<Rightarrow> audit_tab \<Rightarrow> audit_tab \<times> call list" where
  "loadMore toISO tc a =
     (if au_entries a = [] then (a, []) else ask_log toISO tc [(''before'', nat_str (ae_id (last (au_entries a))))] a)"

definition more_answer :: "log_answer option \<Rightarrow> audit_tab \<Rightarrow> audit_tab" where
  "more_answer r a =
     (case r of
        None \<Rightarrow> a\<lparr>au_loading := False\<rparr>
      | Some (d, m) \<Rightarrow> a\<lparr>au_entries := au_entries a @ case_option [] (\<lambda>xs. xs) d, au_hasMore := (m = Some True), au_loading := False\<rparr>)"

definition actionBadgeClass :: "string \<Rightarrow> string" where
  "actionBadgeClass act =
     (if prefix ''pipeline.'' act then ''bg-primary''
      else if prefix ''job.'' act then ''bg-info''
      else if prefix ''build.'' act then ''piko-badge-waiting_for_approval''
      else if prefix ''resource.'' act then ''bg-warning text-dark''
      else if prefix ''member.'' act then ''bg-success''
      else ''bg-secondary'')"

datatype audit_action = ApplyFilters | UserChip chip_action | ActionChip chip_action | PipelineChip chip_action | SinceInput | UntilInput | LoadMore

definition audit_row :: "(string \<Rightarrow> string) \<Rightarrow> audit_entry \<Rightarrow> audit_action html" where
  "audit_row show_time e =
     El ''tr'' [] []
       [El ''td'' [] [] [Txt (show_time (ae_created e))], El ''td'' [] [] [Txt (ae_actor e)],
        El ''td'' [] [] [El ''span'' [(''class'', ''badge '' @ actionBadgeClass (ae_action e))] [] [Txt (ae_action e)]],
        El ''td'' [] [] [Txt (ae_target_name e)],
        El ''td'' [] [] [Txt (case ae_details e of Some d \<Rightarrow> json_stringify (JObj d) | None \<Rightarrow> '''')]]"

definition AuditLogTab :: "(string \<Rightarrow> string) \<Rightarrow> audit_tab \<Rightarrow> audit_action html list" where
  "AuditLogTab show_time a =
     [El ''form'' [] [(''onSubmit'', ApplyFilters)]
        [Txt ''User'', map_html UserChip (FilterChips (teamMembers a) ''Add user...'' (userFilters a)),
         Txt ''Action'', map_html ActionChip (FilterChips AUDIT_ACTIONS ''Add action...'' (actionFilters a)),
         Txt ''Pipeline'', map_html PipelineChip (FilterChips (au_pipelines a) ''Add pipeline...'' (pipelineFilters a)),
         Txt ''Since'', El ''input'' [(''type'', ''datetime-local''), (''value'', filterSince a)] [(''onInput'', SinceInput)] [],
         Txt ''Until'', El ''input'' [(''type'', ''datetime-local''), (''value'', filterUntil a)] [(''onInput'', UntilInput)] [],
         El ''button'' ((''type'', ''submit'') # disabled_if (au_loading a)) [] [Txt ''Filter'']],
      El ''table'' [] []
        [El ''tr'' [] [] (map Txt [''Time'', ''User'', ''Action'', ''Target'', ''Details'']),
         El ''tbody'' [(''id'', ''audit-log-body'')] []
           (if au_entries a = [] \<and> \<not> au_loading a then [Txt ''No audit log entries.''] else map (audit_row show_time) (au_entries a))]]
     @ show_if (au_hasMore a)
         [El ''button'' (disabled_if (au_loading a)) [(''onClick'', LoadMore)] [Txt (if au_loading a then ''Loading...'' else ''Load more'')]]"

text \<open>The action of a chip; in the pipeline box a toggle does nothing.\<close>

definition chip_do :: "bool \<Rightarrow> string \<Rightarrow> chip_action \<Rightarrow> chip_box \<Rightarrow> chip_box" where
  "chip_do toggles v act b =
     (case act of
        ChipSelect \<Rightarrow> setSel v b
      | ChipAdd \<Rightarrow> handleAdd b
      | ChipToggle i \<Rightarrow> if toggles then toggleFilter i b else b
      | ChipRemove i \<Rightarrow> removeFilter i b)"

section \<open>Lemmas\<close>

lemma code_cmp_total: "code_cmp a b \<le> 0 \<or> code_cmp b a \<le> 0"
  by (induction a b rule: code_cmp.induct) auto

lemma code_cmp_trans: "code_cmp a b \<le> 0 \<Longrightarrow> code_cmp b c \<le> 0 \<Longrightarrow> code_cmp a c \<le> 0"
proof (induction a b arbitrary: c rule: code_cmp.induct)
  case (2 d ds)
  then show ?case by (cases c) simp_all
next
  case (4 x xs y ys)
  show ?case
  proof (cases c)
    case Nil
    with "4.prems"(2) show ?thesis by simp
  next
    case (Cons z zs)
    let ?x = "of_char x :: nat" and ?y = "of_char y :: nat" and ?z = "of_char z :: nat"
    have 1: "?x \<le> ?y" "?x = ?y \<longrightarrow> code_cmp xs ys \<le> 0" using "4.prems"(1) by (auto split: if_splits)
    have 2: "?y \<le> ?z" "?y = ?z \<longrightarrow> code_cmp ys zs \<le> 0" using "4.prems"(2) Cons by (auto split: if_splits)
    have "code_cmp xs zs \<le> 0" if "?x = ?z" using "4.IH" [of zs] 1 2 that by simp
    moreover have "?x < ?z \<or> ?x = ?z" using 1(1) 2(1) by linarith
    ultimately show ?thesis using Cons by auto
  qed
qed simp_all

lemma set_js_set [simp]: "set (js_set xs) = set xs" and distinct_js_set [simp]: "distinct (js_set xs)"
  by (simp_all add: js_set_def)

lemma usp_set_new: "k \<notin> fst ` set ps \<Longrightarrow> usp_set ps k v = ps @ [(k, v)]"
  by (induction ps k v rule: usp_set.induct) auto

lemma chip_keys: "fst ` set (chip_params i x b) \<subseteq> {i, x}"
  by (auto simp: chip_params_def)

text \<open>The parameters, written out.\<close>

definition time_params :: "(string \<Rightarrow> string option) \<Rightarrow> string \<Rightarrow> string \<Rightarrow> params" where
  "time_params toISO k t = (if t = '''' then [] else [(k, the (toISO t))])"

definition readable :: "(string \<Rightarrow> string option) \<Rightarrow> audit_tab \<Rightarrow> bool" where
  "readable toISO a \<longleftrightarrow> (\<forall>t \<in> {filterSince a, filterUntil a}. t = '''' \<or> toISO t \<noteq> None)"

definition filter_params :: "audit_tab \<Rightarrow> params" where
  "filter_params a = chip_params ''user'' ''exclude_user'' (userFilters a) @ chip_params ''action'' ''exclude_action'' (actionFilters a)
     @ map (\<lambda>c. (''pipeline'', ch_value c)) (box_items (pipelineFilters a))"

lemma filter_keys: "k \<in> {''since'', ''until'', ''before''} \<Longrightarrow> k \<notin> fst ` set (filter_params a)"
  by (auto simp: filter_params_def chip_params_def split: if_splits)

lemma set_time_new:
  assumes "k \<notin> fst ` set ps" and "t = '''' \<or> toISO t \<noteq> None"
  shows "set_time toISO k t (Some ps) = Some (ps @ time_params toISO k t)"
  using assms by (auto simp: set_time_def time_params_def usp_set_new)

lemma time_keys: "fst ` set (time_params toISO k t) \<subseteq> {k}"
  by (simp add: time_params_def)

lemma buildSearchParams_written:
  assumes "readable toISO a" and "extra = [] \<or> (\<exists>v. extra = [(''before'', v)])"
  shows "buildSearchParams toISO extra a =
    Some (filter_params a @ time_params toISO ''since'' (filterSince a) @ time_params toISO ''until'' (filterUntil a) @ extra)"
proof -
  let ?s = "time_params toISO ''since'' (filterSince a)" and ?u = "time_params toISO ''until'' (filterUntil a)"
  have f: "k \<notin> fst ` set (filter_params a)" if "k \<in> {''since'', ''until'', ''before''}" for k
    using that by (rule filter_keys)
  have k: "''until'' \<notin> fst ` set (filter_params a @ ?s)" "''before'' \<notin> fst ` set (filter_params a @ ?s @ ?u)"
    using f [of "''until''"] f [of "''before''"] by (auto simp: time_params_def split: if_splits)
  have "set_time toISO ''until'' (filterUntil a) (set_time toISO ''since'' (filterSince a) (Some (filter_params a)))
      = Some (filter_params a @ ?s @ ?u)"
    using assms(1) k(1) f [of "''since''"] by (simp add: readable_def set_time_new)
  then show ?thesis
    using assms(2) k(2) unfolding buildSearchParams_def filter_params_def [symmetric] by (auto simp: usp_set_new)
qed

lemma fetchAuditLog_query: "CHR ''?'' \<notin> set tc \<Longrightarrow> call_query (fetchAuditLog tc (Some ps)) = ps"
proof (cases "usp_string ps = ''''")
  case True
  moreover assume "CHR ''?'' \<notin> set tc"
  moreover have "ps = []" using usp_roundtrip(1) [of ps] True by (simp add: usp_parse_def parse_params_def)
  moreover have "dropWhile (\<lambda>x. x \<noteq> CHR ''?'') (''/teams/'' @ tc @ ''/audit'') = []"
    using \<open>CHR ''?'' \<notin> set tc\<close> by (auto simp: dropWhile_eq_Nil_conv simp del: dropWhile.simps)
  moreover have "curl (fetchAuditLog tc (Some [])) = ''/teams/'' @ tc @ ''/audit''" using True \<open>ps = []\<close> by (simp add: fetchAuditLog_def)
  ultimately have "call_query (fetchAuditLog tc (Some ps)) = usp_parse []" by (simp only: call_query_def)
  with \<open>ps = []\<close> show ?thesis by (simp add: usp_parse_def parse_params_def)
next
  case False
  assume "CHR ''?'' \<notin> set tc"
  then have "CHR ''?'' \<notin> set (''/teams/'' @ tc @ ''/audit'')" by simp
  from call_query_mk [OF this, of GET ps None Whole] False show ?thesis by (simp add: fetchAuditLog_def)
qed

text \<open>Boxes name no value twice.\<close>

definition box_ok :: "chip_box \<Rightarrow> bool" where
  "box_ok b \<longleftrightarrow> distinct (map ch_value (box_items b)) \<and> '''' \<notin> ch_value ` set (box_items b)"

lemma box_ok_toggle: "box_ok b \<Longrightarrow> box_ok (toggleFilter i b)"
proof -
  have "map ch_value ((box_items b)[i := (box_items b ! i)\<lparr>ch_exclude := x\<rparr>]) = map ch_value (box_items b)" for x
    using list_update_id [of "map ch_value (box_items b)" i] by (cases "i < length (box_items b)") (simp_all add: map_update list_update_beyond)
  moreover assume "box_ok b"
  ultimately show ?thesis by (auto simp: box_ok_def toggleFilter_def simp flip: set_map)
qed

lemma box_ok_remove: "box_ok b \<Longrightarrow> box_ok (removeFilter i b)"
proof -
  assume b: "box_ok b"
  have "distinct (map ch_value (take i (box_items b) @ drop (Suc i) (box_items b)))"
    using b distinct_take [of "map ch_value (box_items b)"] distinct_drop [of "map ch_value (box_items b)"]
      set_take_disj_set_drop_if_distinct [of "map ch_value (box_items b)" i "Suc i"]
    by (auto simp: box_ok_def take_map drop_map simp flip: set_map)
  with b show ?thesis by (auto simp: box_ok_def removeFilter_def dest: in_set_takeD in_set_dropD)
qed

lemma box_ok_do [js_inv]: "box_ok b \<Longrightarrow> box_ok (chip_do t v act b)"
  by (cases act) (auto simp: chip_do_def box_ok_toggle box_ok_remove,
      auto simp: box_ok_def setSel_def handleAdd_def addFilter_def has_chip_def)

interpretation chips: preserves "\<lambda>b (v, act). chip_do toggles v act b" "\<lambda>_. True" box_ok for toggles
  by unfold_locales (auto intro: box_ok_do)

definition audit_desc :: "audit_entry list \<Rightarrow> bool" where
  "audit_desc es \<longleftrightarrow> sorted_wrt (\<lambda>x y. ae_id y < ae_id x) es"

lemma desc_append:
  assumes "audit_desc es" and "es \<noteq> []" and "audit_desc fs" and "\<forall>f \<in> set fs. ae_id f < ae_id (last es)"
  shows "audit_desc (es @ fs)"
proof -
  have "ae_id (last es) \<le> ae_id e" if "e \<in> set es" for e
    using assms(1) that unfolding audit_desc_def by (induction es) (auto simp: less_imp_le)
  with assms show ?thesis unfolding audit_desc_def sorted_wrt_append by (metis order_less_le_trans)
qed

section \<open>Properties\<close>

text \<open>
  A box of filters never holds a value twice or an empty value, whatever is selected, added, toggled
  or removed; a value that has a chip is not offered again.
\<close>

theorem chips_distinct:
  "box_ok (run (\<lambda>b (v, act). chip_do toggles v act b) empty_box es)
   \<and> (\<forall>options. set (available options b) \<inter> ch_value ` set (box_items b) = {})"
proof
  show "box_ok (run (\<lambda>b (v, act). chip_do toggles v act b) empty_box es)"
    by (rule chips.inv_run) (simp_all add: box_ok_def empty_box_def)
qed (auto simp: available_def has_chip_def)

text \<open>
  What a query says under a key, and what it should say for a form: per box, the values of its including and of
  its excluding chips, in their order; the two times when they are filled in; the oldest id shown, for a further page.
\<close>

definition values_of :: "params \<Rightarrow> string \<Rightarrow> string list" where
  "values_of q k = map snd (filter (\<lambda>p. fst p = k) q)"

definition included :: "chip_box \<Rightarrow> string list" where
  "included b = map ch_value (filter (\<lambda>c. \<not> ch_exclude c) (box_items b))"

definition excluded :: "chip_box \<Rightarrow> string list" where
  "excluded b = map ch_value (filter ch_exclude (box_items b))"

definition query_says :: "(string \<Rightarrow> string option) \<Rightarrow> audit_tab \<Rightarrow> string list \<Rightarrow> params \<Rightarrow> bool" where
  "query_says toISO a before q \<longleftrightarrow>
     values_of q ''user'' = included (userFilters a) \<and> values_of q ''exclude_user'' = excluded (userFilters a)
     \<and> values_of q ''action'' = included (actionFilters a) \<and> values_of q ''exclude_action'' = excluded (actionFilters a)
     \<and> values_of q ''pipeline'' = map ch_value (box_items (pipelineFilters a))
     \<and> values_of q ''since'' = (if filterSince a = '''' then [] else [the (toISO (filterSince a))])
     \<and> values_of q ''until'' = (if filterUntil a = '''' then [] else [the (toISO (filterUntil a))])
     \<and> values_of q ''before'' = before
     \<and> fst ` set q \<subseteq> {''user'', ''exclude_user'', ''action'', ''exclude_action'', ''pipeline'', ''since'', ''until'', ''before''}"

lemma values_of_append [simp]: "values_of (p @ q) k = values_of p k @ values_of q k"
  by (simp add: values_of_def)

lemma values_chips:
  "i \<noteq> x \<Longrightarrow> values_of (chip_params i x b) k = (if k = i then included b else if k = x then excluded b else [])"
  unfolding chip_params_def values_of_def included_def excluded_def by (induction "box_items b") (auto simp: filter_map comp_def)

lemma query_says_params:
  "query_says toISO a bs (filter_params a @ time_params toISO ''since'' (filterSince a) @ time_params toISO ''until'' (filterUntil a)
     @ map (\<lambda>v. (''before'', v)) bs)"
proof -
  have p: "values_of (map (\<lambda>c. (''pipeline'', ch_value c)) cs) k = (if k = ''pipeline'' then map ch_value cs else [])" for cs k
    by (simp add: values_of_def filter_map comp_def)
  have t: "values_of (time_params toISO k t) k' = (if k' = k \<and> t \<noteq> '''' then [the (toISO t)] else [])" for k k' t
    by (simp add: values_of_def time_params_def)
  have b: "values_of (map (\<lambda>v. (''before'', v)) bs) k = (if k = ''before'' then bs else [])" for k
    by (simp add: values_of_def filter_map comp_def)
  show ?thesis
    unfolding query_says_def filter_params_def
    by (simp add: values_chips p t b) (auto simp: chip_params_def time_params_def split: if_splits)
qed

text \<open>
  C25. The request for the log reaches the server with every filter of the form, and nothing else: parsing its URL
  gives, under the keys \<open>user\<close> and \<open>action\<close>, the values of the including chips, under \<open>exclude_user\<close> and
  \<open>exclude_action\<close> those of the excluding ones, the pipelines, the two times, and for a further page the id of
  the oldest entry shown. The times are ones the date parser reads.
\<close>

theorem audit_request_carries_filters:
  assumes "CHR ''?'' \<notin> set tc" and "readable toISO a"
  shows "(\<exists>q. map call_query (snd (audit_loadEntries toISO tc a)) = [q] \<and> query_says toISO a [] q)
     \<and> (if au_entries a = [] then snd (loadMore toISO tc a) = []
        else \<exists>q. map call_query (snd (loadMore toISO tc a)) = [q] \<and> query_says toISO a [nat_str (ae_id (last (au_entries a)))] q)"
  using assms query_says_params [of toISO a "[]"] query_says_params [of toISO a "[nat_str (ae_id (last (au_entries a)))]"]
  by (simp add: audit_loadEntries_def loadMore_def ask_log_def buildSearchParams_written fetchAuditLog_query Let_def)

text \<open>
  Pages stay in order: when the server answers a further page with entries older than the oldest one
  shown, newest first, the list stays strictly descending and keeps what it had.
\<close>

theorem audit_pages_ordered:
  assumes "audit_desc (au_entries a)" and "au_entries a \<noteq> []"
    and "audit_desc es" and "\<forall>f \<in> set es. ae_id f < ae_id (last (au_entries a))"
  shows "let a' = more_answer (Some (Some es, m)) a in
     audit_desc (au_entries a') \<and> set (au_entries a') = set (au_entries a) \<union> set es \<and> \<not> au_loading a'"
  using desc_append [OF assms] by (simp add: more_answer_def)

text \<open>
  A further page is asked for with the filters of the form, applied or not: after a chip was added
  without pressing Filter, the page that is appended to the list of all entries is a filtered one.
\<close>

theorem load_more_takes_unapplied_filters:
  assumes "CHR ''?'' \<notin> set tc" and "readable toISO a" and "au_entries a \<noteq> []"
  shows "let a' = a\<lparr>userFilters := addFilter u (userFilters a)\<rparr> in
     au_entries a' = au_entries a \<and> (\<forall>q \<in> set (map call_query (snd (loadMore toISO tc a'))). (''user'', u) \<in> set q)
     \<and> snd (loadMore toISO tc a') \<noteq> []"
proof -
  have "readable toISO (a\<lparr>userFilters := addFilter u (userFilters a)\<rparr>)" using assms(2) by (simp add: readable_def)
  with assms show ?thesis
    by (simp add: loadMore_def ask_log_def buildSearchParams_written fetchAuditLog_query Let_def)
      (simp add: filter_params_def chip_params_def addFilter_def)
qed

section \<open>Examples\<close>

definition demo_log :: "nat list \<Rightarrow> audit_entry list" where
  "demo_log ns = map (\<lambda>n. \<lparr>ae_id = n, ae_created = '''', ae_actor = ''system'', ae_action = ''job.triggered'', ae_target_type = ''job'',
     ae_target_name = ''p/j'', ae_details = None\<rparr>) ns"

theorem audit_request_carries_filters_witness:
  "\<exists>q. map call_query (snd (loadMore Some ''main'' (audit_mount\<lparr>au_entries := demo_log [9, 7],
         userFilters := toggleFilter 0 (addFilter ''ann'' empty_box)\<rparr>))) = [q]
     \<and> values_of q ''exclude_user'' = [''ann''] \<and> values_of q ''user'' = [] \<and> values_of q ''before'' = [''7'']"
proof -
  have "nat_str 7 = ''7''" by code_simp
  then show ?thesis
    using audit_request_carries_filters [of "''main''" Some "audit_mount\<lparr>au_entries := demo_log [9, 7], userFilters := toggleFilter 0 (addFilter ''ann'' empty_box)\<rparr>"]
    by (auto simp: readable_def query_says_def included_def excluded_def audit_mount_def demo_log_def toggleFilter_def addFilter_def empty_box_def)
qed

theorem audit_pages_ordered_witness:
  "map ae_id (au_entries (more_answer (Some (Some (demo_log [5, 2]), Some False)) (audit_mount\<lparr>au_entries := demo_log [9, 7]\<rparr>))) = [9, 7, 5, 2]
   \<and> audit_desc (au_entries (more_answer (Some (Some (demo_log [5, 2]), Some False)) (audit_mount\<lparr>au_entries := demo_log [9, 7]\<rparr>)))"
  using audit_pages_ordered [of "audit_mount\<lparr>au_entries := demo_log [9, 7]\<rparr>" "demo_log [5, 2]" "Some False"]
  by (simp add: audit_desc_def demo_log_def Let_def more_answer_def)

end
