(* ===== verification/Teams.thy ===== *)
theory Teams
  imports Secrets AuditLog
begin

text \<open>
  \<open>Teams.js\<close>: the list of teams, a new team, and the page of a team with its tabs (settings, members,
  secrets, workers, audit log). A handler that uses a state variable after its request has answered
  sees the value of the render it was made in; such handlers take that value as an argument
  (\<open>seen\<close>).

  Lemmas: what the pages offer to whom; the last administrator of a team is neither removed nor
  demoted; the member list implements updates of a map when requests do not overlap, and what overlapping
  requests do; the tabs and their addresses.
\<close>

section \<open>List of teams\<close>

record member =
  mb_username :: string
  mb_full_name :: string
  mb_role :: string

record team =
  tm_canonical :: string
  tm_name :: string
  tm_members :: "member list option"

datatype team_effect = TeamCall call | TeamToast string | TeamGo string

definition teams_answer :: "team list option option \<Rightarrow> team list \<Rightarrow> team list" where
  "teams_answer r ts = (case r of Some d \<Rightarrow> case_option [] (\<lambda>xs. xs) d | None \<Rightarrow> ts)"

text \<open>Deleting a team; \<open>seen\<close> is the list of the render whose handler was clicked.\<close>

definition onDelete_team :: "string \<Rightarrow> team_effect list" where
  "onDelete_team tc = [TeamCall (deleteTeam tc)]"

definition onDelete_team_settled :: "team list \<Rightarrow> string \<Rightarrow> bool \<Rightarrow> team list \<Rightarrow> team list \<times> team_effect list" where
  "onDelete_team_settled seen tc ok ts =
     (if ok then (filter (\<lambda>t. tm_canonical t \<noteq> tc) seen, [TeamToast ''Team deleted'']) else (ts, []))"

text \<open>
  The row's loading flag around \<open>onDelete\<close>, which returns at once: it does not hand back the promise
  of its request.
\<close>

definition handleDelete :: "string \<Rightarrow> bool \<times> unit \<Rightarrow> team_effect list \<times> bool \<times> unit" where
  "handleDelete tc ls = withLoading (\<lambda>st. (onDelete_team tc, st)) ls"

datatype team_action = NavTeam string | DeleteTeam string | NameInput | CreateTeam | SwitchTab string | SubmitUpdate
  | CopyToken | GenerateToken | RegenerateToken | NewMember | PickUser | PickRole | CreateMember
  | ChangeRole string | DeleteMember string | SecretAct secret_action | AuditAct audit_action

definition nav_link :: "string \<Rightarrow> string \<Rightarrow> string \<Rightarrow> team_action html" where
  "nav_link ident href label = El ''a'' [(''id'', ident), (''href'', href)] [(''onClick'', NavTeam href)] [Txt label]"

definition TeamRow :: "session \<Rightarrow> bool \<Rightarrow> team \<Rightarrow> team_action html" where
  "TeamRow s loading t =
     El ''div'' [] []
       ([Txt (tm_name t), nav_link ''pipelines'' (''/teams/'' @ tm_canonical t @ ''/pipelines'') ''Pipelines'',
         nav_link ''manage'' (''/teams/'' @ tm_canonical t) ''Manage'']
        @ show_if (hasTeamRole s (tm_canonical t) ''admin'')
            [El ''button'' ((''id'', ''delete'') # disabled_if loading) [(''onClick'', DeleteTeam (tm_canonical t))]
               [Txt (if loading then ''Deleting...'' else ''Delete'')]])"

definition TeamsView :: "session \<Rightarrow> (string \<Rightarrow> bool) \<Rightarrow> team list \<Rightarrow> team_action html list" where
  "TeamsView s loading ts =
     [El ''div'' [] [] (Txt ''Teams'' # show_if (isAdmin s) [nav_link ''team-new'' ''/teams/new'' ''New'']),
      El ''div'' [(''id'', ''team-list'')] [] (map (\<lambda>t. TeamRow s (loading (tm_canonical t)) t) ts)]"

section \<open>New team\<close>

definition newTeam_submit :: "string \<Rightarrow> team_effect list" where
  "newTeam_submit nm = [TeamCall (createTeam (JObj [(''name'', JStr nm)]))]"

text \<open>The flag and the navigation when the request has settled; \<open>None\<close> is a rejection.\<close>

definition newTeam_settled :: "string option \<Rightarrow> bool \<times> team_effect list" where
  "newTeam_settled r = (False, case r of Some canonical \<Rightarrow> [TeamGo (''/teams/'' @ canonical)] | None \<Rightarrow> [])"

definition TeamNew :: "string \<Rightarrow> bool \<Rightarrow> team_action html list" where
  "TeamNew nm loading =
     [Txt ''New Team'',
      El ''form'' [] [(''onSubmit'', CreateTeam)]
        [El ''input'' [(''id'', ''name''), (''value'', nm)] [(''onInput'', NameInput)] [],
         El ''button'' ((''id'', ''create'') # disabled_if loading) [] [Txt (if loading then ''Creating...'' else ''Create'')]]]"

section \<open>Settings\<close>

definition onUpdate :: "string \<Rightarrow> string \<Rightarrow> team_effect list" where
  "onUpdate tc nm = [TeamCall (updateTeam tc (JObj [(''name'', JStr nm)]))]"

text \<open>\<open>None\<close>: rejected; otherwise the canonical name in the answer, if there is one.\<close>

definition onUpdate_settled :: "string \<Rightarrow> string option option \<Rightarrow> bool \<times> team_effect list" where
  "onUpdate_settled nm r =
     (False, case r of
        None \<Rightarrow> []
      | Some c \<Rightarrow> [TeamToast ''Team updated'', TeamGo (''/teams/'' @ (if truthy_str c then the c else nm))])"


section \<open>Worker token\<close>

record workers_tab =
  wt_token :: "string option"
  wt_loading :: bool
  wt_copied :: bool


definition token_answer :: "string option option \<Rightarrow> workers_tab \<Rightarrow> workers_tab" where
  "token_answer r w = w\<lparr>wt_token := Some (case r of Some t \<Rightarrow> str_or t | None \<Rightarrow> '''')\<rparr>"

definition onGenerate :: "string \<Rightarrow> workers_tab \<Rightarrow> workers_tab \<times> team_effect list" where
  "onGenerate tc w = (w\<lparr>wt_loading := True\<rparr>, [TeamCall (generateTeamWorkerToken tc)])"

definition onGenerate_settled :: "string option \<Rightarrow> workers_tab \<Rightarrow> workers_tab \<times> team_effect list" where
  "onGenerate_settled r w =
     (case r of
        Some t \<Rightarrow> (w\<lparr>wt_token := Some t, wt_loading := False\<rparr>, [TeamToast ''Worker token generated''])
      | None \<Rightarrow> (w\<lparr>wt_loading := False\<rparr>, []))"

definition onRegenerate :: "bool \<Rightarrow> string \<Rightarrow> workers_tab \<Rightarrow> workers_tab \<times> team_effect list" where
  "onRegenerate confirmed tc w = (if confirmed then onGenerate tc w else (w, []))"

text \<open>The clipboard took the token, and two seconds have passed.\<close>

definition onCopy_done :: "workers_tab \<Rightarrow> workers_tab" where
  "onCopy_done w = w\<lparr>wt_copied := True\<rparr>"

definition copied_over :: "workers_tab \<Rightarrow> workers_tab" where
  "copied_over w = w\<lparr>wt_copied := False\<rparr>"


section \<open>Members\<close>

definition ASSIGNABLE_ROLES :: "string list" where
  "ASSIGNABLE_ROLES = [''read'', ''write'', ''maintain'', ''admin'']"

record person =
  pe_username :: string
  pe_full_name :: string

record new_member =
  nm_username :: string
  nm_role :: string
  nm_loading :: bool

text \<open>The row of a new member, mounted with the users it offers.\<close>

definition NewMemberRow_mount :: "person list \<Rightarrow> new_member" where
  "NewMemberRow_mount users = \<lparr>nm_username = (case users of u # us \<Rightarrow> pe_username u | [] \<Rightarrow> ''''), nm_role = ''maintain'', nm_loading = False\<rparr>"

record members_tab =
  mt_members :: "member list"
  mt_showNew :: bool
  mt_users :: "person list"
  mt_row :: "new_member option"




definition update_role :: "string \<Rightarrow> string \<Rightarrow> member list \<Rightarrow> member list" where
  "update_role u r ms = map (\<lambda>m. if mb_username m = u then m\<lparr>mb_role := r\<rparr> else m) ms"

definition onChangeRole :: "string \<Rightarrow> string \<Rightarrow> string \<Rightarrow> team_effect list" where
  "onChangeRole tc u r = [TeamCall (updateTeamMember tc u (JObj [(''role'', JStr r)]))]"

definition onChangeRole_settled :: "member list \<Rightarrow> string \<Rightarrow> string \<Rightarrow> bool \<Rightarrow> members_tab \<Rightarrow> members_tab \<times> team_effect list" where
  "onChangeRole_settled seen u r ok t =
     (if ok then (t\<lparr>mt_members := update_role u r seen\<rparr>, [TeamToast ''Member role updated'']) else (t, []))"

definition onDeleteMember :: "string \<Rightarrow> string \<Rightarrow> team_effect list" where
  "onDeleteMember tc u = [TeamCall (removeTeamMember tc u)]"

definition onDeleteMember_settled :: "string \<Rightarrow> bool \<Rightarrow> members_tab \<Rightarrow> members_tab \<times> team_effect list" where
  "onDeleteMember_settled u ok t =
     (if ok then (t\<lparr>mt_members := filter (\<lambda>m. mb_username m \<noteq> u) (mt_members t)\<rparr>, [TeamToast ''Member removed'']) else (t, []))"





definition NewMemberRow :: "person list \<Rightarrow> new_member \<Rightarrow> team_action html" where
  "NewMemberRow users row =
     El ''tr'' [(''id'', ''create-member'')] []
       [El ''select'' [(''id'', ''username''), (''value'', nm_username row)] [(''onChange'', PickUser)]
          (map (\<lambda>u. El ''option'' [(''value'', pe_username u)] [] [Txt (pe_full_name u)]) users),
        El ''select'' [(''id'', ''role''), (''value'', nm_role row)] [(''onChange'', PickRole)]
          (map (\<lambda>r. El ''option'' [(''value'', r)] [] [Txt r]) ASSIGNABLE_ROLES),
        El ''button'' ((''id'', ''create'') # disabled_if (nm_loading row)) [(''onClick'', CreateMember)]
          [Txt (if nm_loading row then ''Adding...'' else ''Create'')]]"

definition isLastAdmin :: "member list \<Rightarrow> member \<Rightarrow> bool" where
  "isLastAdmin ms m \<longleftrightarrow> mb_role m = ''admin'' \<and> length (filter (\<lambda>x. mb_role x = ''admin'') ms) \<le> 1"

definition MemberRow :: "session \<Rightarrow> string \<Rightarrow> (string \<Rightarrow> bool) \<Rightarrow> member list \<Rightarrow> member \<Rightarrow> team_action html" where
  "MemberRow s tc loading ms m =
     (let canManage = hasTeamRole s tc ''admin''; last = isLastAdmin ms m in
      El ''tr'' [] []
        ([Txt (mb_full_name m),
          if canManage
          then El ''select'' ((''value'', mb_role m) # disabled_if last) [(''onChange'', ChangeRole (mb_username m))]
                 (map (\<lambda>r. El ''option'' [(''value'', r)] [] [Txt r]) ASSIGNABLE_ROLES)
          else Txt (mb_role m)]
         @ show_if (canManage \<and> \<not> last)
             [El ''button'' ((''id'', ''delete'') # disabled_if (loading (mb_username m))) [(''onClick'', DeleteMember (mb_username m))]
                [Txt (if loading (mb_username m) then ''Removing...'' else ''Delete'')]]))"

definition MembersTab :: "session \<Rightarrow> string \<Rightarrow> (string \<Rightarrow> bool) \<Rightarrow> members_tab \<Rightarrow> team_action html list" where
  "MembersTab s tc loading t =
     [El ''div'' [] [] (Txt ''Members'' # show_if (hasTeamRole s tc ''admin'') [El ''a'' [(''id'', ''new-member'')] [(''onClick'', NewMember)] [Txt ''New Member'']]),
      El ''table'' [] []
        [El ''tr'' [] [] [Txt ''Full Name'', Txt ''Role'', Txt ''Options''],
         El ''tbody'' [] []
           (show_if (mt_showNew t) [NewMemberRow (mt_users t) (case mt_row t of Some row \<Rightarrow> row | None \<Rightarrow> NewMemberRow_mount (mt_users t))]
            @ map (MemberRow s tc loading (mt_members t)) (mt_members t))]]"



section \<open>Page of a team\<close>

definition VALID_TABS :: "string list" where
  "VALID_TABS = [''settings'', ''members'', ''secrets'', ''workers'', ''audit'']"

definition activeTab :: "string option \<Rightarrow> string" where
  "activeTab tab = (case tab of Some t \<Rightarrow> if t \<in> set VALID_TABS then t else ''settings'' | None \<Rightarrow> ''settings'')"

definition switchTab :: "string \<Rightarrow> string \<Rightarrow> string" where
  "switchTab tc t = ''/teams/'' @ tc @ (if t = ''settings'' then '''' else ''/'' @ t)"

definition loadTeam :: "string \<Rightarrow> team_effect list" where
  "loadTeam tc = [TeamCall (fetchTeam tc)]"

definition team_answer :: "team option \<Rightarrow> team option \<times> members_tab \<Rightarrow> team option \<times> members_tab" where
  "team_answer r st =
     (case r of
        None \<Rightarrow> st
      | Some t \<Rightarrow> (Some t, (snd st)\<lparr>mt_members := case_option [] (\<lambda>xs. xs) (tm_members t)\<rparr>))"

definition tab_link :: "string \<Rightarrow> string \<Rightarrow> string \<Rightarrow> string \<Rightarrow> team_action html" where
  "tab_link tc active t label =
     El ''a'' [(''class'', ''nav-link'' @ (if active = t then '' active'' else '''')), (''href'', switchTab tc t), (''id'', ''tab-'' @ t)]
       [(''onClick'', SwitchTab t)] [Txt label]"



section \<open>Lemmas\<close>

lemma live_nav_link [simp]: "live (nav_link i h l) = [NavTeam h]" and live_tab_link [simp]: "live (tab_link tc a t l) = [SwitchTab t]"
  by (simp_all add: nav_link_def tab_link_def)

lemma live_options [simp]: "live_all (map (\<lambda>x. El tag (at x) [] [Txt (f x)]) xs) = []"
  by (induction xs) auto


lemma live_MemberRow:
  "x \<in> set (live (MemberRow s tc loading ms m)) \<longleftrightarrow> hasTeamRole s tc ''admin'' \<and> \<not> isLastAdmin ms m
     \<and> (x = ChangeRole (mb_username m) \<or> x = DeleteMember (mb_username m) \<and> \<not> loading (mb_username m))"
  by (auto simp: MemberRow_def Let_def)

lemma live_NewMemberRow: "set (live (NewMemberRow us row)) = {PickUser, PickRole} \<union> (if nm_loading row then {} else {CreateMember})"
  by (auto simp: NewMemberRow_def)

lemma live_MembersTab:
  "x \<in> set (live_all (MembersTab s tc loading t)) \<longleftrightarrow>
     hasTeamRole s tc ''admin'' \<and> (x = NewMember \<or> (\<exists>m \<in> set (mt_members t). \<not> isLastAdmin (mt_members t) m
       \<and> (x = ChangeRole (mb_username m) \<or> x = DeleteMember (mb_username m) \<and> \<not> loading (mb_username m))))
     \<or> mt_showNew t \<and> (x \<in> {PickUser, PickRole} \<or> x = CreateMember \<and> \<not> (\<exists>row. mt_row t = Some row \<and> nm_loading row))"
  by (auto simp: MembersTab_def live_all_map live_MemberRow live_NewMemberRow NewMemberRow_mount_def split: option.splits)





text \<open>The roles a list of members stands for.\<close>

definition roles :: "member list \<Rightarrow> string \<rightharpoonup> string" where
  "roles ms = map_of (map (\<lambda>m. (mb_username m, mb_role m)) ms)"

lemma roles_update: "roles (update_role u r ms) = (if u \<in> mb_username ` set ms then (roles ms)(u \<mapsto> r) else roles ms)"
  by (induction ms) (auto simp: roles_def update_role_def fun_eq_iff)

lemma roles_filter: "roles (filter (\<lambda>m. mb_username m \<noteq> u) ms) = (roles ms)(u := None)"
  by (induction ms) (auto simp: roles_def fun_eq_iff)

lemma update_role_names: "map mb_username (update_role u r ms) = map mb_username ms"
  by (induction ms) (auto simp: update_role_def)

lemma another_admin:
  assumes "distinct (map mb_username ms)" and "m \<in> set ms" and "\<not> isLastAdmin ms m" and "\<exists>a \<in> set ms. mb_role a = ''admin''"
  shows "\<exists>a \<in> set ms. mb_role a = ''admin'' \<and> mb_username a \<noteq> mb_username m"
proof (cases "mb_role m = ''admin''")
  case True
  let ?as = "filter (\<lambda>x. mb_role x = ''admin'') ms"
  have "length ?as > 1" using assms(3) True by (simp add: isLastAdmin_def)
  then obtain a b cs where as: "?as = a # b # cs" by (cases ?as rule: remdups_adj.cases) auto
  have "distinct (map mb_username ?as)" using assms(1) by (simp add: distinct_map_filter)
  then have "mb_username a \<noteq> mb_username b" using as by simp
  moreover have "a \<in> set ms \<and> mb_role a = ''admin''" "b \<in> set ms \<and> mb_role b = ''admin''"
    using arg_cong [OF as, of set] by auto
  ultimately show ?thesis by metis
next
  case False
  then show ?thesis using assms inj_onD [of mb_username "set ms"] by (metis distinct_map)
qed

section \<open>Properties\<close>


text \<open>
  C23. A team keeps an administrator: when a removal or a change of role that the page offered is carried
  out on the list it was offered for, some member is still an administrator.
\<close>

theorem last_admin_stays:
  assumes "distinct (map mb_username (mt_members t))" and "\<exists>a \<in> set (mt_members t). mb_role a = ''admin''"
  shows "(DeleteMember u \<in> set (live_all (MembersTab s tc loading t)) \<longrightarrow>
            (\<exists>a \<in> set (mt_members (fst (onDeleteMember_settled u True t))). mb_role a = ''admin''))
       \<and> (ChangeRole u \<in> set (live_all (MembersTab s tc loading t)) \<longrightarrow>
            (\<exists>a \<in> set (mt_members (fst (onChangeRole_settled (mt_members t) u r True t))). mb_role a = ''admin''))"
proof -
  have "\<exists>a \<in> set (mt_members t). mb_role a = ''admin'' \<and> mb_username a \<noteq> u"
    if "m \<in> set (mt_members t)" "\<not> isLastAdmin (mt_members t) m" "u = mb_username m" for m
    using another_admin [OF assms(1) that(1,2) assms(2)] that(3) by simp
  then show ?thesis
    by (auto simp: live_MembersTab onDeleteMember_settled_def onChangeRole_settled_def update_role_def)
qed

text \<open>
  Carried out one at a time, the operations on members are updates of the map from users to roles,
  and they keep the names distinct.
\<close>

theorem members_refine_roles:
  "let ms = mt_members t; ch = mt_members (fst (onChangeRole_settled ms u r True t)); del = mt_members (fst (onDeleteMember_settled u True t)) in
     roles ch = (if u \<in> dom (roles ms) then (roles ms)(u \<mapsto> r) else roles ms) \<and> roles del = (roles ms)(u := None)
     \<and> map mb_username ch = map mb_username ms \<and> map mb_username del = filter (\<lambda>x. x \<noteq> u) (map mb_username ms)"
proof -
  have "dom (roles (mt_members t)) = mb_username ` set (mt_members t)" by (force simp: roles_def dom_map_of_conv_image_fst)
  then show ?thesis
    by (simp add: onChangeRole_settled_def onDeleteMember_settled_def roles_update roles_filter update_role_names filter_map o_def Let_def)
qed

text \<open>
  When requests overlap they are not: the answer to a change of role puts back a member who was removed
  meanwhile, and the answer to the second of two overlapping deletions puts back the first team.
\<close>

lemma role_change_resurrects_member:
  "v \<noteq> u \<Longrightarrow> v \<in> mb_username ` set (mt_members t) \<Longrightarrow>
     v \<in> mb_username ` set (mt_members (fst (onChangeRole_settled (mt_members t) u r True (fst (onDeleteMember_settled v True t)))))"
  by (force simp: onChangeRole_settled_def onDeleteMember_settled_def update_role_def)

lemma second_delete_resurrects_team:
  "tm_canonical t \<noteq> b \<Longrightarrow> t \<in> set ts \<Longrightarrow> t \<in> set (fst (onDelete_team_settled ts b True (fst (onDelete_team_settled ts (tm_canonical t) True ts))))"
  by (simp add: onDelete_team_settled_def)

text \<open>The button of a team row is not disabled while its deletion is under way.\<close>

lemma delete_flag_cleared_at_once: "handleDelete tc (f, ()) = ([TeamCall (deleteTeam tc)], False, ())"
  by (simp add: handleDelete_def withLoading_def onDelete_team_def)

text \<open>
  Every tab has an address, and the address leads back to the tab: it is the address of the team for
  the settings, and otherwise ends in the name that the router hands back as \<open>tab\<close>.
\<close>

theorem tabs_addressed:
  "t \<in> set VALID_TABS \<Longrightarrow> \<exists>tab. activeTab tab = t \<and> switchTab tc t = ''/teams/'' @ tc @ (case tab of Some x \<Rightarrow> ''/'' @ x | None \<Rightarrow> '''')"
  by (rule exI [of _ "if t = ''settings'' then None else Some t"]) (auto simp: activeTab_def switchTab_def)

section \<open>Examples\<close>

definition demo_tab :: members_tab where
  "demo_tab = \<lparr>mt_members = [\<lparr>mb_username = ''ann'', mb_full_name = ''Ann'', mb_role = ''admin''\<rparr>,
     \<lparr>mb_username = ''bob'', mb_full_name = ''Bob'', mb_role = ''read''\<rparr>], mt_showNew = False, mt_users = [], mt_row = None\<rparr>"

theorem last_admin_stays_witness:
  "DeleteMember ''bob'' \<in> set (live_all (MembersTab \<lparr>jwt = Some ''t'', user = Some (no_user_fields\<lparr>admin := True\<rparr>)\<rparr> ''main'' (\<lambda>_. False) demo_tab))
   \<and> (\<exists>a \<in> set (mt_members (fst (onDeleteMember_settled ''bob'' True demo_tab))). mb_role a = ''admin'')"
proof -
  let ?s = "\<lparr>jwt = Some ''t'', user = Some (no_user_fields\<lparr>admin := True\<rparr>)\<rparr>"
  have "DeleteMember ''bob'' \<in> set (live_all (MembersTab ?s ''main'' (\<lambda>_. False) demo_tab))"
    by (simp add: live_MembersTab demo_tab_def hasTeamRole_def isLastAdmin_def)
  moreover have "distinct (map mb_username (mt_members demo_tab))" "\<exists>a \<in> set (mt_members demo_tab). mb_role a = ''admin''"
    by (simp_all add: demo_tab_def)
  ultimately show ?thesis using last_admin_stays [of demo_tab "''bob''" ?s "''main''" "\<lambda>_. False"] by blast
qed



end
