(* ===== verification/Tokens.thy ===== *)
theory Tokens
  imports Users Teams
begin

text \<open>
  The tabs \<open>API Tokens\<close> and \<open>Linked Accounts\<close> of the profile (\<open>Users.js\<close>). Dates are read and shown by
  the browser: \<open>toISO\<close> (\<open>None\<close> when it throws) and \<open>show_date\<close> (\<open>None\<close> for an invalid date) are
  parameters.

  Lemmas: a token for a team is never asked for with a role above the one held there; what the form
  sends; which accounts can be linked, and the address that links one.
\<close>

section \<open>API tokens\<close>

record token =
  tk_id :: string
  tk_name :: string
  tk_prefix :: string
  tk_personal :: bool
  tk_team :: string
  tk_role :: string
  tk_created :: string
  tk_used :: string
  tk_expires :: string

record tokens_tab =
  tokens :: "token list"
  showForm :: bool
  createdToken :: "string option"
  tt_name :: string
  personal :: bool
  tt_team :: string
  tokenRole :: string
  useExpiration :: bool
  expiresAt :: string
  tt_teams :: "team list"
  createLoading :: bool

definition tokens_mount :: "tokens_tab \<times> call list" where
  "tokens_mount =
     (\<lparr>tokens = [], showForm = False, createdToken = None, tt_name = '''', personal = True, tt_team = '''', tokenRole = ''read'',
       useExpiration = False, expiresAt = '''', tt_teams = [], createLoading = False\<rparr>, [fetchApiTokens, fetchTeams])"

definition tokens_answer :: "token list option option \<Rightarrow> tokens_tab \<Rightarrow> tokens_tab" where
  "tokens_answer r t = (case r of Some d \<Rightarrow> t\<lparr>tokens := case_option [] (\<lambda>xs. xs) d\<rparr> | None \<Rightarrow> t)"

definition token_teams_answer :: "team list option option \<Rightarrow> tokens_tab \<Rightarrow> tokens_tab" where
  "token_teams_answer r t = (case r of Some d \<Rightarrow> t\<lparr>tt_teams := case_option [] (\<lambda>xs. xs) d\<rparr> | None \<Rightarrow> t)"

text \<open>The body of the request, \<open>None\<close> when reading the date throws.\<close>

definition token_request :: "(string \<Rightarrow> string option) \<Rightarrow> tokens_tab \<Rightarrow> json option" where
  "token_request toISO t =
     (let req = [(''name'', JStr (tt_name t)), (''personal'', JBool (personal t))]
            @ (if \<not> personal t then [(''team_canonical'', JStr (tt_team t)), (''role'', JStr (tokenRole t))] else [])
      in if useExpiration t \<and> expiresAt t \<noteq> ''''
         then map_option (\<lambda>d. JObj (req @ [(''expires_at'', JStr d)])) (toISO (expiresAt t))
         else Some (JObj req))"

definition onCreateToken :: "(string \<Rightarrow> string option) \<Rightarrow> tokens_tab \<Rightarrow> tokens_tab \<times> (string \<times> string) list \<times> call list" where
  "onCreateToken toISO t =
     (if \<not> personal t \<and> tt_team t = '''' then (t, [(''Please select a team'', ''error'')], [])
      else (case token_request toISO t of
              None \<Rightarrow> (t\<lparr>createLoading := False\<rparr>, [], [])
            | Some req \<Rightarrow> (t\<lparr>createLoading := True\<rparr>, [], [createApiToken req])))"

definition onCreateToken_settled :: "string option \<Rightarrow> tokens_tab \<Rightarrow> tokens_tab \<times> call list" where
  "onCreateToken_settled r t =
     (case r of
        None \<Rightarrow> (t\<lparr>createLoading := False\<rparr>, [])
      | Some tok \<Rightarrow>
          (t\<lparr>createdToken := Some tok, tt_name := '''', useExpiration := False, expiresAt := '''', showForm := False, createLoading := False\<rparr>,
           [fetchApiTokens]))"

text \<open>\<open>seen\<close>: the tokens of the render whose button was clicked.\<close>

definition onDeleteToken :: "bool \<Rightarrow> string \<Rightarrow> call list" where
  "onDeleteToken confirmed i = (if confirmed then [deleteApiToken i] else [])"

definition onDeleteToken_settled :: "token list \<Rightarrow> string \<Rightarrow> bool \<Rightarrow> tokens_tab \<Rightarrow> tokens_tab \<times> (string \<times> string) list" where
  "onDeleteToken_settled seen i ok t =
     (if ok then (t\<lparr>tokens := filter (\<lambda>x. tk_id x \<noteq> i) seen\<rparr>, [(''Token deleted'', ''success'')]) else (t, []))"

definition copyToClipboard_settled :: "bool \<Rightarrow> (string \<times> string) list" where
  "copyToClipboard_settled ok = (if ok then [(''Token copied to clipboard'', ''success'')] else [(''Failed to copy token'', ''error'')])"

definition roleOptions :: "string list" where
  "roleOptions = [''read'', ''write'', ''maintain'', ''admin'']"

text \<open>\<open>xs.indexOf(x)\<close>, \<open>None\<close> for -1.\<close>

fun indexOf :: "'a list \<Rightarrow> 'a \<Rightarrow> nat option" where
  "indexOf [] x = None"
| "indexOf (y # ys) x = (if y = x then Some 0 else map_option Suc (indexOf ys x))"

definition maxRoleLevel :: "session \<Rightarrow> string \<Rightarrow> nat option" where
  "maxRoleLevel s tc =
     (let userMemberships = (case user s of Some u \<Rightarrow> case_option [] (\<lambda>ms. ms) (memberships u) | None \<Rightarrow> []) in
      case List.find (\<lambda>m. team_canonical m = tc) userMemberships of
        Some m \<Rightarrow> indexOf roleOptions (role m)
      | None \<Rightarrow> None)"

definition filteredRoles :: "session \<Rightarrow> string \<Rightarrow> string list" where
  "filteredRoles s tc =
     (case maxRoleLevel s tc of Some n \<Rightarrow> take (Suc n) roleOptions | None \<Rightarrow> if isAdmin s then roleOptions else [])"

definition fmtDate :: "(string \<Rightarrow> string option) \<Rightarrow> string \<Rightarrow> string" where
  "fmtDate show_date d = (if d = '''' then ''-'' else (case show_date d of Some x \<Rightarrow> x | None \<Rightarrow> ''-''))"

text \<open>
  What happens to the tab: the answers to its requests, and what the user does; a select offers its options only,
  chosen by position. \<open>TokenDeleted\<close> carries the tokens of the render whose button was clicked.
\<close>

datatype token_event = TokensAnswer "token list option option" | TeamsAnswer "team list option option" | Submit | Created "string option"
  | TokenDeleted "token list" string bool
  | ToggleForm | HideForm | NameTyped string | ScopePersonal bool | TeamPicked nat | RolePicked nat
  | ExpirationToggled bool | DateTyped string | HideCreated

definition pickTeam :: "nat \<Rightarrow> tokens_tab \<Rightarrow> tokens_tab" where
  "pickTeam i t =
     (let options = '''' # map tm_canonical (tt_teams t)
      in if i < length options then t\<lparr>tt_team := options ! i, tokenRole := ''read''\<rparr> else t)"

definition pickRole :: "session \<Rightarrow> nat \<Rightarrow> tokens_tab \<Rightarrow> tokens_tab" where
  "pickRole s i t = (if i < length (filteredRoles s (tt_team t)) then t\<lparr>tokenRole := filteredRoles s (tt_team t) ! i\<rparr> else t)"

definition setExpiration :: "bool \<Rightarrow> tokens_tab \<Rightarrow> tokens_tab" where
  "setExpiration b t = (if b then t\<lparr>useExpiration := b\<rparr> else t\<lparr>useExpiration := b, expiresAt := ''''\<rparr>)"

text \<open>The fields of the form exist while it is shown, the selects of a team only for the scope of a team.\<close>

definition form_do :: "(string \<Rightarrow> string option) \<Rightarrow> session \<Rightarrow> tokens_tab \<Rightarrow> token_event \<Rightarrow> tokens_tab" where
  "form_do toISO s t e =
     (case e of
        TokensAnswer r \<Rightarrow> tokens_answer r t
      | TeamsAnswer r \<Rightarrow> token_teams_answer r t
      | Submit \<Rightarrow> if showForm t \<and> \<not> createLoading t then fst (onCreateToken toISO t) else t
      | Created r \<Rightarrow> fst (onCreateToken_settled r t)
      | TokenDeleted seen i ok \<Rightarrow> fst (onDeleteToken_settled seen i ok t)
      | ToggleForm \<Rightarrow> t\<lparr>showForm := \<not> showForm t\<rparr>
      | HideForm \<Rightarrow> t\<lparr>showForm := False\<rparr>
      | NameTyped v \<Rightarrow> if showForm t then t\<lparr>tt_name := v\<rparr> else t
      | ScopePersonal b \<Rightarrow> if showForm t then t\<lparr>personal := b\<rparr> else t
      | TeamPicked i \<Rightarrow> if showForm t \<and> \<not> personal t then pickTeam i t else t
      | RolePicked i \<Rightarrow> if showForm t \<and> \<not> personal t then pickRole s i t else t
      | ExpirationToggled b \<Rightarrow> if showForm t then setExpiration b t else t
      | DateTyped v \<Rightarrow> if showForm t \<and> useExpiration t then t\<lparr>expiresAt := v\<rparr> else t
      | HideCreated \<Rightarrow> t\<lparr>createdToken := None\<rparr>)"

datatype token_action = TokenCopy string | TokenHide | TokenForm | TokenSubmit | TokenName | TokenScope bool | TokenTeam | TokenRole
  | TokenExpiration | TokenDate | TokenCancel | TokenDelete string

definition checked_if :: "bool \<Rightarrow> (string \<times> string) list" where
  "checked_if b = (if b then [(''checked'', '''')] else [])"

definition token_form :: "session \<Rightarrow> string \<Rightarrow> tokens_tab \<Rightarrow> token_action html" where
  "token_form s today t =
     El ''form'' [] [(''onSubmit'', TokenSubmit)]
       ([Txt ''Token Name'', El ''input'' [(''value'', tt_name t), (''required'', '''')] [(''onInput'', TokenName)] [],
         Txt ''Scope'',
         El ''input'' ((''id'', ''scope-personal'') # checked_if (personal t)) [(''onChange'', TokenScope True)] [], Txt ''Personal - full user access across all teams'',
         El ''input'' ((''id'', ''scope-team'') # checked_if (\<not> personal t)) [(''onChange'', TokenScope False)] [], Txt ''Team-scoped - limited to one team with a role cap'']
        @ show_if (\<not> personal t)
            [Txt ''Team'',
             El ''select'' [(''value'', tt_team t)] [(''onChange'', TokenTeam)]
               (El ''option'' [(''value'', '''')] [] [Txt ''Select a team''] # map (\<lambda>x. El ''option'' [(''value'', tm_canonical x)] [] [Txt (tm_name x)]) (tt_teams t)),
             Txt ''Max Role'',
             El ''select'' [(''value'', tokenRole t)] [(''onChange'', TokenRole)]
               (map (\<lambda>r. El ''option'' [(''value'', r)] [] [Txt r]) (filteredRoles s (tt_team t)))]
        @ [El ''input'' ((''id'', ''use-expiration'') # checked_if (useExpiration t)) [(''onChange'', TokenExpiration)] [], Txt ''Set expiration date'']
        @ show_if (useExpiration t) [El ''input'' [(''type'', ''date''), (''value'', expiresAt t), (''min'', today)] [(''onInput'', TokenDate)] []]
        @ [El ''button'' ((''type'', ''submit'') # disabled_if (createLoading t)) [] [Txt (if createLoading t then ''Creating...'' else ''Create Token'')],
           El ''button'' [(''type'', ''button'')] [(''onClick'', TokenCancel)] [Txt ''Cancel'']])"

definition token_row :: "(string \<Rightarrow> string option) \<Rightarrow> token \<Rightarrow> token_action html" where
  "token_row show_date k =
     El ''tr'' [] []
       [Txt (tk_name k), Txt (tk_prefix k @ ''...''), Txt (if tk_personal k then ''Personal'' else ''Team''),
        Txt (if tk_team k \<noteq> '''' then tk_team k else ''-''), Txt (if tk_role k \<noteq> '''' then tk_role k else ''-''),
        Txt (fmtDate show_date (tk_created k)), Txt (fmtDate show_date (tk_used k)),
        Txt (if tk_expires k \<noteq> '''' then fmtDate show_date (tk_expires k) else ''Never''),
        El ''button'' [(''aria-label'', ''Delete token'')] [(''onClick'', TokenDelete (tk_id k))] []]"

definition ApiTokensTab :: "session \<Rightarrow> string \<Rightarrow> (string \<Rightarrow> string option) \<Rightarrow> tokens_tab \<Rightarrow> token_action html list" where
  "ApiTokensTab s today show_date t =
     (case createdToken t of
        None \<Rightarrow> []
      | Some k \<Rightarrow>
          [El ''div'' [] []
             [Txt ''Token created! Copy it now - you will not be able to see it again.'',
              El ''input'' [(''value'', k), (''readonly'', '''')] [] [],
              El ''button'' [] [(''onClick'', TokenCopy k)] [Txt ''Copy''], El ''button'' [] [(''onClick'', TokenHide)] []]])
     @ [El ''button'' [] [(''onClick'', TokenForm)] [Txt ''New Token'']]
     @ show_if (showForm t) [token_form s today t]
     @ show_if (tokens t = [] \<and> \<not> showForm t) [Txt ''No API tokens yet. Create one to authenticate API requests.'']
     @ show_if (tokens t \<noteq> [])
         [El ''table'' [] []
            (El ''tr'' [] [] (map Txt [''Name'', ''Prefix'', ''Type'', ''Team'', ''Role'', ''Created'', ''Last Used'', ''Expires'', ''''])
             # map (token_row show_date) (tokens t))]"

section \<open>Linked accounts\<close>

record account =
  ac_provider :: string
  ac_name :: string
  ac_email :: string

record accounts_tab =
  accounts :: "account list"
  at_providers :: "auth_provider list"

definition accounts_mount :: "accounts_tab \<times> call list" where
  "accounts_mount = (\<lparr>accounts = [], at_providers = []\<rparr>, [fetchLinkedAccounts, fetchAuthMethods])"

definition accounts_answer :: "account list option option \<Rightarrow> accounts_tab \<Rightarrow> accounts_tab" where
  "accounts_answer r t = (case r of Some d \<Rightarrow> t\<lparr>accounts := case_option [] (\<lambda>xs. xs) d\<rparr> | None \<Rightarrow> t)"

definition methods_answer :: "auth_provider auth_methods result \<Rightarrow> accounts_tab \<Rightarrow> accounts_tab" where
  "methods_answer r t = t\<lparr>at_providers := (case fetchAuthMethods_settle r of Some m \<Rightarrow> providers m | None \<Rightarrow> [])\<rparr>"

definition onUnlink :: "bool \<Rightarrow> string \<Rightarrow> call list" where
  "onUnlink confirmed c = (if confirmed then [unlinkAccount c] else [])"

definition onUnlink_settled :: "account list \<Rightarrow> string \<Rightarrow> bool \<Rightarrow> accounts_tab \<Rightarrow> accounts_tab \<times> (string \<times> string) list" where
  "onUnlink_settled seen c ok t =
     (if ok then (t\<lparr>accounts := filter (\<lambda>a. ac_provider a \<noteq> c) seen\<rparr>, [(''Account unlinked'', ''success'')]) else (t, []))"

definition onLink :: "session \<Rightarrow> string \<Rightarrow> string" where
  "onLink s c = ''/auth/oauth/'' @ c @ ''?link=true&token='' @ encodeURIComponent (case jwt s of Some j \<Rightarrow> j | None \<Rightarrow> ''undefined'')"

definition unlinkableProviders :: "accounts_tab \<Rightarrow> auth_provider list" where
  "unlinkableProviders t = filter (\<lambda>p. prov_canonical p \<notin> ac_provider ` set (accounts t)) (at_providers t)"

datatype account_action = Unlink string | LinkTo string

definition provider_icon :: "string \<Rightarrow> account_action html" where
  "provider_icon c = El ''i'' [(''class'', case getProviderIcon c of Some i \<Rightarrow> i | None \<Rightarrow> ''bi-shield-lock'')] [] []"

definition LinkedAccountsTab :: "accounts_tab \<Rightarrow> account_action html list" where
  "LinkedAccountsTab t =
     (if accounts t \<noteq> []
      then [El ''table'' [] []
              (El ''tr'' [] [] [Txt ''Provider'', Txt ''Email'', Txt '''']
               # map (\<lambda>a. El ''tr'' [] []
                   [provider_icon (ac_provider a), Txt (ac_name a), Txt (if ac_email a \<noteq> '''' then ac_email a else ''-''),
                    El ''button'' [] [(''onClick'', Unlink (ac_provider a))] [Txt ''Unlink'']]) (accounts t))]
      else [Txt ''No linked accounts.''])
     @ show_if (unlinkableProviders t \<noteq> [])
         [El ''div'' [] []
            (Txt ''Link an account''
             # map (\<lambda>p. El ''button'' [] [(''onClick'', LinkTo (prov_canonical p))] [provider_icon (prov_canonical p), Txt (''Link '' @ prov_name p)])
                 (unlinkableProviders t))]"

section \<open>Lemmas\<close>

lemma roleOptions_level: "i < 4 \<Longrightarrow> role_level (roleOptions ! i) = Suc i"
proof -
  assume "i < 4"
  then consider "i = 0" | "i = 1" | "i = 2" | "i = 3" by linarith
  then show ?thesis by cases (simp_all add: roleOptions_def js_simps)
qed

lemma indexOf_Some: "indexOf xs x = Some n \<Longrightarrow> n < length xs \<and> xs ! n = x"
  by (induction xs arbitrary: n) (auto split: if_splits)

lemma indexOf_role: "indexOf roleOptions r = Some n \<Longrightarrow> role_level r = Suc n \<and> n < 4"
  using indexOf_Some [of roleOptions r n] roleOptions_level [of n] by (auto simp: roleOptions_def)

lemma filteredRoles_held:
  assumes "r \<in> set (filteredRoles s tc)"
  shows "hasTeamRole s tc r" and "r \<in> set roleOptions"
proof -
  show "r \<in> set roleOptions"
    using assms set_take_subset [of _ roleOptions] by (auto simp: filteredRoles_def split: option.splits if_splits)
  show "hasTeamRole s tc r"
  proof (cases "isAdmin s")
    case True
    then show ?thesis by (auto simp: hasTeamRole_def isAdmin_def split: option.splits)
  next
    case False
    with assms obtain n where n: "maxRoleLevel s tc = Some n" "r \<in> set (take (Suc n) roleOptions)"
      by (auto simp: filteredRoles_def split: option.splits)
    from n(1) obtain u ms m where u: "user s = Some u" "memberships u = Some ms" and m: "List.find (\<lambda>m. team_canonical m = tc) ms = Some m"
      and i: "indexOf roleOptions (role m) = Some n"
      by (auto simp: maxRoleLevel_def Let_def split: option.splits)
    have l: "role_level (role m) = Suc n" "n < 4" using indexOf_role [OF i] by simp_all
    obtain k where "k < Suc n" "r = roleOptions ! k" using n(2) by (auto simp: in_set_conv_nth)
    then have "role_level r \<le> role_level (role m)" using l roleOptions_level [of k] by simp
    moreover have "role m \<noteq> ''''" using l(1) by (auto simp: js_simps)
    ultimately show ?thesis using u m by (simp add: hasTeamRole_find membership_list_def)
  qed
qed

text \<open>The role chosen in the form: the lowest one, or one that the team chosen offers.\<close>

definition role_ok :: "session \<Rightarrow> tokens_tab \<Rightarrow> bool" where
  "role_ok s t \<longleftrightarrow> tokenRole t = ''read'' \<or> tokenRole t \<in> set (filteredRoles s (tt_team t))"

lemma role_ok_do [js_inv]: "role_ok s t \<Longrightarrow> role_ok s (form_do toISO s t e)"
  by (cases e)
    (auto simp: role_ok_def form_do_def pickTeam_def pickRole_def setExpiration_def onCreateToken_def onCreateToken_settled_def
       onDeleteToken_settled_def tokens_answer_def token_teams_answer_def Let_def split: option.splits)

interpretation token_form: preserves "form_do toISO s" "\<lambda>_. True" "role_ok s" for toISO s
  by unfold_locales (rule role_ok_do)

lemma encode_plus_decode: "pct_decode True (encodeURIComponent s) = s"
proof (induction s)
  case (Cons c s)
  have "uri_plain c \<Longrightarrow> c \<noteq> CHR ''+''" by (auto simp: uri_plain_def is_alnum_def)
  with Cons show ?case by (auto simp: encodeURIComponent_def)
qed (simp add: encodeURIComponent_def)

lemma live_provider_icon [simp]: "live (provider_icon c) = []"
  by (simp add: provider_icon_def)

section \<open>Properties\<close>

text \<open>
  C35. A token for a team is never asked for with more rights than its owner has there: whatever happens to the tab
  (answers, input, submissions, in any order, in one session), a request for a team names the team that is chosen and
  either the lowest role or one of the documented roles that the session holds in that team. And every role the session
  is offered for a team of the answer can be asked for: choosing the team and then the role makes that request.
\<close>

theorem token_role_capped:
  "(let t = run (form_do toISO s) (fst tokens_mount) es in
      (tokenRole t = ''read'' \<or> tokenRole t \<in> {''write'', ''maintain'', ''admin''} \<and> hasTeamRole s (tt_team t) (tokenRole t))
      \<and> set (snd (snd (onCreateToken toISO t))) \<subseteq> {createApiToken (JObj req) | req.
           map_of req ''role'' = (if personal t then None else Some (JStr (tokenRole t)))
           \<and> (personal t \<or> map_of req ''team_canonical'' = Some (JStr (tt_team t)) \<and> tt_team t \<noteq> '''')})
   \<and> (i < length ts \<and> tm_canonical (ts ! i) = tc \<and> tc \<noteq> '''' \<and> k < length (filteredRoles s tc) \<longrightarrow>
        snd (snd (onCreateToken toISO (run (form_do toISO s) (fst tokens_mount)
          [TeamsAnswer (Some (Some ts)), ToggleForm, NameTyped n, ScopePersonal False, TeamPicked (Suc i), RolePicked k]))) =
        [createApiToken (JObj [(''name'', JStr n), (''personal'', JBool False), (''team_canonical'', JStr tc),
           (''role'', JStr (filteredRoles s tc ! k))])])"
proof -
  define t where "t = run (form_do toISO s) (fst tokens_mount) es"
  have "role_ok s t" unfolding t_def by (rule token_form.inv_run) (simp_all add: role_ok_def tokens_mount_def)
  then have "tokenRole t = ''read'' \<or> tokenRole t \<in> {''write'', ''maintain'', ''admin''} \<and> hasTeamRole s (tt_team t) (tokenRole t)"
    using filteredRoles_held [of "tokenRole t" s "tt_team t"] by (auto simp: role_ok_def roleOptions_def)
  moreover have "set (snd (snd (onCreateToken toISO t))) \<subseteq> {createApiToken (JObj req) | req.
       map_of req ''role'' = (if personal t then None else Some (JStr (tokenRole t)))
       \<and> (personal t \<or> map_of req ''team_canonical'' = Some (JStr (tt_team t)) \<and> tt_team t \<noteq> '''')}"
    by (auto simp: onCreateToken_def token_request_def Let_def split: option.splits if_splits)
  ultimately show ?thesis unfolding t_def [symmetric] Let_def
    by (auto simp: form_do_def tokens_mount_def token_teams_answer_def pickTeam_def pickRole_def onCreateToken_def token_request_def)
qed

theorem token_role_capped_witness:
  "let s = \<lparr>jwt = None, user = Some (no_user_fields\<lparr>memberships := Some [\<lparr>team_canonical = ''b'', role = ''maintain''\<rparr>]\<rparr>)\<rparr> in
   snd (snd (onCreateToken Some (run (form_do Some s) (fst tokens_mount)
      [TeamsAnswer (Some (Some [\<lparr>tm_canonical = ''a'', tm_name = ''A'', tm_members = None\<rparr>, \<lparr>tm_canonical = ''b'', tm_name = ''B'', tm_members = None\<rparr>])),
       ToggleForm, NameTyped ''ci'', ScopePersonal False, TeamPicked 2, RolePicked 2]))) =
   [createApiToken (JObj [(''name'', JStr ''ci''), (''personal'', JBool False), (''team_canonical'', JStr ''b''), (''role'', JStr ''maintain'')])]"
proof -
  let ?s = "\<lparr>jwt = None, user = Some (no_user_fields\<lparr>memberships := Some [\<lparr>team_canonical = ''b'', role = ''maintain''\<rparr>]\<rparr>)\<rparr>"
  have "filteredRoles ?s ''b'' = [''read'', ''write'', ''maintain'']"
    by (simp add: filteredRoles_def maxRoleLevel_def no_user_fields_def roleOptions_def)
  then show ?thesis
    using token_role_capped [of Some ?s "[]" 1 "[\<lparr>tm_canonical = ''a'', tm_name = ''A'', tm_members = None\<rparr>, \<lparr>tm_canonical = ''b'', tm_name = ''B'', tm_members = None\<rparr>]"
      "''b''" 2 "''ci''"]
    by (simp add: numeral_2_eq_2)
qed

text \<open>Choosing another team puts the role back to the lowest one.\<close>

lemma other_team_resets_role:
  "let s = \<lparr>jwt = None, user = Some (no_user_fields\<lparr>memberships := Some [\<lparr>team_canonical = ''b'', role = ''maintain''\<rparr>]\<rparr>)\<rparr> in
   tokenRole (run (form_do Some s) (fst tokens_mount)
      [TeamsAnswer (Some (Some [\<lparr>tm_canonical = ''a'', tm_name = ''A'', tm_members = None\<rparr>, \<lparr>tm_canonical = ''b'', tm_name = ''B'', tm_members = None\<rparr>])),
       ToggleForm, NameTyped ''ci'', ScopePersonal False, TeamPicked 2, RolePicked 2, TeamPicked 1]) = ''read''"
  by (simp add: form_do_def tokens_mount_def token_teams_answer_def pickTeam_def Let_def pickRole_def)

text \<open>
  Linking an account: exactly the accounts shown can be unlinked and exactly the providers without one
  linked, and the address hands over the token of the session unchanged, whatever characters it has.
\<close>

theorem LinkedAccounts_offers:
  "set (live_all (LinkedAccountsTab t)) =
     Unlink ` ac_provider ` set (accounts t) \<union> LinkTo ` (prov_canonical ` set (at_providers t) - ac_provider ` set (accounts t))
   \<and> (\<exists>q. onLink \<lparr>jwt = Some j, user = u\<rparr> c = ''/auth/oauth/'' @ c @ ''?link=true&token='' @ q \<and> pct_decode True q = j
        \<and> set q \<inter> {CHR ''&'', CHR ''='', CHR ''#''} = {})"
proof
  have "set (live_all (LinkedAccountsTab t)) =
     Unlink ` ac_provider ` set (accounts t) \<union> LinkTo ` prov_canonical ` set (unlinkableProviders t)"
    by (auto simp: LinkedAccountsTab_def live_all_map show_if_def)
  moreover have "prov_canonical ` set (unlinkableProviders t) = prov_canonical ` set (at_providers t) - ac_provider ` set (accounts t)"
    by (auto simp: unlinkableProviders_def)
  ultimately show "set (live_all (LinkedAccountsTab t)) =
     Unlink ` ac_provider ` set (accounts t) \<union> LinkTo ` (prov_canonical ` set (at_providers t) - ac_provider ` set (accounts t))" by simp
next
  have "x \<notin> set (encodeURIComponent j)" if "x \<in> {CHR ''&'', CHR ''='', CHR ''#''}" for x
    using that set_encodeURIComponent [of x j] by (auto simp: uri_plain_def is_alnum_def)
  then show "\<exists>q. onLink \<lparr>jwt = Some j, user = u\<rparr> c = ''/auth/oauth/'' @ c @ ''?link=true&token='' @ q \<and> pct_decode True q = j
        \<and> set q \<inter> {CHR ''&'', CHR ''='', CHR ''#''} = {}"
    by (intro exI [of _ "encodeURIComponent j"]) (auto simp: onLink_def encode_plus_decode)
qed

text \<open>
  An administrator who is a member of the team is offered only the roles up to the one held there, the
  lowest alone for a reader; without a membership all roles are offered.
\<close>

lemma admin_member_roles_limited:
  "filteredRoles \<lparr>jwt = Some j, user = Some (no_user_fields\<lparr>admin := True, memberships := Some [\<lparr>team_canonical = tc, role = ''read''\<rparr>]\<rparr>)\<rparr> tc = [''read'']
   \<and> filteredRoles \<lparr>jwt = Some j, user = Some (no_user_fields\<lparr>admin := True\<rparr>)\<rparr> tc = roleOptions"
  by (simp add: filteredRoles_def maxRoleLevel_def no_user_fields_def isAdmin_def) (simp add: roleOptions_def)

text \<open>Overlapping deletions: the answer to the second puts back the token deleted by the first.\<close>

lemma second_delete_resurrects_token:
  "tk_id k \<noteq> i \<Longrightarrow> k \<in> set ks \<Longrightarrow> k \<in> set (tokens (fst (onDeleteToken_settled ks i True (fst (onDeleteToken_settled ks (tk_id k) True t)))))"
  by (simp add: onDeleteToken_settled_def)

end
