(* ===== verification/OAuthAdmin.thy ===== *)
theory OAuthAdmin
  imports SignIn
begin

text \<open>
  \<open>OAuthAdmin.js\<close>: the authentication settings, the list of OAuth providers and the form for one. The
  form keeps its fields while it is mounted; the provider it is for is a property that the page can
  change under it.

  Lemmas: the canonical name follows the display name until it is edited, and is a slug; what a
  submission sends and to whom; editing another provider while the form is open sends the fields of
  the first to the second.
\<close>

section \<open>Slugs\<close>

definition lower_char :: "char \<Rightarrow> char" where
  "lower_char c =
     (let n = (of_char c :: nat) in
      if (65 \<le> n \<and> n \<le> 90) \<or> (192 \<le> n \<and> n \<le> 222 \<and> n \<noteq> 215) then char_of (n + 32) else c)"

text \<open>\<open>[a-z0-9]\<close>.\<close>

definition slug_char :: "char \<Rightarrow> bool" where
  "slug_char c \<longleftrightarrow> (97 \<le> (of_char c :: nat) \<and> (of_char c :: nat) \<le> 122) \<or> is_digit c"

text \<open>\<open>s.replace(/[^a-z0-9]+/g, '-')\<close>: every run of other characters becomes one dash.\<close>

function dash_runs :: "string \<Rightarrow> string" where
  "dash_runs [] = []"
| "dash_runs (c # s) = (if slug_char c then c # dash_runs s else CHR ''-'' # dash_runs (dropWhile (\<lambda>d. \<not> slug_char d) s))"
  by pat_completeness auto

termination dash_runs
  by (relation "measure length") (auto simp: le_imp_less_Suc length_dropWhile_le)

text \<open>\<open>s.replace(/^-|-$/g, '')\<close>.\<close>

definition strip_dash :: "string \<Rightarrow> string" where
  "strip_dash s =
     (let t = (case s of c # cs \<Rightarrow> if c = CHR ''-'' then cs else s | [] \<Rightarrow> [])
      in if t \<noteq> [] \<and> last t = CHR ''-'' then butlast t else t)"

definition slugify :: "string \<Rightarrow> string" where
  "slugify s = strip_dash (dash_runs (map lower_char s))"

section \<open>Providers\<close>

record oauth_provider =
  op_name :: string
  op_canonical :: string
  op_type :: string
  op_issuer :: string
  op_auth :: string
  op_token :: string
  op_userinfo :: string
  op_scopes :: string
  op_client :: string
  op_claim :: string
  op_enabled :: bool

text \<open>A preset; missing fields are empty.\<close>

record preset =
  ps_label :: string
  ps_type :: string
  ps_issuer :: string
  ps_auth :: string
  ps_token :: string
  ps_userinfo :: string
  ps_scopes :: string
  ps_claim :: string

definition PROVIDER_PRESETS :: "preset jsobj" where
  "PROVIDER_PRESETS =
     [(''github'', \<lparr>ps_label = ''GitHub'', ps_type = ''oauth2'', ps_issuer = '''', ps_auth = ''https://github.com/login/oauth/authorize'',
         ps_token = ''https://github.com/login/oauth/access_token'', ps_userinfo = ''https://api.github.com/user'',
         ps_scopes = ''user:email'', ps_claim = ''login''\<rparr>),
      (''google'', \<lparr>ps_label = ''Google'', ps_type = ''oidc'', ps_issuer = ''https://accounts.google.com'', ps_auth = '''', ps_token = '''',
         ps_userinfo = '''', ps_scopes = ''openid email profile'', ps_claim = ''email''\<rparr>),
      (''gitlab'', \<lparr>ps_label = ''GitLab'', ps_type = ''oidc'', ps_issuer = ''https://gitlab.com'', ps_auth = '''', ps_token = '''',
         ps_userinfo = '''', ps_scopes = ''openid email profile'', ps_claim = ''preferred_username''\<rparr>),
      (''microsoft'', \<lparr>ps_label = ''Microsoft'', ps_type = ''oidc'', ps_issuer = '''', ps_auth = '''', ps_token = '''',
         ps_userinfo = '''', ps_scopes = ''openid email profile'', ps_claim = ''email''\<rparr>),
      (''bitbucket'', \<lparr>ps_label = ''Bitbucket'', ps_type = ''oauth2'', ps_issuer = '''', ps_auth = ''https://bitbucket.org/site/oauth2/authorize'',
         ps_token = ''https://bitbucket.org/site/oauth2/access_token'', ps_userinfo = ''https://api.bitbucket.org/2.0/user'',
         ps_scopes = ''account email'', ps_claim = ''username''\<rparr>),
      (''keycloak'', \<lparr>ps_label = ''Keycloak'', ps_type = ''oidc'', ps_issuer = '''', ps_auth = '''', ps_token = '''',
         ps_userinfo = '''', ps_scopes = ''openid email profile'', ps_claim = ''preferred_username''\<rparr>)]"

section \<open>The form\<close>

record provider_form =
  fo_name :: string
  fo_canonical :: string
  fo_touched :: bool
  fo_type :: string
  fo_issuer :: string
  fo_auth :: string
  fo_token :: string
  fo_userinfo :: string
  fo_scopes :: string
  fo_client :: string
  fo_secret :: string
  fo_claim :: string
  fo_enabled :: bool
  fo_loading :: bool
  fo_preset :: string

definition form_mount :: "oauth_provider option \<Rightarrow> provider_form" where
  "form_mount pr =
     (case pr of
        None \<Rightarrow> \<lparr>fo_name = '''', fo_canonical = '''', fo_touched = False, fo_type = ''oidc'', fo_issuer = '''', fo_auth = '''', fo_token = '''',
                 fo_userinfo = '''', fo_scopes = '''', fo_client = '''', fo_secret = '''', fo_claim = '''', fo_enabled = True, fo_loading = False, fo_preset = ''''\<rparr>
      | Some p \<Rightarrow> \<lparr>fo_name = op_name p, fo_canonical = op_canonical p, fo_touched = True, fo_type = (if op_type p = '''' then ''oidc'' else op_type p),
                 fo_issuer = op_issuer p, fo_auth = op_auth p, fo_token = op_token p, fo_userinfo = op_userinfo p, fo_scopes = op_scopes p,
                 fo_client = op_client p, fo_secret = '''', fo_claim = op_claim p, fo_enabled = op_enabled p, fo_loading = False, fo_preset = ''''\<rparr>)"

definition onPresetChange :: "string \<Rightarrow> provider_form \<Rightarrow> provider_form" where
  "onPresetChange key f =
     (case (if key = '''' then None else map_of PROVIDER_PRESETS key) of
        None \<Rightarrow> f\<lparr>fo_name := '''', fo_canonical := '''', fo_touched := False, fo_type := ''oidc'', fo_issuer := '''', fo_auth := '''', fo_token := '''',
                 fo_userinfo := '''', fo_scopes := '''', fo_claim := ''''\<rparr>
      | Some p \<Rightarrow> f\<lparr>fo_name := ps_label p, fo_canonical := slugify (ps_label p), fo_touched := False, fo_type := ps_type p, fo_issuer := ps_issuer p,
                 fo_auth := ps_auth p, fo_token := ps_token p, fo_userinfo := ps_userinfo p, fo_scopes := ps_scopes p, fo_claim := ps_claim p\<rparr>)"

definition clickPreset :: "string \<Rightarrow> provider_form \<Rightarrow> provider_form" where
  "clickPreset key f = onPresetChange key (f\<lparr>fo_preset := key\<rparr>)"

definition typeName :: "string \<Rightarrow> provider_form \<Rightarrow> provider_form" where
  "typeName v f = (if \<not> fo_touched f then f\<lparr>fo_name := v, fo_canonical := slugify v\<rparr> else f\<lparr>fo_name := v\<rparr>)"

definition typeCanonical :: "string \<Rightarrow> provider_form \<Rightarrow> provider_form" where
  "typeCanonical v f = f\<lparr>fo_canonical := v, fo_touched := True\<rparr>"

definition form_json :: "provider_form \<Rightarrow> json" where
  "form_json f =
     JObj [(''name'', JStr (fo_name f)), (''canonical'', JStr (fo_canonical f)), (''type'', JStr (fo_type f)), (''issuer_url'', JStr (fo_issuer f)),
           (''auth_url'', JStr (fo_auth f)), (''token_url'', JStr (fo_token f)), (''userinfo_url'', JStr (fo_userinfo f)), (''scopes'', JStr (fo_scopes f)),
           (''client_id'', JStr (fo_client f)), (''client_secret'', JStr (fo_secret f)), (''username_claim'', JStr (fo_claim f)), (''enabled'', JBool (fo_enabled f))]"

text \<open>Submitting the form for the provider of the render.\<close>

definition provider_submit :: "oauth_provider option \<Rightarrow> provider_form \<Rightarrow> provider_form \<times> call" where
  "provider_submit pr f =
     (f\<lparr>fo_loading := True\<rparr>,
      case pr of Some p \<Rightarrow> updateOAuthProvider (op_canonical p) (form_json f) | None \<Rightarrow> createOAuthProvider (form_json f))"

section \<open>The page\<close>

record auth_settings =
  set_local :: bool
  set_configured :: bool
  set_url :: string

record oauth_page =
  oa_providers :: "oauth_provider list"
  oa_settings :: "auth_settings option"
  oa_showForm :: bool
  oa_edit :: "oauth_provider option"
  oa_form :: "provider_form option"

definition oauth_load :: "call list" where
  "oauth_load = [fetchOAuthProviders, fetchAdminAuthSettings]"

definition oauth_mount :: "oauth_page \<times> call list" where
  "oauth_mount = (\<lparr>oa_providers = [], oa_settings = None, oa_showForm = False, oa_edit = None, oa_form = None\<rparr>, oauth_load)"

text \<open>A render mounts the form with the provider of that render, and unmounts it with the flag.\<close>

definition sync_form :: "oauth_page \<Rightarrow> oauth_page" where
  "sync_form p = p\<lparr>oa_form := (if oa_showForm p then Some (case oa_form p of Some f \<Rightarrow> f | None \<Rightarrow> form_mount (oa_edit p)) else None)\<rparr>"

definition providers_answer :: "oauth_provider list option option \<Rightarrow> oauth_page \<Rightarrow> oauth_page" where
  "providers_answer r p = (case r of Some d \<Rightarrow> p\<lparr>oa_providers := case_option [] (\<lambda>xs. xs) d\<rparr> | None \<Rightarrow> p)"

definition settings_answer :: "auth_settings option \<Rightarrow> oauth_page \<Rightarrow> oauth_page" where
  "settings_answer r p = (case r of Some s \<Rightarrow> p\<lparr>oa_settings := Some s\<rparr> | None \<Rightarrow> p)"

definition onToggleLocal :: "oauth_page \<Rightarrow> call list" where
  "onToggleLocal p =
     (case oa_settings p of
        None \<Rightarrow> []
      | Some s \<Rightarrow> [updateAdminAuthSettings (JObj [(''local_auth_enabled'', JBool (\<not> set_local s))])])"

text \<open>\<open>seen\<close>: the settings of the render that was clicked. A rejection asks for the settings again.\<close>

definition onToggleLocal_settled :: "auth_settings \<Rightarrow> bool \<Rightarrow> oauth_page \<Rightarrow> oauth_page \<times> (string \<times> string) list \<times> call list" where
  "onToggleLocal_settled seen ok p =
     (if ok then (p\<lparr>oa_settings := Some (seen\<lparr>set_local := \<not> set_local seen\<rparr>)\<rparr>, [(''Auth settings updated'', ''success'')], [])
      else (p, [], [fetchAdminAuthSettings]))"

definition onDelete_provider :: "bool \<Rightarrow> string \<Rightarrow> call list" where
  "onDelete_provider confirmed c = (if confirmed then [deleteOAuthProvider c] else [])"

definition onDelete_provider_settled :: "oauth_provider list \<Rightarrow> string \<Rightarrow> bool \<Rightarrow> oauth_page \<Rightarrow> oauth_page \<times> (string \<times> string) list" where
  "onDelete_provider_settled seen c ok p =
     (if ok then (p\<lparr>oa_providers := filter (\<lambda>x. op_canonical x \<noteq> c) seen\<rparr>, [(''Provider deleted'', ''success'')]) else (p, []))"

definition onEdit_provider :: "oauth_provider \<Rightarrow> oauth_page \<Rightarrow> oauth_page" where
  "onEdit_provider x p = sync_form (p\<lparr>oa_edit := Some x, oa_showForm := True\<rparr>)"

definition onFormDone :: "oauth_page \<Rightarrow> oauth_page \<times> call list" where
  "onFormDone p = (sync_form (p\<lparr>oa_showForm := False, oa_edit := None\<rparr>), oauth_load)"

definition clickAdd :: "oauth_page \<Rightarrow> oauth_page" where
  "clickAdd p = sync_form (p\<lparr>oa_edit := None, oa_showForm := \<not> oa_showForm p\<rparr>)"

definition cancelForm :: "oauth_page \<Rightarrow> oauth_page" where
  "cancelForm p = sync_form (p\<lparr>oa_showForm := False, oa_edit := None\<rparr>)"

definition submitProvider :: "oauth_page \<Rightarrow> oauth_page \<times> call list" where
  "submitProvider p =
     (case oa_form p of
        None \<Rightarrow> (p, [])
      | Some f \<Rightarrow> (let (f', c) = provider_submit (oa_edit p) f in (p\<lparr>oa_form := Some f'\<rparr>, [c])))"

definition submitProvider_settled :: "bool \<Rightarrow> bool \<Rightarrow> oauth_page \<Rightarrow> oauth_page \<times> (string \<times> string) list \<times> call list" where
  "submitProvider_settled isEdit ok p =
     (if ok then (let (p', calls) = onFormDone p in (p', [(if isEdit then ''Provider updated'' else ''Provider created'', ''success'')], calls))
      else (p\<lparr>oa_form := map_option (\<lambda>f. f\<lparr>fo_loading := False\<rparr>) (oa_form p)\<rparr>, [], []))"

section \<open>Views\<close>

datatype oauth_action = ToggleLocal | AddProvider | EditProvider oauth_provider | DeleteProvider string
  | FormSubmit | FormCancel | FormPreset string | FormInput string | FormType string | FormEnabled | FormCopy string

definition upper_char :: "char \<Rightarrow> char" where
  "upper_char c = (if 97 \<le> (of_char c :: nat) \<and> (of_char c :: nat) \<le> 122 then char_of ((of_char c :: nat) - 32) else c)"

definition op_icon :: "string \<Rightarrow> oauth_action html" where
  "op_icon c = El ''i'' [(''class'', case getProviderIcon c of Some i \<Rightarrow> i | None \<Rightarrow> ''bi-shield-lock'')] [] []"

definition field :: "string \<Rightarrow> string \<Rightarrow> string \<Rightarrow> (string \<times> string) list \<Rightarrow> oauth_action html" where
  "field label nm v at = El ''div'' [] [] [Txt label, El ''input'' ((''value'', v) # at) [(''onInput'', FormInput nm)] []]"

definition callback_url :: "string \<Rightarrow> provider_form \<Rightarrow> string" where
  "callback_url externalUrl f = externalUrl @ ''/auth/oauth/'' @ fo_canonical f @ ''/callback''"

definition ProviderForm :: "oauth_provider option \<Rightarrow> string \<Rightarrow> provider_form \<Rightarrow> oauth_action html" where
  "ProviderForm pr externalUrl f =
     (let isEdit = (pr \<noteq> None); req = [(''required'', '''')] in
      El ''div'' [] []
        [Txt ((if isEdit then ''Edit'' else ''New'') @ '' OAuth Provider''),
         El ''form'' [] [(''onSubmit'', FormSubmit)]
           (show_if (\<not> isEdit)
              [El ''div'' [] []
                 (El ''button'' [(''class'', if fo_preset f = '''' then ''active'' else '''')] [(''onClick'', FormPreset '''')] [Txt ''Other'']
                  # map (\<lambda>(key, p). El ''button'' [(''class'', if fo_preset f = key then ''active'' else '''')] [(''onClick'', FormPreset key)]
                      [op_icon key, Txt (ps_label p)]) PROVIDER_PRESETS),
               Txt ''Select a provider to pre-fill URLs, scopes, and type. You can edit all fields after.'']
            @ [field ''Display Name'' ''name'' (fo_name f) ((''placeholder'', ''e.g. GitHub'') # req),
               field ''Canonical'' ''canonical'' (fo_canonical f) [(''placeholder'', ''e.g. github (auto-generated)'')],
               Txt ''URL-safe slug. Auto-filled from name.'']
            @ show_if (fo_canonical f \<noteq> '''')
                [Txt ''Callback URL'', El ''input'' [(''readonly'', ''''), (''disabled'', ''''), (''value'', callback_url externalUrl f)] [] [],
                 El ''button'' [] [(''onClick'', FormCopy (callback_url externalUrl f))] [],
                 Txt ''Set this as the redirect/callback URI in the settings of your provider.'']
            @ [Txt ''Type'',
               El ''input'' ((''id'', ''type-oidc'') # (if fo_type f = ''oidc'' then [(''checked'', '''')] else [])) [(''onChange'', FormType ''oidc'')] [], Txt ''OIDC'',
               El ''input'' ((''id'', ''type-oauth2'') # (if fo_type f = ''oauth2'' then [(''checked'', '''')] else [])) [(''onChange'', FormType ''oauth2'')] [], Txt ''OAuth2'',
               Txt (if fo_type f = ''oidc'' then ''OIDC: Only issuer URL needed. Endpoints are auto-discovered.''
                    else ''OAuth2: Provide auth, token, and userinfo URLs manually (e.g. GitHub).'')]
            @ (if fo_type f = ''oidc''
               then [field ''Issuer URL'' ''issuer_url'' (fo_issuer f) ((''placeholder'', ''https://accounts.google.com'') # req)]
               else [field ''Authorization URL'' ''auth_url'' (fo_auth f) ((''placeholder'', ''https://github.com/login/oauth/authorize'') # req),
                     field ''Token URL'' ''token_url'' (fo_token f) ((''placeholder'', ''https://github.com/login/oauth/access_token'') # req),
                     field ''Userinfo URL'' ''userinfo_url'' (fo_userinfo f) [(''placeholder'', ''https://api.github.com/user'')]])
            @ [field ''Client ID'' ''client_id'' (fo_client f) req,
               field ''Client Secret'' ''client_secret'' (fo_secret f) [(''type'', ''password''), (''placeholder'', if isEdit then ''(unchanged if empty)'' else '''')],
               field ''Scopes'' ''scopes'' (fo_scopes f) [(''placeholder'', if fo_type f = ''oidc'' then ''openid email profile'' else ''user:email'')],
               field ''Username Claim'' ''username_claim'' (fo_claim f) [(''placeholder'', ''email'')],
               Txt ''Claim used to suggest username (email, preferred_username, login).'',
               El ''input'' ((''id'', ''providerEnabled'') # (if fo_enabled f then [(''checked'', '''')] else [])) [(''onChange'', FormEnabled)] [], Txt ''Enabled'',
               El ''button'' ((''type'', ''submit'') # disabled_if (fo_loading f)) []
                 [Txt (if fo_loading f then ''Saving...'' else if isEdit then ''Update Provider'' else ''Create Provider'')],
               El ''button'' [(''type'', ''button'')] [(''onClick'', FormCancel)] [Txt ''Cancel'']])])"

definition provider_row :: "oauth_provider \<Rightarrow> oauth_action html" where
  "provider_row x =
     El ''tr'' [] []
       [op_icon (op_canonical x), Txt (op_name x), Txt (op_canonical x),
        El ''span'' [(''class'', if op_type x = ''oidc'' then ''bg-primary'' else ''bg-info'')] [] [Txt (map upper_char (op_type x))],
        Txt (if op_enabled x then ''Yes'' else ''No''),
        El ''button'' [] [(''onClick'', EditProvider x)] [], El ''button'' [] [(''onClick'', DeleteProvider (op_canonical x))] []]"

text \<open>\<open>origin\<close> is the origin of the page.\<close>

definition OAuthAdmin_view :: "string \<Rightarrow> oauth_page \<Rightarrow> oauth_action html list" where
  "OAuthAdmin_view origin p =
     [Txt ''Authentication Settings'']
     @ (case oa_settings p of
          None \<Rightarrow> []
        | Some s \<Rightarrow>
            show_if (\<not> set_configured s)
              [El ''div'' [] [] [Txt (''--external-url is not set: OAuth callback URLs are derived from the address each login request arrives on (currently ''
                 @ set_url s @ ''). That works as long as everyone reaches the server the same way; if it is reachable under more than one hostname or sits behind a proxy that does not forward the original host, start it with --external-url ''
                 @ set_url s @ '' (or EXTERNAL_URL='' @ set_url s @ '').'')]]
            @ [El ''input'' ((''id'', ''localAuth'') # (if set_local s then [(''checked'', '''')] else [])) [(''onChange'', ToggleLocal)] [],
               Txt ''Enable local username/password login''])
     @ [Txt ''OAuth Providers'', El ''button'' [] [(''onClick'', AddProvider)] [Txt ''Add Provider'']]
     @ (case oa_form p of
          None \<Rightarrow> []
        | Some f \<Rightarrow> [ProviderForm (oa_edit p) (case oa_settings p of Some s \<Rightarrow> if set_url s \<noteq> '''' then set_url s else origin | None \<Rightarrow> origin) f])
     @ (if oa_providers p \<noteq> []
        then [El ''table'' [] []
                [El ''tr'' [] [] [Txt ''Name'', Txt ''Canonical'', Txt ''Type'', Txt ''Enabled'', Txt ''''],
                 El ''tbody'' [] [] (map provider_row (oa_providers p))]]
        else [Txt ''No OAuth providers configured. Add one to enable single sign-on.''])"

section \<open>Lemmas\<close>

text \<open>A slug: letters, digits and single dashes, none of them at an end.\<close>

definition is_slug :: "string \<Rightarrow> bool" where
  "is_slug t \<longleftrightarrow> (\<forall>c \<in> set t. slug_char c \<or> c = CHR ''-'') \<and> successively (\<lambda>a b. a \<noteq> CHR ''-'' \<or> b \<noteq> CHR ''-'') t
     \<and> (t \<noteq> [] \<longrightarrow> hd t \<noteq> CHR ''-'' \<and> last t \<noteq> CHR ''-'')"

lemma dash_not_slug [simp]: "\<not> slug_char CHR ''-''"
  by (simp add: slug_char_def is_digit_def)

lemma hd_dropWhile_slug: "dropWhile (\<lambda>d. \<not> slug_char d) s \<noteq> [] \<Longrightarrow> slug_char (hd (dropWhile (\<lambda>d. \<not> slug_char d) s))"
  using hd_dropWhile by blast

lemma dash_runs_hd: "s \<noteq> [] \<Longrightarrow> slug_char (hd s) \<Longrightarrow> dash_runs s \<noteq> [] \<and> slug_char (hd (dash_runs s))"
  by (cases s) auto

lemma dash_runs_ok:
  "(\<forall>c \<in> set (dash_runs s). slug_char c \<or> c = CHR ''-'') \<and> successively (\<lambda>a b. a \<noteq> CHR ''-'' \<or> b \<noteq> CHR ''-'') (dash_runs s)"
proof (induction s rule: dash_runs.induct)
  case (2 c s)
  show ?case
  proof (cases "slug_char c")
    case True
    then have "c \<noteq> CHR ''-''" by auto
    with "2.IH"(1) True show ?thesis by (auto simp: successively_Cons)
  next
    case False
    let ?r = "dropWhile (\<lambda>d. \<not> slug_char d) s"
    have "dash_runs ?r \<noteq> [] \<Longrightarrow> hd (dash_runs ?r) \<noteq> CHR ''-''"
      using dash_runs_hd [of ?r] hd_dropWhile_slug [of s] by (cases "?r = []") auto
    with "2.IH"(2) False show ?thesis by (auto simp: successively_Cons)
  qed
qed simp

lemma successively_butlast: "successively P t \<Longrightarrow> successively P (butlast t)"
  by (cases t rule: rev_cases) (auto simp: successively_append_iff)

lemma last_before_dash:
  assumes "successively (\<lambda>a b. a \<noteq> CHR ''-'' \<or> b \<noteq> CHR ''-'') t" and "last t = CHR ''-''" and "butlast t \<noteq> []"
  shows "last (butlast t) \<noteq> CHR ''-''"
proof -
  have "t \<noteq> []" using assms(3) by auto
  then have "t = butlast t @ [CHR ''-'']" using assms(2) append_butlast_last_id [of t] by simp
  then have "successively (\<lambda>a b. a \<noteq> CHR ''-'' \<or> b \<noteq> CHR ''-'') (butlast t @ [CHR ''-''])" using assms(1) by simp
  then show ?thesis using assms(3) by (simp add: successively_append_iff)
qed

lemma strip_dash_slug:
  assumes "\<forall>c \<in> set t. slug_char c \<or> c = CHR ''-''" and "successively (\<lambda>a b. a \<noteq> CHR ''-'' \<or> b \<noteq> CHR ''-'') t"
  shows "is_slug (strip_dash t)"
proof -
  define u where "u = (case t of c # cs \<Rightarrow> if c = CHR ''-'' then cs else t | [] \<Rightarrow> [])"
  have u: "\<forall>c \<in> set u. slug_char c \<or> c = CHR ''-''" "successively (\<lambda>a b. a \<noteq> CHR ''-'' \<or> b \<noteq> CHR ''-'') u"
    "u \<noteq> [] \<Longrightarrow> hd u \<noteq> CHR ''-''"
    using assms by (auto simp: u_def successively_Cons split: list.splits if_splits)
  have s: "strip_dash t = (if u \<noteq> [] \<and> last u = CHR ''-'' then butlast u else u)"
    by (simp add: strip_dash_def u_def Let_def)
  show ?thesis
  proof (cases "u \<noteq> [] \<and> last u = CHR ''-''")
    case True
    have "hd (butlast u) = hd u" if "butlast u \<noteq> []" using that by (cases u) auto
    then have "is_slug (butlast u)"
      unfolding is_slug_def using u True last_before_dash [OF u(2)] successively_butlast [OF u(2)]
      by (auto dest: in_set_butlastD)
    with s True show ?thesis by simp
  next
    case False
    then show ?thesis using s u by (auto simp: is_slug_def)
  qed
qed

lemma slugify_slug: "is_slug (slugify s)"
  unfolding slugify_def using dash_runs_ok by (intro strip_dash_slug) blast+

lemma lower_slug: "slug_char c \<or> c = CHR ''-'' \<Longrightarrow> lower_char c = c"
  by (auto simp: lower_char_def slug_char_def is_digit_def Let_def)

lemma dash_runs_slug:
  "\<forall>c \<in> set t. slug_char c \<or> c = CHR ''-'' \<Longrightarrow> successively (\<lambda>a b. a \<noteq> CHR ''-'' \<or> b \<noteq> CHR ''-'') t \<Longrightarrow> dash_runs t = t"
proof (induction t)
  case (Cons c t)
  have t: "dash_runs t = t" using Cons by (auto simp: successively_Cons)
  show ?case
  proof (cases "slug_char c")
    case False
    then have "c = CHR ''-''" using Cons.prems(1) by auto
    then have "t \<noteq> [] \<Longrightarrow> slug_char (hd t)" using Cons.prems by (cases t) (auto simp: successively_Cons)
    then have "dropWhile (\<lambda>d. \<not> slug_char d) t = t" by (cases t) auto
    with False t \<open>c = CHR ''-''\<close> show ?thesis by simp
  qed (simp add: t)
qed simp

lemma slugify_id: "is_slug t \<Longrightarrow> slugify t = t"
proof -
  assume t: "is_slug t"
  then have "map lower_char t = t" by (intro map_idI) (auto simp: is_slug_def lower_slug)
  moreover have "dash_runs t = t" using t by (intro dash_runs_slug) (auto simp: is_slug_def)
  moreover have "strip_dash t = t" using t by (auto simp: strip_dash_def is_slug_def Let_def split: list.splits)
  ultimately show ?thesis by (simp add: slugify_def)
qed

lemma slug_plain: "is_slug t \<Longrightarrow> encodeURIComponent t = t"
proof -
  assume "is_slug t"
  then have "\<forall>c \<in> set t. uri_plain c"
    by (auto simp: is_slug_def slug_char_def is_digit_def uri_plain_def is_alnum_def)
  then show ?thesis by (induction t) (auto simp: encodeURIComponent_def)
qed

section \<open>Use of the form\<close>

datatype form_event = Preset string | NameTo string | CanonicalTo string | OtherField "provider_form \<Rightarrow> provider_form"

text \<open>The other inputs change neither name nor canonical name.\<close>

fun form_step :: "provider_form \<Rightarrow> form_event \<Rightarrow> provider_form" where
  "form_step f (Preset k) = clickPreset k f"
| "form_step f (NameTo v) = typeName v f"
| "form_step f (CanonicalTo v) = typeCanonical v f"
| "form_step f (OtherField g) = (g f)\<lparr>fo_name := fo_name f, fo_canonical := fo_canonical f, fo_touched := fo_touched f\<rparr>"

definition follows :: "provider_form \<Rightarrow> bool" where
  "follows f \<longleftrightarrow> fo_touched f \<or> fo_canonical f = slugify (fo_name f)"

lemma slugify_Nil [simp]: "slugify '''' = ''''"
  by (simp add: slugify_def strip_dash_def)

lemma follows_step [js_inv]: "follows f \<Longrightarrow> follows (form_step f e)"
  by (cases e) (auto simp: follows_def clickPreset_def onPresetChange_def typeName_def typeCanonical_def split: option.splits)

interpretation provider_form: preserves form_step "\<lambda>_. True" follows
  by unfold_locales (rule follows_step)

section \<open>Properties\<close>

text \<open>
  C36. The canonical name of a new provider is the slug of its display name, whatever preset is chosen and
  whatever is typed, until the user edits it; a slug is a path segment as it is, and its own slug.
\<close>

theorem canonical_follows_name:
  "let f = run form_step (form_mount None) es in
     (fo_touched f \<or> fo_canonical f = slugify (fo_name f))
     \<and> is_slug (slugify (fo_name f)) \<and> slugify (slugify (fo_name f)) = slugify (fo_name f)
     \<and> encodeURIComponent (slugify (fo_name f)) = slugify (fo_name f)"
proof -
  have "follows (run form_step (form_mount None) es)"
    by (rule provider_form.inv_run) (simp_all add: follows_def form_mount_def)
  then show ?thesis
    using slugify_slug slugify_id slug_plain by (simp add: follows_def Let_def)
qed

text \<open>
  The form keeps its fields when another provider is put under it: editing a second provider while the
  form for the first is open sends the fields of the first to the second.
\<close>

lemma edit_other_overwrites:
  assumes "oa_form p = Some f"
  shows "snd (submitProvider (onEdit_provider x p)) = [updateOAuthProvider (op_canonical x) (form_json f)]"
  using assms by (simp add: submitProvider_def onEdit_provider_def sync_form_def provider_submit_def)

text \<open>A closed form, opened for a provider, sends that provider's fields back, without a secret.\<close>

lemma edit_sends_own_fields:
  assumes "oa_form p = None"
  shows "snd (submitProvider (onEdit_provider x p)) = [updateOAuthProvider (op_canonical x) (form_json (form_mount (Some x)))]"
  using assms by (simp add: submitProvider_def onEdit_provider_def sync_form_def provider_submit_def)

end
