(* ===== verification/JsRegExp.thy ===== *)
theory JsRegExp
  imports JsPrelude
begin

text \<open>
  Regular expressions of JavaScript, as far as the client uses them: characters, sequence, choice,
  greedy and lazy repetition, groups, lookahead and the two anchors. \<open>rx_run\<close> lists the ways an
  expression matches at a position in the order in which the backtracking matcher tries them; the
  first one is its result. A state is a position, the text from there on and the groups set so far.

  Lemmas: the list is exactly the matches of the relational meaning \<open>rx_rel\<close>; a match does not leave
  the text; searching finds the first position with a match.
\<close>

section \<open>Expressions\<close>

datatype rx = Empty | Chr "char \<Rightarrow> bool" | Cat rx rx | Or rx rx | Rep bool rx | Grp nat rx | Look rx | Bol | Eos

type_synonym groups = "(nat \<times> string) list"
type_synonym rx_state = "nat \<times> string \<times> groups"

text \<open>
  Repetition: a further round must consume something. \<open>n\<close> is the length of the text that is left, so
  that there is always a round to spare. A greedy repetition tries a further round first.
\<close>

fun rounds :: "nat \<Rightarrow> bool \<Rightarrow> (rx_state \<Rightarrow> rx_state list) \<Rightarrow> rx_state \<Rightarrow> rx_state list" where
  "rounds 0 greedy f s = [s]"
| "rounds (Suc n) greedy f s =
     (let more = concat (map (rounds n greedy f) (filter (\<lambda>t. fst s < fst t) (f s)))
      in if greedy then more @ [s] else s # more)"

primrec rx_run :: "rx \<Rightarrow> rx_state \<Rightarrow> rx_state list" where
  "rx_run Empty s = [s]"
| "rx_run (Chr P) s = (case s of (i, c # r, k) \<Rightarrow> if P c then [(Suc i, r, k)] else [] | (i, [], k) \<Rightarrow> [])"
| "rx_run (Cat a b) s = concat (map (rx_run b) (rx_run a s))"
| "rx_run (Or a b) s = rx_run a s @ rx_run b s"
| "rx_run (Rep greedy a) s = rounds (length (fst (snd s))) greedy (rx_run a) s"
| "rx_run (Grp n a) s = map (\<lambda>(j, r, k). (j, r, (n, take (j - fst s) (fst (snd s))) # k)) (rx_run a s)"
| "rx_run (Look a) s = (case rx_run a s of [] \<Rightarrow> [] | t # _ \<Rightarrow> [(fst s, fst (snd s), snd (snd t))])"
| "rx_run Bol s = (if fst s = 0 then [s] else [])"
| "rx_run Eos s = (if fst (snd s) = [] then [s] else [])"

text \<open>The first match at or after a position: where it starts and ends, and its groups.\<close>

fun rx_exec :: "rx \<Rightarrow> nat \<Rightarrow> string \<Rightarrow> (nat \<times> nat \<times> groups) option" where
  "rx_exec e i s =
     (case rx_run e (i, s, []) of
        (j, r, k) # _ \<Rightarrow> Some (i, j, k)
      | [] \<Rightarrow> (case s of [] \<Rightarrow> None | c # t \<Rightarrow> rx_exec e (Suc i) t))"

declare rx_exec.simps [simp del]

text \<open>\<open>re.exec(s)\<close>, and the text of a group, empty when it is not set.\<close>

definition exec :: "rx \<Rightarrow> string \<Rightarrow> (nat \<times> nat \<times> groups) option" where
  "exec e s = rx_exec e 0 s"

definition group_text :: "groups \<Rightarrow> nat \<Rightarrow> string" where
  "group_text k n = (case map_of k n of Some t \<Rightarrow> t | None \<Rightarrow> '''')"

text \<open>
  All matches from left to right, as a loop over \<open>exec\<close> of a global expression finds them. An expression
  that matches the empty text is not used this way; the list ends there.
\<close>

fun exec_all_from :: "nat \<Rightarrow> rx \<Rightarrow> nat \<Rightarrow> string \<Rightarrow> (nat \<times> nat \<times> groups) list" where
  "exec_all_from 0 e i s = []"
| "exec_all_from (Suc n) e i s =
     (case rx_exec e i s of
        None \<Rightarrow> []
      | Some (a, b, k) \<Rightarrow> (a, b, k) # (if a < b then exec_all_from n e b (drop (b - i) s) else []))"

definition exec_all :: "rx \<Rightarrow> string \<Rightarrow> (nat \<times> nat \<times> groups) list" where
  "exec_all e s = exec_all_from (Suc (length s)) e 0 s"

section \<open>Notation of the expressions\<close>

definition lit :: "string \<Rightarrow> rx" where
  "lit s = foldr (\<lambda>c. Cat (Chr (\<lambda>d. d = c))) s Empty"

definition cats :: "rx list \<Rightarrow> rx" where
  "cats es = foldr Cat es Empty"

definition ors :: "rx list \<Rightarrow> rx" where
  "ors es = (case es of [] \<Rightarrow> Empty | e # fs \<Rightarrow> foldl Or e fs)"

definition star :: "rx \<Rightarrow> rx" where "star e = Rep True e"
definition some :: "rx \<Rightarrow> rx" where "some e = Cat e (Rep True e)"
definition some_lazy :: "rx \<Rightarrow> rx" where "some_lazy e = Cat e (Rep False e)"
definition opt :: "rx \<Rightarrow> rx" where "opt e = Or e Empty"

definition space :: rx where "space = Chr is_blank"
definition digit :: rx where "digit = Chr is_digit"

definition word_char :: "char \<Rightarrow> bool" where
  "word_char c \<longleftrightarrow> is_digit c \<or> (65 \<le> (of_char c :: nat) \<and> (of_char c :: nat) \<le> 90) \<or> (97 \<le> (of_char c :: nat) \<and> (of_char c :: nat) \<le> 122) \<or> c = CHR ''_''"

definition word :: rx where "word = Chr word_char"

text \<open>A dot matches everything but a line end.\<close>

definition dot :: rx where "dot = Chr (\<lambda>c. (of_char c :: nat) \<notin> {10, 13})"

definition quote :: char where "quote = CHR 0x22"

text \<open>\<open>\s+"..."\<close> with the given inside.\<close>

definition quoted :: "rx \<Rightarrow> rx" where
  "quoted e = cats [some space, Chr (\<lambda>c. c = quote), e, Chr (\<lambda>c. c = quote)]"

text \<open>\<open>[^"]+\<close>.\<close>

definition unquoted :: rx where "unquoted = some (Chr (\<lambda>c. c \<noteq> quote))"

section \<open>Relational meaning\<close>

type_synonym place = "nat \<times> string"

primrec rx_rel :: "rx \<Rightarrow> place rel" where
  "rx_rel Empty = Id"
| "rx_rel (Chr P) = {((i, c # r), (Suc i, r)) | i c r. P c}"
| "rx_rel (Cat a b) = rx_rel a O rx_rel b"
| "rx_rel (Or a b) = rx_rel a \<union> rx_rel b"
| "rx_rel (Rep g a) = (rx_rel a)\<^sup>*"
| "rx_rel (Grp n a) = rx_rel a"
| "rx_rel (Look a) = Id_on (Domain (rx_rel a))"
| "rx_rel Bol = {((0, s), (0, s)) | s. True}"
| "rx_rel Eos = {((i, []), (i, [])) | i. True}"

definition place :: "rx_state \<Rightarrow> place" where
  "place s = (fst s, fst (snd s))"

lemma place_simps [simp]: "place (i, r, k) = (i, r)"
  by (simp add: place_def)

text \<open>A match moves forward in the same text.\<close>

definition forward :: "place rel" where
  "forward = {((i, s), (j, r)). i \<le> j \<and> j - i \<le> length s \<and> r = drop (j - i) s}"

lemma forward_refl: "(x, x) \<in> forward"
  by (cases x) (simp add: forward_def)

lemma forward_trans: "(x, y) \<in> forward \<Longrightarrow> (y, z) \<in> forward \<Longrightarrow> (x, z) \<in> forward"
  by (cases x; cases y; cases z) (auto simp: forward_def)

lemma forward_star: "R \<subseteq> forward \<Longrightarrow> R\<^sup>* \<subseteq> forward"
proof clarify
  fix i s j r assume R: "R \<subseteq> forward"
  assume "((i, s), (j, r)) \<in> R\<^sup>*"
  then show "((i, s), (j, r)) \<in> forward"
    by (induction rule: rtrancl_induct) (use R forward_refl forward_trans in blast)+
qed

lemma rel_forward: "rx_rel e \<subseteq> forward"
proof (induction e)
  case (Cat a b)
  then show ?case using forward_trans by fastforce
next
  case (Look a)
  then show ?case using forward_refl by auto
next
  case (Rep g a)
  then show ?case by (simp add: forward_star)
qed (auto simp: forward_def)

lemma forward_still: "(x, y) \<in> forward \<Longrightarrow> \<not> fst x < fst y \<Longrightarrow> y = x"
  by (cases x; cases y) (auto simp: forward_def)

lemma forward_shorter: "(x, y) \<in> forward \<Longrightarrow> fst x < fst y \<Longrightarrow> length (snd y) < length (snd x)"
  by (cases x; cases y) (auto simp: forward_def)

lemma star_progress:
  assumes "R \<subseteq> forward"
  shows "R\<^sup>* `` {x} = insert x (\<Union>y \<in> {y \<in> R `` {x}. fst x < fst y}. R\<^sup>* `` {y})"
proof -
  have "y = x \<or> (\<exists>z \<in> R `` {x}. fst x < fst z \<and> (z, y) \<in> R\<^sup>*)" if "(x, y) \<in> R\<^sup>*" for y
    using that
  proof (induction rule: rtrancl_induct)
    case (step y z)
    show ?case
    proof (cases "y = x")
      case True
      show ?thesis
      proof (cases "fst x < fst z")
        case False
        then have "z = x" using step(2) True assms forward_still by blast
        then show ?thesis by simp
      qed (use step(2) True in auto)
    next
      case False
      with step.IH step(2) show ?thesis by (meson rtrancl.rtrancl_into_rtrancl)
    qed
  qed simp
  then show ?thesis by (auto intro: converse_rtrancl_into_rtrancl)
qed

lemma rounds_rel:
  assumes "R \<subseteq> forward" and "\<And>s. place ` set (f s) = R `` {place s}"
  shows "length (fst (snd s)) \<le> n \<Longrightarrow> place ` set (rounds n g f s) = R\<^sup>* `` {place s}"
proof (induction n arbitrary: s)
  case 0
  obtain i k where s: "s = (i, [], k)" using 0 by (cases s) auto
  have e: "{y \<in> R `` {place s}. fst (place s) < fst y} = {}"
    using forward_shorter assms(1) by (fastforce simp: s)
  show ?case using star_progress [OF assms(1), of "place s"] unfolding e by simp
next
  case (Suc n)
  have IH: "place ` set (rounds n g f t) = R\<^sup>* `` {place t}" if "t \<in> set (f s)" "fst s < fst t" for t
  proof (rule Suc.IH)
    have "(place s, place t) \<in> R" using assms(2) [of s] that(1) by blast
    then have "length (snd (place t)) < length (snd (place s))"
      using forward_shorter [of "place s" "place t"] assms(1) that(2) by (auto simp: place_def)
    then show "length (fst (snd t)) \<le> n" using Suc.prems by (simp add: place_def)
  qed
  have "place ` set (rounds (Suc n) g f s)
      = insert (place s) (\<Union>t \<in> {t \<in> set (f s). fst s < fst t}. place ` set (rounds n g f t))"
    by (auto simp: Let_def)
  also have "\<dots> = insert (place s) (\<Union>t \<in> {t \<in> set (f s). fst s < fst t}. R\<^sup>* `` {place t})"
    using IH by simp
  also have "(\<Union>t \<in> {t \<in> set (f s). fst s < fst t}. R\<^sup>* `` {place t})
      = (\<Union>y \<in> {y \<in> place ` set (f s). fst (place s) < fst y}. R\<^sup>* `` {y})"
    by (auto simp: place_def)
  finally show ?case using star_progress [OF assms(1), of "place s"] assms(2) [of s] by simp
qed

lemma rx_run_rel: "place ` set (rx_run e s) = rx_rel e `` {place s}"
proof (induction e arbitrary: s)
  case (Chr P)
  show ?case by (cases s) (auto split: list.splits)
next
  case (Cat a b)
  have "place ` set (rx_run (Cat a b) s) = (\<Union>t \<in> set (rx_run a s). place ` set (rx_run b t))" by auto
  also have "\<dots> = (\<Union>y \<in> place ` set (rx_run a s). rx_rel b `` {y})" using Cat.IH(2) by simp
  also have "\<dots> = rx_rel (Cat a b) `` {place s}" unfolding Cat.IH(1) by auto
  finally show ?case .
next
  case (Rep g a)
  show ?case using rounds_rel [of "rx_rel a" "rx_run a" s "length (fst (snd s))" g, OF rel_forward Rep.IH] by simp
next
  case (Grp n a)
  have "place ` set (rx_run (Grp n a) s) = place ` set (rx_run a s)" by force
  then show ?case using Grp.IH by simp
next
  case (Look a)
  have "rx_run a s = [] \<longleftrightarrow> place s \<notin> Domain (rx_rel a)"
    using Look.IH [of s] by (metis (no_types, lifting) Domain.simps Image_singleton_iff empty_iff image_is_empty set_empty ex_in_conv)
  then show ?case by (cases "rx_run a s") (auto simp: place_def)
next
  case Bol
  show ?case by (cases s) auto
next
  case Eos
  show ?case by (cases s) auto
qed (auto simp: image_Un)

lemma rx_run_mem: "(j, r, k') \<in> set (rx_run e (i, s, k)) \<Longrightarrow> ((i, s), (j, r)) \<in> rx_rel e"
proof -
  assume "(j, r, k') \<in> set (rx_run e (i, s, k))"
  then have "place (j, r, k') \<in> place ` set (rx_run e (i, s, k))" by (rule imageI)
  then show ?thesis unfolding rx_run_rel by simp
qed

section \<open>Searching\<close>

lemma rx_run_hd:
  "rx_run e (i, s, k0) = (j, r, k) # more \<Longrightarrow> ((i, s), (j, r)) \<in> rx_rel e \<and> ((i, s), (j, r)) \<in> forward"
proof -
  assume "rx_run e (i, s, k0) = (j, r, k) # more"
  then have "(j, r) \<in> place ` set (rx_run e (i, s, k0))" by force
  then have "((i, s), (j, r)) \<in> rx_rel e" unfolding rx_run_rel by simp
  then show ?thesis using rel_forward by blast
qed

lemma rx_run_none: "rx_run e (i, s, k0) = [] \<longleftrightarrow> (i, s) \<notin> Domain (rx_rel e)"
proof -
  have "rx_run e (i, s, k0) = [] \<longleftrightarrow> place ` set (rx_run e (i, s, k0)) = {}" by simp
  then show ?thesis unfolding rx_run_rel by auto
qed

text \<open>A search finds the first position that has a match, and a match there.\<close>

lemma rx_exec_Some:
  "rx_exec e i s = Some (a, b, k) \<Longrightarrow> i \<le> a \<and> a \<le> b \<and> b \<le> i + length s
     \<and> ((a, drop (a - i) s), (b, drop (b - i) s)) \<in> rx_rel e \<and> (\<exists>more. rx_run e (a, drop (a - i) s, []) = (b, drop (b - i) s, k) # more)
     \<and> (\<forall>j \<in> {i..<a}. (j, drop (j - i) s) \<notin> Domain (rx_rel e))"
proof (induction s arbitrary: i)
  case Nil
  then obtain r more where r: "rx_run e (i, [], []) = (b, r, k) # more" "a = i"
    by (auto simp: rx_exec.simps [of e i] split: list.splits)
  then show ?case using rx_run_hd [OF r(1)] by (auto simp: forward_def)
next
  case (Cons c t)
  show ?case
  proof (cases "rx_run e (i, c # t, [])")
    case Nil
    then have x: "rx_exec e (Suc i) t = Some (a, b, k)" using Cons.prems by (simp add: rx_exec.simps [of e i])
    have d: "drop (j - i) (c # t) = drop (j - Suc i) t" if "Suc i \<le> j" for j
      using that by (simp add: Suc_diff_le drop_Cons')
    have n: "(i, c # t) \<notin> Domain (rx_rel e)" using Nil rx_run_none by blast
    note IH = Cons.IH [OF x]
    have "(j, drop (j - i) (c # t)) \<notin> Domain (rx_rel e)" if "j \<in> {i..<a}" for j
    proof (cases "j = i")
      case False
      with that IH d [of j] show ?thesis by auto
    qed (use n in simp)
    then show ?thesis using IH d [of a] d [of b] by auto
  next
    case (Cons x more)
    then obtain r where r: "rx_run e (i, c # t, []) = (b, r, k) # more" "a = i"
      using Cons.prems by (cases x) (auto simp: rx_exec.simps [of e i])
    then show ?thesis using rx_run_hd [OF r(1)] by (auto simp: forward_def)
  qed
qed

lemma exec_Some:
  assumes "exec e s = Some (a, b, k)"
  shows "a \<le> b" "b \<le> length s" "((a, drop a s), (b, drop b s)) \<in> rx_rel e" "\<exists>more. rx_run e (a, drop a s, []) = (b, drop b s, k) # more"
    "j < a \<Longrightarrow> (j, drop j s) \<notin> Domain (rx_rel e)"
  using rx_exec_Some [of e 0 s a b k] assms by (auto simp: exec_def)

text \<open>All matches: each one matches, they do not overlap and they stay in the text.\<close>

lemma exec_all_from_ok:
  "(a, b, k) \<in> set (exec_all_from n e i s) \<Longrightarrow>
     i \<le> a \<and> a \<le> b \<and> b \<le> i + length s \<and> ((a, drop (a - i) s), (b, drop (b - i) s)) \<in> rx_rel e"
proof (induction n arbitrary: i s)
  case (Suc n)
  then obtain a' b' k' where x: "rx_exec e i s = Some (a', b', k')" by (cases "rx_exec e i s") auto
  note ok = rx_exec_Some [OF x]
  from Suc.prems x consider "a = a'" "b = b'" | "a' < b'" "(a, b, k) \<in> set (exec_all_from n e b' (drop (b' - i) s))"
    by (auto split: if_splits)
  then show ?case
  proof cases
    case 2
    have d: "drop (j - b') (drop (b' - i) s) = drop (j - i) s" if "b' \<le> j" for j
      using that ok by (simp add: drop_drop)
    show ?thesis using Suc.IH [OF 2(2)] ok d [of a] d [of b] by auto
  qed (use ok in auto)
qed simp

lemma exec_all_ok:
  assumes "(a, b, k) \<in> set (exec_all e s)"
  shows "a \<le> b" "b \<le> length s" "((a, drop a s), (b, drop b s)) \<in> rx_rel e"
  using exec_all_from_ok [of a b k "Suc (length s)" e 0 s] assms by (auto simp: exec_all_def)

text \<open>An expression that consumes something does so in every match.\<close>

primrec consumes :: "rx \<Rightarrow> bool" where
  "consumes Empty = False"
| "consumes (Chr P) = True"
| "consumes (Cat a b) = (consumes a \<or> consumes b)"
| "consumes (Or a b) = (consumes a \<and> consumes b)"
| "consumes (Rep g a) = False"
| "consumes (Grp n a) = consumes a"
| "consumes (Look a) = False"
| "consumes Bol = False"
| "consumes Eos = False"

lemma rel_le: "(x, y) \<in> rx_rel e \<Longrightarrow> fst x \<le> fst y"
  using rel_forward [of e] by (cases x; cases y) (auto simp: forward_def)

lemma rel_less: "consumes e \<Longrightarrow> (x, y) \<in> rx_rel e \<Longrightarrow> fst x < fst y"
proof (induction e arbitrary: x y)
  case (Cat a b)
  then obtain z where z: "(x, z) \<in> rx_rel a" "(z, y) \<in> rx_rel b" by auto
  have le: "fst x \<le> fst z" "fst z \<le> fst y" using rel_le z by blast+
  show ?case
  proof (cases "consumes a")
    case True
    show ?thesis using Cat.IH(1) [OF True z(1)] le by simp
  next
    case False
    then show ?thesis using Cat.IH(2) [OF _ z(2)] Cat.prems(1) le by simp
  qed
qed auto

section \<open>Literals and groups\<close>

lemma rel_lit: "rx_rel (lit t) = {((i, t @ r), (i + length t, r)) | i r. True}"
proof (induction t)
  case Nil
  show ?case by (auto simp: lit_def)
next
  case (Cons c t)
  have "lit (c # t) = Cat (Chr (\<lambda>d. d = c)) (lit t)" by (simp add: lit_def)
  then show ?case by (auto simp: Cons.IH)
qed

lemma consumes_lit: "consumes (lit t) \<longleftrightarrow> t \<noteq> []"
  by (cases t) (simp_all add: lit_def)

lemma lit_prefix: "((i, s), y) \<in> rx_rel (Cat (lit t) e) \<Longrightarrow> take (length t) s = t"
  by (auto simp: rel_lit)

text \<open>An expression leaves alone the groups it does not have.\<close>

primrec groups_of :: "rx \<Rightarrow> nat set" where
  "groups_of Empty = {}"
| "groups_of (Chr P) = {}"
| "groups_of (Cat a b) = groups_of a \<union> groups_of b"
| "groups_of (Or a b) = groups_of a \<union> groups_of b"
| "groups_of (Rep g a) = groups_of a"
| "groups_of (Grp n a) = insert n (groups_of a)"
| "groups_of (Look a) = groups_of a"
| "groups_of Bol = {}"
| "groups_of Eos = {}"

lemma rounds_groups:
  assumes "\<And>s t. t \<in> set (f s) \<Longrightarrow> map_of (snd (snd t)) n = map_of (snd (snd s)) n"
  shows "t \<in> set (rounds m g f s) \<Longrightarrow> map_of (snd (snd t)) n = map_of (snd (snd s)) n"
proof (induction m arbitrary: s)
  case (Suc m)
  from Suc.prems have "t = s \<or> (\<exists>u \<in> set (f s). t \<in> set (rounds m g f u))"
    by (auto simp: Let_def split: if_splits)
  with Suc.IH assms show ?case by metis
qed simp

lemma groups_kept:
  "n \<notin> groups_of e \<Longrightarrow> t \<in> set (rx_run e s) \<Longrightarrow> map_of (snd (snd t)) n = map_of (snd (snd s)) n"
proof (induction e arbitrary: s t)
  case (Chr P)
  then show ?case by (cases s) (auto split: list.splits if_splits)
next
  case (Cat a b)
  have "n \<notin> groups_of a" "n \<notin> groups_of b" using Cat.prems(1) by simp_all
  moreover obtain u where "u \<in> set (rx_run a s)" "t \<in> set (rx_run b u)" using Cat.prems(2) by auto
  ultimately show ?case using Cat.IH(1) [of u s] Cat.IH(2) [of t u] by simp
next
  case (Rep g a)
  have "n \<notin> groups_of a" "t \<in> set (rounds (length (fst (snd s))) g (rx_run a) s)" using Rep.prems by simp_all
  then show ?case using rounds_groups [of "rx_run a" n t] Rep.IH by blast
next
  case (Or a b)
  have n: "n \<notin> groups_of a" "n \<notin> groups_of b" using Or.prems(1) by simp_all
  consider "t \<in> set (rx_run a s)" | "t \<in> set (rx_run b s)" using Or.prems(2) by auto
  then show ?case by cases (use Or.IH(1) [OF n(1)] Or.IH(2) [OF n(2)] in blast)+
next
  case (Grp m a)
  have n: "n \<notin> groups_of a" "m \<noteq> n" using Grp.prems(1) by auto
  obtain u where u: "u \<in> set (rx_run a s)" "t = (fst u, fst (snd u), (m, take (fst u - fst s) (fst (snd s))) # snd (snd u))"
    using Grp.prems(2) by auto
  show ?case using Grp.IH [OF n(1) u(1)] n(2) by (simp add: u(2))
next
  case (Look a)
  show ?case
  proof (cases "rx_run a s")
    case (Cons u us)
    then have "map_of (snd (snd u)) n = map_of (snd (snd s)) n" using Look by simp
    then show ?thesis using Look.prems Cons by simp
  qed (use Look in simp)
qed (auto split: if_splits)

text \<open>A match of a group followed by more goes through the end of the group.\<close>

lemma group_member:
  "t \<in> set (rx_run (Cat (Grp n a) e) (i, s, k)) \<Longrightarrow>
    \<exists>j r k'. (j, r, k') \<in> set (rx_run a (i, s, k)) \<and> t \<in> set (rx_run e (j, r, (n, take (j - i) s) # k'))"
  by auto

section \<open>Tokens\<close>

text \<open>
  Where a run of characters is followed by something that cannot start with one of them, the only way
  to match is to take the whole run.
\<close>

definition fails :: "(char \<Rightarrow> bool) \<Rightarrow> rx \<Rightarrow> bool" where
  "fails P e \<longleftrightarrow> (\<forall>c r i k. P c \<longrightarrow> rx_run e (i, c # r, k) = [])"

lemma fails_Chr [simp]: "fails P (Chr Q) \<longleftrightarrow> (\<forall>c. P c \<longrightarrow> \<not> Q c)"
  by (auto simp: fails_def)

lemma fails_Cat [intro]: "fails P a \<Longrightarrow> fails P (Cat a b)"
  by (simp add: fails_def)

lemma fails_Grp [intro]: "fails P a \<Longrightarrow> fails P (Grp n a)"
  by (simp add: fails_def)

definition starts_not :: "(char \<Rightarrow> bool) \<Rightarrow> string \<Rightarrow> bool" where
  "starts_not P r \<longleftrightarrow> (case r of [] \<Rightarrow> True | c # _ \<Rightarrow> \<not> P c)"

lemma starts_not_simps [simp]: "starts_not P []" "starts_not P (c # r) \<longleftrightarrow> \<not> P c"
  by (simp_all add: starts_not_def)

lemma rounds_Chr_stop: "starts_not P r \<Longrightarrow> rounds n g (rx_run (Chr P)) (i, r, k) = [(i, r, k)]"
  by (cases n; cases r) auto

lemma rounds_Chr_Cons:
  "P c \<Longrightarrow> rounds (Suc n) True (rx_run (Chr P)) (i, c # r, k) = rounds n True (rx_run (Chr P)) (Suc i, r, k) @ [(i, c # r, k)]"
  by simp

lemma run_whole:
  assumes h: "\<And>j c w. P c \<Longrightarrow> h (j, c # w, k) = []" and r: "starts_not P r"
  shows "(\<forall>c \<in> set u. P c) \<Longrightarrow> length (u @ r) \<le> n \<Longrightarrow>
    concat (map h (rounds n True (rx_run (Chr P)) (i, u @ r, k))) = h (i + length u, r, k)"
proof (induction u arbitrary: n i)
  case Nil
  then show ?case by (simp only: rounds_Chr_stop [OF r] append_Nil) simp
next
  case (Cons c u)
  then obtain m where n: "n = Suc m" by (cases n) auto
  have "rounds n True (rx_run (Chr P)) (i, (c # u) @ r, k) = rounds m True (rx_run (Chr P)) (Suc i, u @ r, k) @ [(i, c # u @ r, k)]"
    using Cons.prems(1) rounds_Chr_Cons [of P c m i "u @ r" k] by (simp only: n append_Cons) simp
  then show ?case using Cons.IH [of m "Suc i"] Cons.prems h [of c i "u @ r"] by (simp add: n)
qed

lemma star_whole:
  "fails P e \<Longrightarrow> starts_not P r \<Longrightarrow> (\<forall>c \<in> set u. P c) \<Longrightarrow>
   rx_run (Cat (star (Chr P)) e) (i, u @ r, k) = rx_run e (i + length u, r, k)"
  using run_whole [of P "rx_run e" k r u "length (u @ r)" i] by (simp add: star_def fails_def del: rounds.simps)

lemma some_whole:
  "fails P e \<Longrightarrow> starts_not P r \<Longrightarrow> (\<forall>c \<in> set u. P c) \<Longrightarrow> u \<noteq> [] \<Longrightarrow>
   rx_run (Cat (some (Chr P)) e) (i, u @ r, k) = rx_run e (i + length u, r, k)"
  using run_whole [of P "rx_run e" k r "tl u" "length (tl u @ r)" "Suc i"]
  by (cases u) (simp_all add: some_def fails_def del: rounds.simps)

lemma some_none: "\<not> P c \<Longrightarrow> rx_run (Cat (some (Chr P)) e) (i, c # r, k) = []"
  by (simp add: some_def)

lemma rounds_lazy_Cons:
  "P c \<Longrightarrow> rounds (Suc n) False (rx_run (Chr P)) (i, c # r, k) = (i, c # r, k) # rounds n False (rx_run (Chr P)) (Suc i, r, k)"
  by simp

text \<open>A group over the run remembers it.\<close>

lemma map_concat_Grp:
  "rx_run (Cat (Grp n a) e) s = concat (map (\<lambda>t. rx_run e (fst t, fst (snd t), (n, take (fst t - fst s) (fst (snd s))) # snd (snd t))) (rx_run a s))"
  by (simp add: o_def split_beta)

lemma group_whole:
  assumes "fails P e" and "starts_not P r" and "\<forall>c \<in> set u. P c" and "u \<noteq> []"
  shows "rx_run (Cat (Grp n (some (Chr P))) e) (i, u @ r, k) = rx_run e (i + length u, r, (n, u) # k)"
proof -
  obtain c v where u: "u = c # v" "P c" "\<forall>c \<in> set v. P c" using assms(3,4) by (cases u) auto
  let ?h = "\<lambda>t. rx_run e (fst t, fst (snd t), (n, take (fst t - i) (u @ r)) # snd (snd t))"
  have "concat (map ?h (rounds (length (v @ r)) True (rx_run (Chr P)) (Suc i, v @ r, k))) = ?h (Suc i + length v, r, k)"
    by (rule run_whole) (use assms(1,2) u(3) in \<open>simp_all add: fails_def\<close>)
  then show ?thesis using u unfolding some_def map_concat_Grp by (simp del: rounds.simps)
qed

lemma lit_run: "rx_run (Cat (lit t) e) (i, t @ r, k) = rx_run e (i + length t, r, k)"
  by (induction t arbitrary: i) (simp_all add: lit_def)

lemma lit_none: "take (length t) r \<noteq> t \<Longrightarrow> rx_run (Cat (lit t) e) (i, r, k) = []"
  using rx_run_none [of "Cat (lit t) e" i r k] lit_prefix [of i r _ t e] by blast

lemma lit_first: "d \<noteq> c \<Longrightarrow> rx_run (Cat (lit (c # t)) e) (i, d # r, k) = []" "rx_run (Cat (lit (c # t)) e) (i, [], k) = []"
  by (rule lit_none, simp)+

lemma lit_one: "lit [c] = Cat (Chr (\<lambda>d. d = c)) Empty"
  by (simp add: lit_def)

lemma run_one: "rx_run (Cat (lit [c]) e) (i, c # r, k) = rx_run e (Suc i, r, k)"
  by (simp add: lit_one)

lemma cats_simps [simp]: "cats [] = Empty" "cats (e # es) = Cat e (cats es)"
  by (simp_all add: cats_def)

lemma Or_run: "rx_run (Cat (Or a b) e) s = rx_run (Cat a e) s @ rx_run (Cat b e) s"
  by simp

lemma Cat_assoc: "rx_run (Cat (Cat a b) e) s = rx_run (Cat a (Cat b e)) s"
proof -
  have "concat (map (rx_run e) (concat (map (rx_run b) ts))) = concat (map (rx_run (Cat b e)) ts)" for ts
    by (induction ts) simp_all
  then show ?thesis by simp
qed

text \<open>At the end of an expression a run is taken as a whole first.\<close>

lemma rounds_first:
  assumes "starts_not P r"
  shows "(\<forall>c \<in> set u. P c) \<Longrightarrow> length (u @ r) \<le> n \<Longrightarrow>
    \<exists>ts. rounds n True (rx_run (Chr P)) (i, u @ r, k) = (i + length u, r, k) # ts"
proof (induction u arbitrary: n i)
  case Nil
  then show ?case by (simp only: rounds_Chr_stop [OF assms] append_Nil) simp
next
  case (Cons c u)
  then obtain m where n: "n = Suc m" by (cases n) auto
  have "rounds n True (rx_run (Chr P)) (i, (c # u) @ r, k) = rounds m True (rx_run (Chr P)) (Suc i, u @ r, k) @ [(i, c # u @ r, k)]"
    using Cons.prems(1) rounds_Chr_Cons [of P c m i "u @ r" k] by (simp only: n append_Cons) simp
  then show ?case using Cons.IH [of m "Suc i"] Cons.prems by (auto simp: n)
qed

lemma star_first:
  assumes "starts_not P r" and "\<forall>c \<in> set u. P c"
  shows "\<exists>ts. rx_run (Cat (star (Chr P)) Empty) (i, u @ r, k) = (i + length u, r, k) # ts"
  using rounds_first [OF assms, of "length (u @ r)" i k] by (auto simp: star_def simp del: rounds.simps)

lemma star_head:
  assumes "starts_not P r" and "\<forall>c \<in> set u. P c"
  shows "\<exists>ws. rx_run (Cat (star (Chr P)) e) (i, u @ r, k) = rx_run e (i + length u, r, k) @ ws"
  using rounds_first [OF assms, of "length (u @ r)" i k] by (auto simp: star_def simp del: rounds.simps)

lemma group_first:
  assumes "starts_not P r" and "\<forall>c \<in> set u. P c" and "u \<noteq> []"
  shows "\<exists>ts. rx_run (Cat (Grp n (some (Chr P))) Empty) (i, u @ r, k) = (i + length u, r, (n, u) # k) # ts"
proof -
  obtain c v where u: "u = c # v" "P c" "\<forall>c \<in> set v. P c" using assms(2,3) by (cases u) auto
  obtain ts where "rounds (length (v @ r)) True (rx_run (Chr P)) (Suc i, v @ r, k) = (Suc i + length v, r, k) # ts"
    using rounds_first [OF assms(1) u(3), of "length (v @ r)" "Suc i" k] by auto
  then show ?thesis using u unfolding some_def map_concat_Grp by (simp del: rounds.simps)
qed

section \<open>Where a search ends\<close>

lemma rx_exec_hit: "rx_run e (i, s, []) = (j, r, k) # ts \<Longrightarrow> rx_exec e i s = Some (i, j, k)"
  by (simp add: rx_exec.simps [of e i])

lemma rx_exec_skip: "rx_run e (i, c # s, []) = [] \<Longrightarrow> rx_exec e i (c # s) = rx_exec e (Suc i) s"
  by (simp add: rx_exec.simps [of e i])

lemma rx_exec_prefix:
  "(\<And>i c r. c \<in> set p \<Longrightarrow> rx_run e (i, c # r, []) = []) \<Longrightarrow> rx_exec e i (p @ s) = rx_exec e (i + length p) s"
  by (induction p arbitrary: i) (simp_all add: rx_exec_skip)

lemma rx_exec_None_iff: "rx_exec e i s = None \<longleftrightarrow> (\<forall>j \<le> length s. (i + j, drop j s) \<notin> Domain (rx_rel e))"
proof (induction s arbitrary: i)
  case Nil
  show ?case using rx_run_none [of e i "[]" "[]"] by (auto simp: rx_exec.simps [of e i] split: list.splits)
next
  case (Cons c s)
  have "(\<forall>j \<le> length (c # s). (i + j, drop j (c # s)) \<notin> Domain (rx_rel e))
      \<longleftrightarrow> (i, c # s) \<notin> Domain (rx_rel e) \<and> (\<forall>j \<le> length s. (Suc i + j, drop j s) \<notin> Domain (rx_rel e))"
    by (auto simp: All_less_Suc2 less_Suc_eq_le [symmetric])
  then show ?case
    using Cons.IH [of "Suc i"] rx_run_none [of e i "c # s" "[]"] by (auto simp: rx_exec.simps [of e i] split: list.splits)
qed

lemma rx_exec_end: "rx_run e (i, [], []) = [] \<Longrightarrow> rx_exec e i [] = None"
  by (simp add: rx_exec.simps [of e i])

text \<open>The runs of a character class.\<close>

lemma rel_star_Chr: "rx_rel (Rep g (Chr P)) = {((i, u @ r), (i + length u, r)) | i u r. \<forall>c \<in> set u. P c}"
proof -
  have "x \<in> {((i, u @ r), (i + length u, r)) | i u r. \<forall>c \<in> set u. P c}" if "x \<in> (rx_rel (Chr P))\<^sup>*" for x
  proof -
    obtain y z where x: "x = (y, z)" by (cases x)
    from that show ?thesis unfolding x
    proof (induction rule: converse_rtrancl_induct)
      case base
      show ?case by (cases z) (auto intro: exI [of _ "[]"])
    next
      case (step v w)
      then obtain i c r where v: "v = (i, c # r)" "w = (Suc i, r)" "P c" by auto
      with step.IH obtain u r' where u: "r = u @ r'" "z = (Suc i + length u, r')" "\<forall>c \<in> set u. P c" by auto
      have "c # r = (c # u) @ r'" "z = (i + length (c # u), r')" "\<forall>d \<in> set (c # u). P d" using u v by simp_all
      then show ?case unfolding v by blast
    qed
  qed
  moreover have "((i, u @ r), (i + length u, r)) \<in> (rx_rel (Chr P))\<^sup>*" if "\<forall>c \<in> set u. P c" for i u r
    using that
  proof (induction u arbitrary: i)
    case (Cons c u)
    have "((i, (c # u) @ r), (Suc i, u @ r)) \<in> rx_rel (Chr P)" using Cons.prems by auto
    moreover have "((Suc i, u @ r), (Suc i + length u, r)) \<in> (rx_rel (Chr P))\<^sup>*"
      by (rule Cons.IH) (use Cons.prems in simp)
    ultimately have "((i, (c # u) @ r), (Suc i + length u, r)) \<in> (rx_rel (Chr P))\<^sup>*"
      by (rule converse_rtrancl_into_rtrancl)
    then show ?case by simp
  qed simp
  ultimately show ?thesis by auto
qed

lemma rel_some_Chr: "rx_rel (some (Chr P)) = {((i, u @ r), (i + length u, r)) | i u r. u \<noteq> [] \<and> (\<forall>c \<in> set u. P c)}"
proof -
  have "rx_rel (some (Chr P)) = rx_rel (Chr P) O {((i, u @ r), (i + length u, r)) | i u r. \<forall>c \<in> set u. P c}"
    by (simp only: some_def rx_rel.simps(3) rel_star_Chr)
  also have "\<dots> = {((i, u @ r), (i + length u, r)) | i u r. u \<noteq> [] \<and> (\<forall>c \<in> set u. P c)}"
  proof (intro set_eqI iffI)
    fix x assume "x \<in> rx_rel (Chr P) O {((i, u @ r), (i + length u, r)) | i u r. \<forall>c \<in> set u. P c}"
    then obtain i c u r where "x = ((i, (c # u) @ r), (i + length (c # u), r))" "\<forall>d \<in> set (c # u). P d" by auto
    then show "x \<in> {((i, u @ r), (i + length u, r)) | i u r. u \<noteq> [] \<and> (\<forall>c \<in> set u. P c)}" by blast
  next
    fix x assume "x \<in> {((i, u @ r), (i + length u, r)) | i u r. u \<noteq> [] \<and> (\<forall>c \<in> set u. P c)}"
    then obtain i u r where x: "x = ((i, u @ r), (i + length u, r))" "u \<noteq> []" "\<forall>c \<in> set u. P c" by blast
    then obtain c v where u: "u = c # v" by (cases u) auto
    have "((i, c # v @ r), (Suc i, v @ r)) \<in> rx_rel (Chr P)" using x u by auto
    moreover have "((Suc i, v @ r), (Suc i + length v, r)) \<in> {((i, u @ r), (i + length u, r)) | i u r. \<forall>c \<in> set u. P c}"
      using x u by auto
    ultimately show "x \<in> rx_rel (Chr P) O {((i, u @ r), (i + length u, r)) | i u r. \<forall>c \<in> set u. P c}"
      using x u by (auto intro: relcompI)
  qed
  finally show ?thesis .
qed

text \<open>Only the anchor \<open>^\<close> looks at the position.\<close>

primrec no_bol :: "rx \<Rightarrow> bool" where
  "no_bol Empty = True"
| "no_bol (Chr P) = True"
| "no_bol (Cat a b) = (no_bol a \<and> no_bol b)"
| "no_bol (Or a b) = (no_bol a \<and> no_bol b)"
| "no_bol (Rep g a) = no_bol a"
| "no_bol (Grp n a) = no_bol a"
| "no_bol (Look a) = no_bol a"
| "no_bol Bol = False"
| "no_bol Eos = True"

lemma star_le: "(x, y) \<in> (rx_rel e)\<^sup>* \<Longrightarrow> fst x \<le> fst y"
  using rel_le [of x y "Rep True e"] by simp

lemma move_rel: "no_bol e \<Longrightarrow> (x, y) \<in> rx_rel e \<Longrightarrow> ((i, snd x), (i + (fst y - fst x), snd y)) \<in> rx_rel e"
proof (induction e arbitrary: x y i)
  case (Chr P)
  then show ?case by auto
next
  case (Cat a b)
  have nb: "no_bol a" "no_bol b" using Cat.prems(1) by simp_all
  obtain z where z: "(x, z) \<in> rx_rel a" "(z, y) \<in> rx_rel b" using Cat.prems(2) by auto
  have "((i, snd x), (i + (fst z - fst x), snd z)) \<in> rx_rel a" by (rule Cat.IH(1) [OF nb(1) z(1)])
  moreover have "((i + (fst z - fst x), snd z), (i + (fst z - fst x) + (fst y - fst z), snd y)) \<in> rx_rel b"
    by (rule Cat.IH(2) [OF nb(2) z(2)])
  moreover have "i + (fst z - fst x) + (fst y - fst z) = i + (fst y - fst x)"
    using rel_le [OF z(1)] rel_le [OF z(2)] by simp
  ultimately show ?case by (metis relcompI rx_rel.simps(3))
next
  case (Rep g a)
  have nb: "no_bol a" using Rep.prems(1) by simp
  from Rep.prems(2) have "(x, y) \<in> (rx_rel a)\<^sup>*" by simp
  then have "((i, snd x), (i + (fst y - fst x), snd y)) \<in> (rx_rel a)\<^sup>*"
  proof (induction rule: rtrancl_induct)
    case (step y z)
    have "((i + (fst y - fst x), snd y), (i + (fst y - fst x) + (fst z - fst y), snd z)) \<in> rx_rel a"
      by (rule Rep.IH [OF nb step(2)])
    moreover have "i + (fst y - fst x) + (fst z - fst y) = i + (fst z - fst x)"
      using star_le [OF step(1)] rel_le [OF step(2)] by simp
    ultimately show ?case using step.IH by (metis rtrancl.rtrancl_into_rtrancl)
  qed simp
  then show ?case by simp
next
  case (Look a)
  then obtain z where "(x, z) \<in> rx_rel a" "y = x" "no_bol a" by auto
  with Look.IH [of x z i] show ?case by (auto simp: Id_on_iff)
qed auto

lemma move_Domain: "no_bol e \<Longrightarrow> (i, s) \<in> Domain (rx_rel e) \<Longrightarrow> (j, s) \<in> Domain (rx_rel e)"
  using move_rel [of e "(i, s)" _ j] by (fastforce simp: Domain_iff)

lemma shift_exec_None: "no_bol e \<Longrightarrow> exec e s = None \<Longrightarrow> rx_exec e i s = None"
  unfolding exec_def rx_exec_None_iff using move_Domain by fastforce

text \<open>From here on a match is computed step by step, by the lemmas above.\<close>

declare rx_run.simps [simp del] rounds.simps [simp del]

end
