(* ===== verification/HclErrors.thy ===== *)
theory HclErrors
  imports JsRegExp
begin

text \<open>
  \<open>parseHCLErrors\<close> of \<open>utils.js\<close>: the errors of the pipeline parser as diagnostics of the editor. Two
  kinds of error are recognised by regular expressions: those with a position in the file, and those
  of a block whose \<open>source\<close> could not be resolved; any other text is one diagnostic on line 1.

  Lemmas: a non-blank error always gives a diagnostic; an error printed the way the HCL parser prints
  it reads back to its line, its columns and its message (the end line of a range is lost), one of a source to
  its block; messages never start or
  end blank.
\<close>

section \<open>Definitions\<close>

datatype diag =
    is_LineDiag: LineDiag (d_line: int) (d_colStart: int) (d_colEnd: int) (d_message: string)
  | SourceDiag (d_blockType: string) (d_blockName: string) (d_attribute: string) (d_message: string)

text \<open>\<open>((?:pipeline\.hcl|<stdin>):\d+,\d+-(?:\d+,)?\d+:\s*)\<close>.\<close>

definition header_rx :: rx where
  "header_rx = Grp 1 (cats [Or (lit ''pipeline.hcl'') (lit ''<stdin>''), lit '':'', some digit, lit '','', some digit, lit ''-'',
     opt (cats [some digit, lit '','']), some digit, lit '':'', star space])"

text \<open>\<open>(\d+),(\d+)-(?:(\d+),)?(\d+)\<close>.\<close>

definition range_rx :: rx where
  "range_rx = cats [Grp 1 (some digit), lit '','', Grp 2 (some digit), lit ''-'',
     opt (cats [Grp 3 (some digit), lit '','']), Grp 4 (some digit)]"

text \<open>\<open>[;\s]+$\<close>.\<close>

definition tail_rx :: rx where
  "tail_rx = cats [some (Chr (\<lambda>c. c = CHR '';'' \<or> is_blank c)), Eos]"

text \<open>\<open>failed to resolve source for (\w+)\s+"([^"]+)":\s*(.+?)(?=failed to resolve source for|$)\<close>.\<close>

definition source_rx :: rx where
  "source_rx = cats [lit ''failed to resolve source for '', Grp 1 (some word), some space, lit [quote], Grp 2 unquoted, lit [quote],
     lit '':'', star space, Grp 3 (some_lazy dot), Look (Or (lit ''failed to resolve source for'') Eos)]"

text \<open>\<open>s.split(re)\<close> where the whole of \<open>re\<close> is a group: texts between matches and the matches alternate.\<close>

fun split_from :: "nat \<Rightarrow> string \<Rightarrow> (nat \<times> nat \<times> groups) list \<Rightarrow> string list" where
  "split_from p s [] = [drop p s]"
| "split_from p s ((a, b, k) # ms) = take (a - p) (drop p s) # group_text k 1 # split_from b s ms"

definition split_rx :: "rx \<Rightarrow> string \<Rightarrow> string list" where
  "split_rx e s = split_from 0 s (exec_all e s)"

text \<open>\<open>for (let i = 1; i < parts.length; i += 2)\<close>: \<open>parts[i]\<close> with \<open>parts[i + 1] || ''\<close>.\<close>

fun header_bodies :: "string list \<Rightarrow> (string \<times> string) list" where
  "header_bodies (p # h # ps) = (h, case ps of [] \<Rightarrow> '''' | b # _ \<Rightarrow> b) # header_bodies ps"
| "header_bodies ps = []"

text \<open>\<open>s.replace(/[;\s]+$/, '').trim()\<close>.\<close>

definition strip_end :: "string \<Rightarrow> string" where
  "strip_end s = (case exec tail_rx s of None \<Rightarrow> s | Some (a, b, _) \<Rightarrow> take a s @ drop b s)"

definition clean_message :: "string \<Rightarrow> string" where
  "clean_message s = js_trim (strip_end s)"

definition header_diag :: "string \<times> string \<Rightarrow> diag list" where
  "header_diag = (\<lambda>(header, rest).
     let body = js_trim rest in
     (case exec range_rx header of
        None \<Rightarrow> []
      | Some (_, _, hm) \<Rightarrow>
          (let msg = clean_message body in
           if msg = '''' then []
           else [LineDiag (int (digits_val (group_text hm 1))) (int (digits_val (group_text hm 2)))
                   (int (digits_val (group_text hm 4))) msg])))"

definition source_diag :: "groups \<Rightarrow> diag" where
  "source_diag sm = SourceDiag (group_text sm 1) (group_text sm 2) ''source'' (clean_message (group_text sm 3))"

definition parseHCLErrors :: "string \<Rightarrow> diag list" where
  "parseHCLErrors errorStr =
     (let results = concat (map header_diag (header_bodies (split_rx header_rx errorStr)))
                    @ map (\<lambda>(_, _, sm). source_diag sm) (exec_all source_rx errorStr)
      in if results = [] \<and> js_trim errorStr \<noteq> '''' then [LineDiag 1 1 2 (js_trim errorStr)] else results)"

section \<open>Blank text\<close>

lemma js_trim_Nil_iff: "js_trim s = '''' \<longleftrightarrow> (\<forall>c \<in> set s. is_blank c)"
  by (auto simp: js_trim_def dropWhile_eq_Nil_conv dest: set_dropWhileD) (metis dropWhile_eq_Nil_conv hd_dropWhile hd_in_set)

lemma exec_all_None: "exec e s = None \<Longrightarrow> exec_all e s = []"
  by (simp add: exec_all_def exec_def)

text \<open>An expression that starts with a literal finds nothing in a text without its first character.\<close>

lemma lit_absent: "c \<notin> set s \<Longrightarrow> exec (Cat (lit (c # t)) e) s = None"
proof -
  assume c: "c \<notin> set s"
  have "rx_run (Cat (lit (c # t)) e) (i, d # r, []) = []" if "d \<in> set s" for i d r
    using that c lit_none [of "c # t" "d # r" e i "[]"] by (metis list.inject take_Cons' list.size(4) list.distinct(1) nat.distinct(1) add_Suc_right)
  then have "rx_exec (Cat (lit (c # t)) e) 0 (s @ []) = rx_exec (Cat (lit (c # t)) e) (0 + length s) []"
    by (rule rx_exec_prefix)
  also have "\<dots> = None" using lit_none [of "c # t" "[]" e "length s" "[]"] by (intro rx_exec_end) simp
  finally show ?thesis by (simp add: exec_def)
qed

section \<open>The end of a message\<close>

abbreviation tail_char :: "char \<Rightarrow> bool" where
  "tail_char c \<equiv> c = CHR '';'' \<or> is_blank c"

lemma tail_rel: "rx_rel tail_rx = {((i, u), (i + length u, [])) | i u. u \<noteq> [] \<and> (\<forall>c \<in> set u. tail_char c)}"
proof -
  have "rx_rel tail_rx = {((i, u @ r), (i + length u, r)) | i u r. u \<noteq> [] \<and> (\<forall>c \<in> set u. tail_char c)} O {((i, []), (i, [])) | i. True}"
    unfolding tail_rx_def cats_simps rx_rel.simps rel_some_Chr by simp
  also have "\<dots> = {((i, u), (i + length u, [])) | i u. u \<noteq> [] \<and> (\<forall>c \<in> set u. tail_char c)}"
  proof (intro set_eqI iffI)
    fix x assume "x \<in> {((i, u), (i + length u, [])) | i u. u \<noteq> [] \<and> (\<forall>c \<in> set u. tail_char c)}"
    then obtain i u where x: "x = ((i, u @ []), (i + length u, []))" "u \<noteq> []" "\<forall>c \<in> set u. tail_char c" by auto
    have "((i + length u, []), (i + length u, [])) \<in> {((i, []), (i, [])) | i. True}" by simp
    moreover have "((i, u @ []), (i + length u, [])) \<in> {((i, u @ r), (i + length u, r)) | i u r. u \<noteq> [] \<and> (\<forall>c \<in> set u. tail_char c)}"
      using x by blast
    ultimately show "x \<in> {((i, u @ r), (i + length u, r)) | i u r. u \<noteq> [] \<and> (\<forall>c \<in> set u. tail_char c)} O {((i, []), (i, [])) | i. True}"
      unfolding x(1) by (rule relcompI [rotated])
  qed auto
  finally show ?thesis .
qed

lemma strip_end_eq: "strip_end s = rev (dropWhile tail_char (rev s))"
proof (cases "exec tail_rx s")
  case None
  then have "(length (butlast s), drop (length (butlast s)) s) \<notin> Domain (rx_rel tail_rx)"
    unfolding exec_def rx_exec_None_iff by auto
  then have "s = [] \<or> \<not> tail_char (last s)"
    by (cases s rule: rev_cases) (auto simp: tail_rel Domain_iff)
  then have "dropWhile tail_char (rev s) = rev s" by (cases s rule: rev_cases) auto
  then show ?thesis using None by (simp add: strip_end_def)
next
  case (Some abk)
  then obtain a b k where e: "exec tail_rx s = Some (a, b, k)" by (cases abk) auto
  from exec_Some(3) [OF e] have u: "drop b s = []" "\<forall>c \<in> set (drop a s). tail_char c" by (auto simp: tail_rel)
  have "a = 0 \<or> \<not> tail_char (last (take a s))"
  proof (rule disjCI)
    assume "\<not> \<not> tail_char (last (take a s))"
    then have l: "tail_char (last (take a s))" by simp
    show "a = 0"
    proof (rule ccontr)
      assume "a \<noteq> 0"
      moreover have "a \<le> length s" using exec_Some(1,2) [OF e] by simp
      ultimately obtain n where n: "a = Suc n" "n < length s" by (cases a) auto
      then have "drop (a - 1) s = last (take a s) # drop a s"
        by (simp add: Cons_nth_drop_Suc take_Suc_conv_app_nth)
      then have "(a - 1, drop (a - 1) s) \<in> Domain (rx_rel tail_rx)" using u l by (auto simp: tail_rel Domain_iff)
      then show False using exec_Some(5) [OF e, of "a - 1"] \<open>a \<noteq> 0\<close> by simp
    qed
  qed
  then have "dropWhile tail_char (rev (take a s)) = rev (take a s)"
    by (cases "take a s" rule: rev_cases) auto
  moreover have "rev s = rev (drop a s) @ rev (take a s)" by (metis append_take_drop_id rev_append)
  moreover have "dropWhile tail_char (rev (drop a s) @ rev (take a s)) = dropWhile tail_char (rev (take a s))"
    by (rule dropWhile_append2) (use u in auto)
  ultimately show ?thesis using u e by (simp add: strip_end_def)
qed

text \<open>A message is clean: it neither starts nor ends blank, and it does not end in a semicolon.\<close>

definition clean :: "string \<Rightarrow> bool" where
  "clean m \<longleftrightarrow> m = '''' \<or> (\<not> is_blank (hd m) \<and> \<not> tail_char (last m))"

lemma last_dropWhile_same: "dropWhile P s \<noteq> [] \<Longrightarrow> last (dropWhile P s) = last s"
  by (metis last_appendR takeWhile_dropWhile_id)

lemma dropWhile_hd_not: "s = [] \<or> \<not> P (hd s) \<Longrightarrow> dropWhile P s = s"
  by (cases s) auto

lemma rev_dropWhile_last: "s = [] \<or> \<not> P (last s) \<Longrightarrow> rev (dropWhile P (rev s)) = s"
  by (simp add: dropWhile_hd_not hd_rev)

lemma clean_message_id: "clean m \<Longrightarrow> clean_message m = m"
proof -
  assume "clean m"
  then have "dropWhile is_blank m = m" "rev (dropWhile is_blank (rev m)) = m" "strip_end m = m"
    by (auto simp: clean_def strip_end_eq intro!: dropWhile_hd_not rev_dropWhile_last)
  then show ?thesis by (simp add: clean_message_def js_trim_def)
qed

lemma clean_clean_message: "clean (clean_message m)"
proof -
  let ?s = "strip_end m"
  let ?t = "dropWhile is_blank ?s"
  have "?s = [] \<or> \<not> tail_char (last ?s)"
    unfolding strip_end_eq by (cases "dropWhile tail_char (rev m)") (auto simp: last_rev dest: dropWhile_eq_Cons_conv [THEN iffD1])
  then have l: "?t = [] \<or> \<not> tail_char (last ?t)" by (metis dropWhile.simps(1) last_dropWhile_same)
  then have "clean_message m = ?t" unfolding clean_message_def js_trim_def by (intro rev_dropWhile_last) auto
  then show ?thesis using l hd_dropWhile [of is_blank ?s] by (auto simp: clean_def)
qed

section \<open>Reading back a printed error\<close>

text \<open>
  How the parser prints an error: the file, the range, and the message. The end of the range has a
  line of its own when it is not the line it starts on.
\<close>

definition hcl_range :: "nat \<Rightarrow> nat \<Rightarrow> nat option \<Rightarrow> nat \<Rightarrow> string" where
  "hcl_range l c el ec = nat_str l @ '','' @ nat_str c @ ''-'' @ (case el of None \<Rightarrow> '''' | Some n \<Rightarrow> nat_str n @ '','') @ nat_str ec"

definition hcl_header :: "bool \<Rightarrow> nat \<Rightarrow> nat \<Rightarrow> nat option \<Rightarrow> nat \<Rightarrow> string" where
  "hcl_header stdin l c el ec = (if stdin then ''<stdin>'' else ''pipeline.hcl'') @ '':'' @ hcl_range l c el ec @ '': ''"

definition source_error :: "string \<Rightarrow> string \<Rightarrow> string \<Rightarrow> string" where
  "source_error ty name msg = ''failed to resolve source for '' @ ty @ '' '' @ [quote] @ name @ [quote] @ '': '' @ msg"

lemma nat_str_all_digits: "\<forall>c \<in> set (nat_str n). is_digit c"
  using nat_str_digits by blast

lemma digit_facts [simp]: "\<not> is_digit CHR '',''" "\<not> is_digit CHR ''-''" "\<not> is_digit CHR '':''" "\<not> is_blank CHR '':''"
  "is_blank CHR '' ''" "\<not> is_digit CHR '' ''" "\<not> word_char CHR '' ''" "\<not> is_blank quote"
  by (simp_all add: is_digit_def is_blank_def word_char_def quote_def)

lemma fails_lit: "\<not> P c \<Longrightarrow> fails P (Cat (lit (c # t)) e)"
  by (auto simp: fails_def lit_def rx_run.simps)

lemma number_whole:
  "fails is_digit e \<Longrightarrow> starts_not is_digit w \<Longrightarrow>
   rx_run (Cat (some digit) e) (j, nat_str n @ w, k) = rx_run e (j + length (nat_str n), w, k)"
  unfolding digit_def by (rule some_whole) (simp_all add: nat_str_all_digits)

lemma number_group:
  "fails is_digit e \<Longrightarrow> starts_not is_digit w \<Longrightarrow>
   rx_run (Cat (Grp g (some digit)) e) (j, nat_str n @ w, k) = rx_run e (j + length (nat_str n), w, (g, nat_str n) # k)"
  unfolding digit_def by (rule group_whole) (simp_all add: nat_str_all_digits)

text \<open>The optional line of the end of the range.\<close>

lemma opt_line:
  assumes a: "\<not> is_digit a" and "a \<noteq> CHR '',''"
  shows "rx_run (Cat (opt (cats [some digit, lit '','']) ) (Cat (some digit) (Cat (lit (a # u)) f)))
      (i, (case el of None \<Rightarrow> '''' | Some n \<Rightarrow> nat_str n @ '','') @ nat_str ec @ a # u @ r, k)
    = rx_run f (i + length ((case el of None \<Rightarrow> '''' | Some n \<Rightarrow> nat_str n @ '','') @ nat_str ec @ a # u), r, k)"
proof -
  let ?rest = "Cat (some digit) (Cat (lit (a # u)) f)"
  let ?line = "Cat (some digit) (Cat (lit '','') Empty)"
  note whole = number_whole
  have last_num: "rx_run ?rest (j, nat_str ec @ a # u @ r, k) = rx_run f (j + length (nat_str ec) + Suc (length u), r, k)" for j
    using whole [OF fails_lit [where P = is_digit, OF a], of "a # u @ r"] a lit_run [of "a # u" f _ r k] by simp
  have comma: "rx_run ?rest (j, nat_str n @ CHR '','' # w, k) = []" for j n w
    using whole [OF fails_lit [where P = is_digit, OF a], of "CHR '','' # w"] lit_none [of "a # u" "CHR '','' # w" f] assms(2) by simp
  have line: "rx_run ?line (j, nat_str n @ CHR '','' # w, k) = [(j + length (nat_str n) + 1, w, k)]" for j n w
    using whole [of "Cat (lit '','') Empty" "CHR '','' # w"] lit_run [of "'',''" Empty _ w k] rx_run.simps(1) by (simp add: fails_lit)
  have no_line: "rx_run ?line (j, nat_str n @ a # w, k) = []" for j n w
    using whole [of "Cat (lit '','') Empty" "a # w"] a lit_none [of "'',''" "a # w" Empty] assms(2) by (simp add: fails_lit)
  have run: "rx_run (Cat (opt (cats [some digit, lit '','']) ) ?rest) s = concat (map (rx_run ?rest) (rx_run ?line s)) @ rx_run ?rest s" for s
    by (simp add: opt_def rx_run.simps)
  show ?thesis
  proof (cases el)
    case None
    then show ?thesis using no_line [of i ec "u @ r"] last_num [of i] unfolding run by (simp add: add.assoc)
  next
    case (Some n)
    then show ?thesis using line [of i n "nat_str ec @ a # u @ r"] comma [of i n "nat_str ec @ a # u @ r"] last_num
      unfolding run by (simp add: add.assoc)
  qed
qed

lemma header_run:
  assumes "starts_not is_blank msg"
  shows "\<exists>ts. rx_run header_rx (0, hcl_header stdin l c el ec @ msg, []) =
    (length (hcl_header stdin l c el ec), msg, [(1, hcl_header stdin l c el ec)]) # ts"
proof -
  let ?el = "case el of None \<Rightarrow> '''' | Some n \<Rightarrow> nat_str n @ '','' "
  let ?fin = "Cat (star space) Empty"
  let ?range = "Cat (opt (cats [some digit, lit '','']) ) (Cat (some digit) (Cat (lit '':'') ?fin))"
  let ?pos = "Cat (some digit) (Cat (lit '','') (Cat (some digit) (Cat (lit ''-'') ?range)))"
  let ?file = "if stdin then ''<stdin>'' else ''pipeline.hcl''"
  have tail: "\<exists>ts. rx_run ?fin (i, '' '' @ msg, []) = (i + 1, msg, []) # ts" for i
    using star_first [OF assms, of "'' ''" i "[]"] by (auto simp: space_def)
  have pos: "\<exists>ts. rx_run ?pos (i, hcl_range l c el ec @ '': '' @ msg, []) = (i + length (hcl_range l c el ec) + 2, msg, []) # ts" for i
  proof -
    have "rx_run ?pos (i, hcl_range l c el ec @ '': '' @ msg, [])
        = rx_run ?range (i + length (nat_str l) + 1 + length (nat_str c) + 1, ?el @ nat_str ec @ CHR '':'' # '''' @ '' '' @ msg, [])"
      using number_whole [OF fails_lit] lit_run [of "'',''"] lit_run [of "''-''"] by (simp add: hcl_range_def)
    also have "\<dots> = rx_run ?fin (i + length (hcl_range l c el ec) + 1, '' '' @ msg, [])"
      by (subst opt_line) (simp_all add: hcl_range_def add.assoc)
    finally show ?thesis using tail [of "i + length (hcl_range l c el ec) + 1"] by simp
  qed
  have file_run: "\<exists>us ws. rx_run (Cat (Or (lit ''pipeline.hcl'') (lit ''<stdin>'')) e) (0, ?file @ w, []) = us @ rx_run e (length ?file, w, []) @ ws
      \<and> us = []" for e w
  proof (cases stdin)
    case True
    then show ?thesis using lit_none [of "''pipeline.hcl''" "''<stdin>'' @ w" e] lit_run [of "''<stdin>''" e 0 w "[]"] by (simp add: Or_run)
  next
    case False
    then show ?thesis using lit_run [of "''pipeline.hcl''" e 0 w "[]"] by (simp add: Or_run)
  qed
  let ?X = "cats [Or (lit ''pipeline.hcl'') (lit ''<stdin>''), lit '':'', some digit, lit '','', some digit, lit ''-'',
     opt (cats [some digit, lit '','']), some digit, lit '':'', star space]"
  obtain ws where "rx_run ?X (0, ?file @ '':'' @ hcl_range l c el ec @ '': '' @ msg, [])
      = rx_run (Cat (lit '':'') ?pos) (length ?file, '':'' @ hcl_range l c el ec @ '': '' @ msg, []) @ ws"
    using file_run [of "Cat (lit '':'') ?pos" "'':'' @ hcl_range l c el ec @ '': '' @ msg"] by auto
  then have "\<exists>ts. rx_run ?X (0, hcl_header stdin l c el ec @ msg, []) = (length (hcl_header stdin l c el ec), msg, []) # ts"
    using lit_run [of "'':''" ?pos "length ?file" "hcl_range l c el ec @ '': '' @ msg" "[]"] pos [of "length ?file + 1"]
    by (auto simp: hcl_header_def)
  then show ?thesis unfolding header_rx_def by (auto simp: rx_run.simps(6))
qed

lemma range_run:
  "\<exists>ts j r. rx_run range_rx (i, hcl_range l c el ec @ '': '', []) =
     (j, r, (4, nat_str ec) # (case el of None \<Rightarrow> [] | Some n \<Rightarrow> [(3, nat_str n)]) @ [(2, nat_str c), (1, nat_str l)]) # ts"
proof -
  let ?el = "case el of None \<Rightarrow> '''' | Some n \<Rightarrow> nat_str n @ '','' "
  let ?k = "[(2, nat_str c), (1, nat_str l)]"
  let ?fin = "Cat (Grp 4 (some digit)) Empty"
  let ?line = "Cat (Grp 3 (some digit)) (Cat (lit '','') Empty)"
  have last_num: "\<exists>ts. rx_run ?fin (j, nat_str ec @ '': '', k) = (j + length (nat_str ec), '': '', (4, nat_str ec) # k) # ts" for j k
    using group_first [of is_digit "'': ''" "nat_str ec" 4 j k] nat_str_all_digits unfolding digit_def by auto
  have line: "rx_run ?line (j, nat_str n @ CHR '','' # w, k) = [(j + length (nat_str n) + 1, w, (3, nat_str n) # k)]" for j n w k
    using number_group [of "Cat (lit '','') Empty" "CHR '','' # w"] lit_run [of "'',''" Empty _ w] rx_run.simps(1) by (simp add: fails_lit)
  have no_line: "rx_run ?line (j, nat_str n @ CHR '':'' # w, k) = []" for j n w k
    using number_group [of "Cat (lit '','') Empty" "CHR '':'' # w"] lit_none [of "'',''" "CHR '':'' # w" Empty] by (simp add: fails_lit)
  have run: "rx_run (Cat (opt (cats [Grp 3 (some digit), lit '','']) ) ?fin) s = concat (map (rx_run ?fin) (rx_run ?line s)) @ rx_run ?fin s" for s
    by (simp add: opt_def rx_run.simps)
  let ?i = "i + length (nat_str l) + 1 + length (nat_str c) + 1"
  have start: "rx_run range_rx (i, hcl_range l c el ec @ '': '', [])
      = rx_run (Cat (opt (cats [Grp 3 (some digit), lit '','']) ) ?fin) (?i, ?el @ nat_str ec @ '': '', ?k)"
    using number_group [OF fails_lit] lit_run [of "'',''"] lit_run [of "''-''"] by (simp add: range_rx_def hcl_range_def)
  show ?thesis
  proof (cases el)
    case None
    obtain ts where "rx_run ?fin (?i, nat_str ec @ '': '', ?k) = (?i + length (nat_str ec), '': '', (4, nat_str ec) # ?k) # ts"
      using last_num by blast
    then show ?thesis unfolding start run using None no_line [of ?i ec "'' ''" ?k] by simp
  next
    case (Some n)
    let ?j = "?i + length (nat_str n) + 1"
    obtain ts where "rx_run ?fin (?j, nat_str ec @ '': '', (3, nat_str n) # ?k)
        = (?j + length (nat_str ec), '': '', (4, nat_str ec) # (3, nat_str n) # ?k) # ts"
      using last_num by blast
    then show ?thesis unfolding start run using Some line [of ?i n "nat_str ec @ '': ''" ?k] by simp
  qed
qed

text \<open>A file name and the range's own characters hold no digit before the range and nothing else to find.\<close>

lemma range_exec:
  "\<exists>a b. exec range_rx (hcl_header stdin l c el ec) =
     Some (a, b, (4, nat_str ec) # (case el of None \<Rightarrow> [] | Some n \<Rightarrow> [(3, nat_str n)]) @ [(2, nat_str c), (1, nat_str l)])"
proof -
  let ?file = "(if stdin then ''<stdin>'' else ''pipeline.hcl'') @ '':''"
  have none: "rx_run range_rx (i, d # r, []) = []" if "\<not> is_digit d" for i d r
    using that by (simp add: range_rx_def map_concat_Grp) (simp add: some_def digit_def rx_run.simps)
  have "rx_exec range_rx 0 (?file @ hcl_range l c el ec @ '': '') = rx_exec range_rx (0 + length ?file) (hcl_range l c el ec @ '': '')"
    by (rule rx_exec_prefix) (rule none, auto simp: is_digit_def split: if_splits)
  moreover obtain ts j r where "rx_run range_rx (length ?file, hcl_range l c el ec @ '': '', []) =
     (j, r, (4, nat_str ec) # (case el of None \<Rightarrow> [] | Some n \<Rightarrow> [(3, nat_str n)]) @ [(2, nat_str c), (1, nat_str l)]) # ts"
    using range_run by blast
  ultimately show ?thesis using rx_exec_hit by (fastforce simp: exec_def hcl_header_def)
qed

lemma header_chars: "d \<in> set (hcl_header stdin l c el ec) \<Longrightarrow> d \<noteq> CHR ''f''"
  using not_digit_notin_nat_str [of "CHR ''f''"]
  by (auto simp: hcl_header_def hcl_range_def is_digit_def split: if_splits option.splits)

lemma source_starts: "d \<noteq> CHR ''f'' \<Longrightarrow> rx_run source_rx (i, d # r, k) = []"
  by (simp add: source_rx_def lit_first)

lemma no_bol_rx: "no_bol (lit t)" "no_bol header_rx" "no_bol source_rx"
proof -
  show l: "no_bol (lit t)" for t by (induction t) (simp_all add: lit_def)
  show "no_bol header_rx" "no_bol source_rx"
    by (simp_all add: header_rx_def source_rx_def l some_def some_lazy_def star_def opt_def digit_def word_def space_def dot_def unquoted_def)
qed

lemma exec_all_one:
  assumes "rx_run e (0, h @ m, []) = (length h, m, k) # ts" and "h \<noteq> []" and "no_bol e" and "exec e m = None"
  shows "exec_all e (h @ m) = [(0, length h, k)]"
proof -
  have "rx_exec e 0 (h @ m) = Some (0, length h, k)" by (rule rx_exec_hit) (rule assms(1))
  moreover have "exec_all_from n e (length h) m = []" for n
    using shift_exec_None [OF assms(3,4)] by (cases n) simp_all
  ultimately show ?thesis using assms(2) by (simp add: exec_all_def)
qed

text \<open>The lazy message of a source error extends to the end, as nothing stops it before.\<close>

lemma lazy_whole:
  assumes "\<forall>c \<in> set u. P c" and "\<And>j v w. u = w @ v \<Longrightarrow> v \<noteq> [] \<Longrightarrow> h (j, v, k) = []" and "length u \<le> n"
  shows "concat (map h (rounds n False (rx_run (Chr P)) (i, u, k))) = h (i + length u, [], k)"
  using assms
proof (induction u arbitrary: n i)
  case Nil
  then show ?case using rounds_Chr_stop [of P "[]" n False i k] by simp
next
  case (Cons c u)
  then obtain m where n: "n = Suc m" by (cases n) auto
  have "h (i, c # u, k) = []" using Cons.prems(2) [of "[]" "c # u" i] by simp
  moreover have "concat (map h (rounds m False (rx_run (Chr P)) (Suc i, u, k))) = h (Suc i + length u, [], k)"
    by (rule Cons.IH) (use Cons.prems n in auto)
  ultimately show ?case using Cons.prems(1) by (simp add: n rounds_lazy_Cons)
qed

abbreviation again :: string where "again \<equiv> ''failed to resolve source for''"

lemma message_run:
  assumes "\<forall>c \<in> set msg. (of_char c :: nat) \<notin> {10, 13}" and "msg \<noteq> []" and "exec (lit again) msg = None"
  shows "rx_run (Cat (Grp 3 (some_lazy dot)) (Cat (Look (Or (lit again) Eos)) Empty)) (i, msg, k) = [(i + length msg, [], (3, msg) # k)]"
proof -
  obtain c u where m: "msg = c # u" using assms(2) by (cases msg) auto
  let ?look = "Cat (Look (Or (lit again) Eos)) Empty"
  let ?h = "\<lambda>t. rx_run ?look (fst t, fst (snd t), (3, take (fst t - i) msg) # snd (snd t))"
  have stop: "rx_run ?look (j, v, k') = []" if "u = w @ v" "v \<noteq> []" for j v w k'
  proof -
    have "(length (c # w), drop (length (c # w)) msg) \<notin> Domain (rx_rel (lit again))"
    proof -
      have "length (c # w) \<le> length msg" using that by (simp add: m)
      then have "(0 + length (c # w), drop (length (c # w)) msg) \<notin> Domain (rx_rel (lit again))"
        using assms(3) unfolding exec_def rx_exec_None_iff by blast
      then show ?thesis by simp
    qed
    then have "(j, v) \<notin> Domain (rx_rel (lit again))" using move_Domain [of "lit again" j v "length (c # w)"] that no_bol_rx(1) m by auto
    then have "rx_run (lit again) (j, v, k') = []" unfolding rx_run_none .
    then show ?thesis using that(2) by (simp add: rx_run.simps)
  qed
  have final: "rx_run ?look (j, [], k') = [(j, [], k')]" for j k'
  proof -
    have "rx_run (lit again) (j, [], k') = []" using lit_none [of again "[]" Empty j k'] rel_lit [of again] rx_run_none [of "lit again" j "[]" k'] by auto
    then show ?thesis by (simp add: rx_run.simps)
  qed
  have "concat (map ?h (rounds (length u) False (rx_run (Chr (\<lambda>c. (of_char c :: nat) \<notin> {10, 13}))) (Suc i, u, k))) = ?h (Suc i + length u, [], k)"
    by (rule lazy_whole) (use assms(1) m stop in auto)
  then have "rx_run (Cat (Grp 3 (some_lazy dot)) ?look) (i, msg, k) = ?h (Suc i + length u, [], k)"
    unfolding map_concat_Grp some_lazy_def dot_def using assms(1) m by (simp add: rx_run.simps)
  then show ?thesis by (simp add: final m)
qed

lemma source_run:
  assumes "ty \<noteq> []" "\<forall>c \<in> set ty. word_char c" "name \<noteq> []" "quote \<notin> set name"
    and "starts_not is_blank msg" "\<forall>c \<in> set msg. (of_char c :: nat) \<notin> {10, 13}" "msg \<noteq> []" "exec (lit again) msg = None"
  shows "\<exists>ts. rx_run source_rx (0, source_error ty name msg, []) = (length (source_error ty name msg), [], [(3, msg), (2, name), (1, ty)]) # ts"
proof -
  define pre where "pre = ''failed to resolve source for ''"
  let ?msg = "Cat (Grp 3 (some_lazy dot)) (Cat (Look (Or (lit again) Eos)) Empty)"
  let ?colon = "Cat (lit '':'') (Cat (star space) ?msg)"
  let ?name = "Cat (lit [quote]) (Cat (Grp 2 unquoted) (Cat (lit [quote]) ?colon))"
  let ?n = "length pre + length ty"
  have "rx_run source_rx (0, source_error ty name msg, [])
      = rx_run (Cat (Grp 1 (some word)) (Cat (some space) ?name)) (length pre, ty @ '' '' @ [quote] @ name @ [quote] @ '': '' @ msg, [])"
    unfolding source_rx_def source_error_def cats_simps pre_def [symmetric] lit_run by simp
  also have "\<dots> = rx_run (Cat (some space) ?name) (?n, '' '' @ [quote] @ name @ [quote] @ '': '' @ msg, [(1, ty)])"
    unfolding word_def
  proof (rule group_whole)
    show "fails word_char (Cat (some space) ?name)"
      unfolding fails_def space_def by (auto intro!: some_none simp: word_char_def is_blank_def is_digit_def)
  qed (use assms in auto)
  also have "\<dots> = rx_run ?name (?n + 1, [quote] @ name @ [quote] @ '': '' @ msg, [(1, ty)])"
    using some_whole [of is_blank ?name "[quote] @ name @ [quote] @ '': '' @ msg" "'' ''" ?n] unfolding space_def by (simp add: fails_lit)
  also have "\<dots> = rx_run (Cat (Grp 2 unquoted) (Cat (lit [quote]) ?colon)) (?n + 2, name @ [quote] @ '': '' @ msg, [(1, ty)])"
    using lit_run [of "[quote]"] by simp
  also have "\<dots> = rx_run (Cat (lit [quote]) ?colon) (?n + 2 + length name, [quote] @ '': '' @ msg, [(2, name), (1, ty)])"
    unfolding unquoted_def by (rule group_whole) (use assms in \<open>auto intro: fails_lit\<close>)
  also have "\<dots> = rx_run (Cat (star space) ?msg) (?n + length name + 4, '' '' @ msg, [(2, name), (1, ty)])"
    using lit_run [of "[quote]" ?colon] lit_run [of "'':''"] by (simp add: eval_nat_numeral)
  finally have run: "rx_run source_rx (0, source_error ty name msg, []) = \<dots>" .
  obtain ws where "rx_run (Cat (star space) ?msg) (?n + length name + 4, '' '' @ msg, [(2, name), (1, ty)])
      = rx_run ?msg (?n + length name + 5, msg, [(2, name), (1, ty)]) @ ws"
  proof -
    have "\<exists>ws. rx_run (Cat (star space) ?msg) (?n + length name + 4, '' '' @ msg, [(2, name), (1, ty)])
        = rx_run ?msg (?n + length name + 4 + length '' '', msg, [(2, name), (1, ty)]) @ ws"
      unfolding space_def by (rule star_head) (use assms(5) in simp_all)
    moreover have "?n + length name + 4 + length '' '' = ?n + length name + 5" by simp
    ultimately show ?thesis using that by metis
  qed
  then show ?thesis unfolding run using message_run [OF assms(6-8)] by (simp add: source_error_def pre_def)
qed

section \<open>Properties\<close>

text \<open>
  C40. Every error that is not blank gives at least one diagnostic, and a blank one none.
\<close>

theorem diagnostics_iff_error: "parseHCLErrors errorStr = [] \<longleftrightarrow> js_trim errorStr = ''''"
proof
  assume "js_trim errorStr = ''''"
  then have b: "\<forall>c \<in> set errorStr. is_blank c" by (simp add: js_trim_Nil_iff)
  have h: "rx_run header_rx (i, c # r, []) = []" if "c \<in> set errorStr" for i c r
  proof -
    have "c \<noteq> CHR ''p''" "c \<noteq> CHR ''<''" using b that by (auto simp: is_blank_def)
    then show ?thesis by (simp add: header_rx_def rx_run.simps(6) Or_run lit_first)
  qed
  have "rx_exec header_rx 0 (errorStr @ []) = rx_exec header_rx (0 + length errorStr) []"
    by (rule rx_exec_prefix) (rule h)
  also have "\<dots> = None"
    by (intro rx_exec_end) (simp add: header_rx_def rx_run.simps(6) Or_run lit_first)
  finally have "exec_all header_rx errorStr = []" by (intro exec_all_None) (simp add: exec_def)
  moreover have "exec_all source_rx errorStr = []"
    unfolding source_rx_def cats_simps by (intro exec_all_None lit_absent) (use b in \<open>auto simp: is_blank_def\<close>)
  ultimately show "parseHCLErrors errorStr = []" using \<open>js_trim errorStr = ''''\<close>
    by (simp add: parseHCLErrors_def split_rx_def)
qed (auto simp: parseHCLErrors_def Let_def split: if_splits)

text \<open>
  Messages are clean: no blank at either end and no semicolon at the end, except where the whole text
  is shown because nothing in it was recognised; a positioned diagnostic has a message.
\<close>

theorem messages_clean:
  assumes "d \<in> set (parseHCLErrors errorStr)" and "parseHCLErrors errorStr \<noteq> [LineDiag 1 1 2 (js_trim errorStr)]"
  shows "clean (d_message d) \<and> (is_LineDiag d \<longrightarrow> d_message d \<noteq> '''')"
proof -
  have "clean (d_message d) \<and> (is_LineDiag d \<longrightarrow> d_message d \<noteq> '''')" if "d \<in> set (header_diag h)" for h
    using that by (auto simp: header_diag_def clean_clean_message Let_def split: option.splits if_splits)
  moreover have "clean (d_message (source_diag k)) \<and> \<not> is_LineDiag (source_diag k)" for k
    by (simp add: source_diag_def clean_clean_message)
  ultimately show ?thesis using assms by (auto simp: parseHCLErrors_def Let_def split: if_splits)
qed

text \<open>
  C28. An error that the parser prints with a position reads back to one diagnostic with its line, its columns and its
  message, when the message is not empty, has no blank at either end and no semicolon at the end, and does not itself
  contain a position or a source error. The end line of a range over several lines is lost: it reads like the range on
  its first line, with the column of the last one.
\<close>

theorem positioned_error_reads_back:
  assumes "clean msg" and "msg \<noteq> ''''" and "exec header_rx msg = None" and "exec source_rx msg = None"
  shows "parseHCLErrors (hcl_header stdin l c None ec @ msg) = [LineDiag (int l) (int c) (int ec) msg]
    \<and> parseHCLErrors (hcl_header stdin l c (Some el) ec @ msg) = parseHCLErrors (hcl_header stdin l c None ec @ msg)"
proof -
  have start: "starts_not is_blank msg" using assms(1,2) by (cases msg) (auto simp: clean_def)
  have "parseHCLErrors (hcl_header stdin l c e ec @ msg) = [LineDiag (int l) (int c) (int ec) msg]" for e
  proof -
    let ?h = "hcl_header stdin l c e ec"
    have ne: "?h \<noteq> []" by (simp add: hcl_header_def)
    obtain ts where "rx_run header_rx (0, ?h @ msg, []) = (length ?h, msg, [(1, ?h)]) # ts" using header_run [OF start] by blast
    then have "exec_all header_rx (?h @ msg) = [(0, length ?h, [(1, ?h)])]"
      by (rule exec_all_one) (use ne assms(3) no_bol_rx in auto)
    then have parts: "header_bodies (split_rx header_rx (?h @ msg)) = [(?h, msg)]"
      by (simp add: split_rx_def group_text_def)
    have "exec source_rx (?h @ msg) = None"
      using rx_exec_prefix [of ?h source_rx 0 msg] source_starts header_chars shift_exec_None [OF no_bol_rx(3) assms(4)]
      by (auto simp: exec_def)
    then have "exec_all source_rx (?h @ msg) = []" by (rule exec_all_None)
    moreover have "header_diag (?h, msg) = [LineDiag (int l) (int c) (int ec) msg]"
    proof -
      obtain a b where x: "exec range_rx ?h = Some (a, b, (4, nat_str ec) # (case e of None \<Rightarrow> [] | Some n \<Rightarrow> [(3, nat_str n)]) @ [(2, nat_str c), (1, nat_str l)])"
        using range_exec by blast
      have "js_trim msg = msg" using clean_message_id [OF assms(1)] clean_message_def start assms(1,2)
        by (auto simp: js_trim_def clean_def dropWhile_hd_not rev_dropWhile_last)
      then show ?thesis using x clean_message_id [OF assms(1)] assms(2)
        by (cases e) (simp_all add: header_diag_def group_text_def)
    qed
    ultimately show ?thesis by (simp add: parseHCLErrors_def parts)
  qed
  then show ?thesis by simp
qed

theorem positioned_error_reads_back_witness:
  "parseHCLErrors (hcl_header False 3 1 None 7 @ ''Unclosed block'') = [LineDiag 3 1 7 ''Unclosed block'']
   \<and> parseHCLErrors (hcl_header False 3 1 (Some 4) 7 @ ''Unclosed block'') = [LineDiag 3 1 7 ''Unclosed block'']"
proof -
  have "clean ''Unclosed block''" by (simp add: clean_def is_blank_def)
  moreover have "exec header_rx ''Unclosed block'' = None" "exec source_rx ''Unclosed block'' = None" by code_simp+
  ultimately show ?thesis using positioned_error_reads_back [of "''Unclosed block''" False 3 1 7 4] by simp
qed

text \<open>
  An error of a source on one line reads back to the block and the message.
\<close>

theorem source_error_reads_back:
  assumes "ty \<noteq> ''''" and "\<forall>c \<in> set ty. word_char c" and "name \<noteq> ''''" and "quote \<notin> set name"
    and "clean msg" and "msg \<noteq> ''''" and "\<forall>c \<in> set msg. (of_char c :: nat) \<notin> {10, 13}" and "exec (lit again) msg = None"
    and "exec header_rx (source_error ty name msg) = None"
  shows "parseHCLErrors (source_error ty name msg) = [SourceDiag ty name ''source'' msg]"
proof -
  let ?s = "source_error ty name msg"
  have "starts_not is_blank msg" using assms(5,6) by (cases msg) (auto simp: clean_def)
  then obtain ts where run: "rx_run source_rx (0, ?s @ [], []) = (length ?s, [], [(3, msg), (2, name), (1, ty)]) # ts"
    using source_run [of ty name msg] assms by auto
  have "exec source_rx [] = None" by (simp add: exec_def rx_exec_end source_rx_def lit_first)
  then have "exec_all source_rx (?s @ []) = [(0, length ?s, [(3, msg), (2, name), (1, ty)])]"
    by (intro exec_all_one [OF run] no_bol_rx) (simp_all add: source_error_def)
  moreover have "split_rx header_rx ?s = [?s]" using exec_all_None [OF assms(9)] by (simp add: split_rx_def)
  ultimately show ?thesis using clean_message_id [OF assms(5)] by (simp add: parseHCLErrors_def source_diag_def group_text_def)
qed

theorem source_error_reads_back_witness:
  "parseHCLErrors (source_error ''job'' ''a'' ''x'') = [SourceDiag ''job'' ''a'' ''source'' ''x'']"
proof (rule source_error_reads_back)
  show "exec (lit again) ''x'' = None" "exec header_rx (source_error ''job'' ''a'' ''x'') = None" by code_simp+
qed (simp_all add: clean_def is_blank_def word_char_def quote_def)

text \<open>An error of a source over several lines is not recognised: its parts are lost on line 1.\<close>

lemma source_error_lines_lost:
  "parseHCLErrors (source_error ''job'' ''a'' ''x\<newline>y'') = [LineDiag 1 1 2 (source_error ''job'' ''a'' ''x\<newline>y'')]"
  by code_simp

end
