(* ===== verification/EditorText.thy ===== *)
theory EditorText
  imports HclErrors UtilFns PipelineGraph
begin

text \<open>
  What the pipeline editor (\<open>Editor.js\<close>) computes from the text of the file: the position of a block's
  attribute, the panel of blocks, the diagnostics of an error and the place of a graph node. The
  document is a value of the editor library: its text and the place of every line (\<open>doc_ok\<close>: lines lie
  in the text); \<open>text_doc\<close> is one. Types and the attribute are words and so patterns of themselves;
  names are escaped before they become part of a pattern, so they are literals here.

  Lemmas: a found attribute lies inside its block, diagnostics lie in the document, an entry of the panel
  is at a header, and the row of a block that an error is in.
\<close>

section \<open>Documents\<close>

record doc =
  d_text :: string
  d_lines :: "(nat \<times> nat) list" \<comment> \<open>start and length of each line\<close>

definition doc_ok :: "doc \<Rightarrow> bool" where
  "doc_ok d \<longleftrightarrow> (\<forall>(f, l) \<in> set (d_lines d). f + l \<le> length (d_text d))"

fun line_spans :: "nat \<Rightarrow> string list \<Rightarrow> (nat \<times> nat) list" where
  "line_spans i [] = []"
| "line_spans i (x # xs) = (i, length x) # line_spans (i + length x + 1) xs"

definition text_doc :: "string \<Rightarrow> doc" where
  "text_doc s = \<lparr>d_text = s, d_lines = line_spans 0 (split_on LF s)\<rparr>"

section \<open>An attribute of a block\<close>

text \<open>\<open>blockType + '\\s+"' + esc + '"'\<close>, and with \<open>\\s*\\{\<close> behind it.\<close>

definition header_of :: "string \<Rightarrow> string \<Rightarrow> rx" where
  "header_of ty nm = cats [lit ty, some space, lit [quote], lit nm, lit [quote]]"

definition block_rx :: "string \<Rightarrow> string \<Rightarrow> rx" where
  "block_rx ty nm = cats [lit ty, some space, lit [quote], lit nm, lit [quote], star space, lit ''{'']"

text \<open>\<open>(^|\n)(\s*)attribute\s*=\s*("(?:[^"\\]|\\.)*"|[^\n]+)\<close>.\<close>

definition value_rx :: rx where
  "value_rx = Or (cats [lit [quote], star (Or (Chr (\<lambda>c. c \<noteq> quote \<and> c \<noteq> CHR 0x5C)) (cats [lit [CHR 0x5C], dot])), lit [quote]])
                 (some (Chr (\<lambda>c. c \<noteq> LF)))"

definition attr_rx :: "string \<Rightarrow> rx" where
  "attr_rx attr = cats [Grp 1 (Or Bol (lit [LF])), Grp 2 (star space), lit attr, star space, lit ''='', star space, Grp 3 value_rx]"

text \<open>The loop that finds the brace that closes the block.\<close>

fun close_brace :: "nat \<Rightarrow> nat \<Rightarrow> string \<Rightarrow> nat option" where
  "close_brace depth j [] = None"
| "close_brace depth j (c # s) =
     (if c = CHR ''{'' then close_brace (depth + 1) (j + 1) s
      else if c = CHR ''}'' then (if depth - 1 = 0 then Some j else close_brace (depth - 1) (j + 1) s)
      else close_brace depth (j + 1) s)"

definition findBlockAttribute :: "string \<Rightarrow> string \<Rightarrow> string \<Rightarrow> string \<Rightarrow> (nat \<times> nat) option" where
  "findBlockAttribute docText blockType blockName attribute =
     (case exec (block_rx blockType blockName) docText of
        None \<Rightarrow> None
      | Some (_, start, _) \<Rightarrow>
          (let blockEnd = (case close_brace 1 start (drop start docText) of Some j \<Rightarrow> j | None \<Rightarrow> length docText);
               blockContent = take (blockEnd - start) (drop start docText)
           in (case exec (attr_rx attribute) blockContent of
                 None \<Rightarrow> None
               | Some (a, z, am) \<Rightarrow>
                   (let g1 = length (group_text am 1); g2 = length (group_text am 2);
                        attrStart = start + a + g1 + g2
                    in Some (attrStart, attrStart + (z - a) - g1 - g2)))))"

section \<open>The panel of blocks\<close>

definition two_label :: "string \<Rightarrow> bool" where
  "two_label ty \<longleftrightarrow> ty = ''resource'' \<or> ty = ''notification''"

definition list_rx :: "string \<Rightarrow> rx" where
  "list_rx ty = cats ([lit ty, some space, lit [quote], Grp 1 unquoted, lit [quote]]
     @ (if two_label ty then [some space, lit [quote], Grp 2 unquoted, lit [quote]] else []))"

definition block_matches :: "string \<Rightarrow> string \<Rightarrow> (string \<times> nat) list" where
  "block_matches ty docText =
     map (\<lambda>(a, _, m). (if two_label ty then group_text m 1 @ ''.'' @ group_text m 2 else group_text m 1, a))
       (exec_all (list_rx ty) docText)"

text \<open>Setting \<open>textContent\<close> and reading \<open>innerHTML\<close>.\<close>

definition escapeHtml :: "string \<Rightarrow> string" where
  "escapeHtml str = escape_html str"

text \<open>The key of \<open>errorLines\<close>: \<open>type + ':"' + name + '"'\<close>.\<close>

definition error_key :: "string \<Rightarrow> string \<Rightarrow> string" where
  "error_key ty nm = ty @ '':'' @ [quote] @ nm @ [quote]"

definition item_html :: "string list \<Rightarrow> block_type \<Rightarrow> string \<times> nat \<Rightarrow> string" where
  "item_html errorLines bt = (\<lambda>(nm, pos).
     let hasErr = error_key (bt_type bt) nm \<in> set errorLines in
     ''<div class=\"piko-blocks-item'' @ (if hasErr then '' has-error'' else '''') @ ''\" data-pos=\"'' @ nat_str pos @ ''\">''
     @ ''<span class=\"piko-block-icon '' @ bt_icon bt @ ''\">'' @ bt_letter bt @ ''</span> ''
     @ escapeHtml nm
     @ (if hasErr then ''<span class=\"piko-error-dot\"></span>'' else '''')
     @ ''</div>'')"

definition section_html :: "string list \<Rightarrow> string \<Rightarrow> block_type \<Rightarrow> string" where
  "section_html errorLines docText bt =
     (let matches = block_matches (bt_type bt) docText in
      if matches = [] then ''''
      else ''<div class=\"piko-blocks-section\">'' @ ''<div class=\"piko-blocks-section-title\">'' @ bt_label bt @ ''</div>''
           @ concat (map (item_html errorLines bt) matches) @ ''</div>'')"

definition blocks_html :: "string list \<Rightarrow> string \<Rightarrow> string" where
  "blocks_html errorLines docText =
     (let result = concat (map (section_html errorLines docText) blockTypes) in
      if result \<noteq> '''' then result
      else ''<div style=\"padding:12px;color:var(--text-muted);font-size:0.78rem\">No blocks found</div>'')"

section \<open>Diagnostics\<close>

record diagnostic =
  g_from :: int
  g_to :: int
  g_message :: string

text \<open>The alternatives of \<open>job|resource|...\<close> in the order of the pattern.\<close>

definition line_block_types :: "string list" where
  "line_block_types = [''job'', ''resource'', ''resource_type'', ''runner_type'', ''secret_type'', ''service_type'',
     ''notification_type'', ''notification'', ''variable'']"

definition line_block_rx :: rx where
  "line_block_rx = cats [ors (map lit line_block_types), some space, lit [quote], Grp 1 unquoted, lit [quote]]"

text \<open>The last block that starts at or before an offset.\<close>

definition last_block :: "string \<Rightarrow> nat \<Rightarrow> (nat \<times> nat \<times> groups) option" where
  "last_block docText lineOffset =
     (case rev (takeWhile (\<lambda>(a, _, _). a \<le> lineOffset) (exec_all line_block_rx docText)) of [] \<Rightarrow> None | m # _ \<Rightarrow> Some m)"

definition flag_block :: "string \<Rightarrow> nat \<times> nat \<times> groups \<Rightarrow> string list \<Rightarrow> string list" where
  "flag_block docText = (\<lambda>(a, z, m) errorLines.
     case exec (cats [Bol, Grp 1 (some word)]) (take (z - a) (drop a docText)) of
       Some (_, _, bt) \<Rightarrow> List.insert (error_key (group_text bt 1) (group_text m 1)) errorLines
     | None \<Rightarrow> errorLines)"

definition clip :: "nat \<Rightarrow> int \<Rightarrow> int \<Rightarrow> int \<times> int" where
  "clip len from0 to0 =
     (let from1 = (if from0 > int len then int len else from0);
          to1 = (if to0 > int len then int len else to0);
          to2 = (if from1 \<ge> to1 then from1 + 1 else to1)
      in (from1, if to2 > int len then int len else to2))"

fun diag_step :: "doc \<Rightarrow> diag \<Rightarrow> diagnostic list \<times> string list \<Rightarrow> diagnostic list \<times> string list" where
  "diag_step d (SourceDiag ty nm attr msg) (ds, errorLines) =
     (let errs = List.insert (error_key ty nm) errorLines in
      case findBlockAttribute (d_text d) ty nm attr of
        Some (f, t) \<Rightarrow> (ds @ [\<lparr>g_from = int f, g_to = int t, g_message = msg\<rparr>], errs)
      | None \<Rightarrow> (case exec (header_of ty nm) (d_text d) of
          Some (a, z, _) \<Rightarrow> (ds @ [\<lparr>g_from = int a, g_to = int z, g_message = msg\<rparr>], errs)
        | None \<Rightarrow> (ds, errs)))"
| "diag_step d (LineDiag lno colStart colEnd msg) (ds, errorLines) =
     (if lno < 1 \<or> lno > int (length (d_lines d)) then (ds, errorLines)
      else (let (lineFrom, lineLength) = d_lines d ! nat (lno - 1);
                errs = (case last_block (d_text d) lineFrom of Some m \<Rightarrow> flag_block (d_text d) m errorLines | None \<Rightarrow> errorLines);
                (f, t) = clip (length (d_text d)) (int lineFrom + max 0 (colStart - 1)) (int lineFrom + min (int lineLength) (colEnd - 1))
            in (ds @ [\<lparr>g_from = f, g_to = t, g_message = msg\<rparr>], errs)))"

definition error_diagnostics :: "doc \<Rightarrow> string \<Rightarrow> diagnostic list \<times> string list" where
  "error_diagnostics d errorStr = fold (diag_step d) (parseHCLErrors errorStr) ([], [])"

section \<open>The place of a graph node\<close>

definition node_types :: "string list" where
  "node_types = [''job'', ''resource'', ''resource_type'', ''runner_type'', ''secret_type'', ''service_type'',
     ''notification_type'', ''notification'']"

text \<open>The text before the first \<open>--\<close>, the whole text without one.\<close>

fun before_dashes :: "string \<Rightarrow> string" where
  "before_dashes (a # b # s) = (if a = CHR ''-'' \<and> b = CHR ''-'' then [] else a # before_dashes (b # s))"
| "before_dashes s = s"

definition node_rx :: "string \<Rightarrow> rx" where
  "node_rx nm =
     (if CHR ''.'' \<in> set nm then
        (let rType = takeWhile (\<lambda>c. c \<noteq> CHR ''.'') nm; rLabel = drop (Suc (length rType)) nm
         in cats [ors (map lit [''resource'', ''notification'']), some space, lit [quote], lit rType, lit [quote],
                  some space, lit [quote], lit rLabel, lit [quote]])
      else cats [ors (map lit node_types), some space, lit [quote], lit (before_dashes nm), lit [quote]])"

definition node_place :: "string \<Rightarrow> string \<Rightarrow> (nat \<times> nat) option" where
  "node_place docText nm = map_option (\<lambda>(a, z, _). (a, z)) (exec (node_rx nm) docText)"

section \<open>Documents of a text\<close>

lemma line_spans_bound:
  "(f, l) \<in> set (line_spans i xs) \<Longrightarrow> f + l < i + sum_list (map (\<lambda>x. length x + 1) xs)"
  by (induction xs arbitrary: i) fastforce+

lemma length_split_on: "sum_list (map (\<lambda>x. length x + 1) (split_on c s)) = length s + 1"
proof -
  have "sum_list (map (\<lambda>x. length x + 1) ps) = length (join_with [c] ps) + 1" if "ps \<noteq> []" for ps
    using that by (induction ps rule: induct_list012) (auto simp: join_with_Cons)
  then show ?thesis by (simp add: join_split)
qed

lemma doc_ok_text_doc: "doc_ok (text_doc s)"
  using line_spans_bound [of _ _ 0 "split_on LF s"] length_split_on [of LF s]
  by (fastforce simp: doc_ok_def text_doc_def)

section \<open>Braces\<close>

definition braces :: "char \<Rightarrow> string \<Rightarrow> nat" where
  "braces c s = length (filter (\<lambda>d. d = c) s)"

lemma braces_simps [simp]: "braces c [] = 0" "braces c (d # s) = (if d = c then 1 else 0) + braces c s"
  by (simp_all add: braces_def)

text \<open>No piece of the text that ends at or before the found brace closes more than the depth.\<close>

lemma close_brace_depth:
  "0 < depth \<Longrightarrow> n \<le> (case close_brace depth j s of Some i \<Rightarrow> i - j | None \<Rightarrow> length s) \<Longrightarrow>
     braces CHR ''}'' (take n s) < depth + braces CHR ''{'' (take n s)"
proof (induction depth j s arbitrary: n rule: close_brace.induct)
  case (2 depth j c s)
  show ?case
  proof (cases n)
    case (Suc m)
    consider "c = CHR ''{''" | "c = CHR ''}''" "depth - 1 \<noteq> 0" | "c = CHR ''}''" "depth - 1 = 0" | "c \<noteq> CHR ''{''" "c \<noteq> CHR ''}''"
      by blast
    then show ?thesis
    proof cases
      case 1
      have "braces CHR ''}'' (take m s) < depth + 1 + braces CHR ''{'' (take m s)"
        by (rule "2.IH"(1)) (use 1 Suc "2.prems" in \<open>auto split: option.splits\<close>)
      then show ?thesis using 1 Suc by simp
    next
      case 2
      have "braces CHR ''}'' (take m s) < depth - 1 + braces CHR ''{'' (take m s)"
        by (rule "2.IH"(2)) (use 2 Suc "2.prems" in \<open>auto split: option.splits\<close>)
      then show ?thesis using 2 Suc "2.prems"(1) by simp
    next
      case 3
      then show ?thesis using Suc "2.prems" by simp
    next
      case 4
      have "braces CHR ''}'' (take m s) < depth + braces CHR ''{'' (take m s)"
        by (rule "2.IH"(3)) (use 4 Suc "2.prems" in \<open>auto split: option.splits\<close>)
      then show ?thesis using 4 Suc by simp
    qed
  qed (use "2.prems" in simp)
qed simp

section \<open>Places of matches\<close>

lemma attr_match:
  assumes "exec (attr_rx attr) s = Some (a, z, k)"
  shows "\<exists>g1 g2. length (group_text k 1) = g1 \<and> length (group_text k 2) = g2 \<and> a + g1 + g2 + length attr < z \<and> z \<le> length s
    \<and> take (length attr) (drop (a + g1 + g2) s) = attr"
proof -
  let ?D = "cats [star space, lit ''='', star space, Grp 3 value_rx]"
  let ?C = "Cat (lit attr) ?D"
  obtain ms where run: "rx_run (attr_rx attr) (a, drop a s, []) = (z, drop z s, k) # ms" using exec_Some(4) [OF assms] by blast
  have e: "attr_rx attr = Cat (Grp 1 (Or Bol (lit [LF]))) (Cat (Grp 2 (star space)) ?C)" by (simp add: attr_rx_def)
  have mem: "(z, drop z s, k) \<in> set (rx_run (Cat (Grp 1 (Or Bol (lit [LF]))) (Cat (Grp 2 (star space)) ?C)) (a, drop a s, []))"
    using run unfolding e by simp
  obtain p1 r1 k1 where m1: "(p1, r1, k1) \<in> set (rx_run (Or Bol (lit [LF])) (a, drop a s, []))"
    and t1: "(z, drop z s, k) \<in> set (rx_run (Cat (Grp 2 (star space)) ?C) (p1, r1, (1, take (p1 - a) (drop a s)) # k1))"
    using group_member [OF mem] by blast
  obtain p2 r2 k2 where m2: "(p2, r2, k2) \<in> set (rx_run (star space) (p1, r1, (1, take (p1 - a) (drop a s)) # k1))"
    and t2: "(z, drop z s, k) \<in> set (rx_run ?C (p2, r2, (2, take (p2 - p1) r1) # k2))"
    using group_member [OF t1] by blast
  have f1: "((a, drop a s), (p1, r1)) \<in> forward"
    using rel_forward rx_run_mem [OF m1] by blast
  have f2: "((p1, r1), (p2, r2)) \<in> forward"
    using rel_forward rx_run_mem [OF m2] by blast
  have rel: "((p2, r2), (z, drop z s)) \<in> rx_rel ?C" by (rule rx_run_mem [OF t2])
  have r1: "r1 = drop p1 s" and a1: "a \<le> p1" "length (take (p1 - a) (drop a s)) = p1 - a"
    using f1 by (auto simp: forward_def)
  have r2: "r2 = drop p2 s" and a2: "p1 \<le> p2" "length (take (p2 - p1) r1) = p2 - p1"
    using f2 by (auto simp: forward_def r1)
  have "map_of k2 1 = Some (take (p1 - a) (drop a s))"
    using groups_kept [of 1 "star space", OF _ m2] by (simp add: star_def space_def)
  moreover have "n \<notin> groups_of (lit t)" for n t by (induction t) (simp_all add: lit_def)
  then have "map_of k n = map_of ((2, take (p2 - p1) r1) # k2) n" if "n \<noteq> 3" for n
  proof -
    have "n \<notin> groups_of ?C" using that \<open>\<And>n t. n \<notin> groups_of (lit t)\<close>
      by (simp add: star_def space_def value_rx_def some_def dot_def)
    then show ?thesis using groups_kept [of n ?C, OF _ t2] by simp
  qed
  ultimately have g: "group_text k 1 = take (p1 - a) (drop a s)" "group_text k 2 = take (p2 - p1) r1"
    by (simp_all add: group_text_def)
  obtain y where y: "((p2, r2), y) \<in> rx_rel (lit attr)" "(y, (z, drop z s)) \<in> rx_rel ?D"
  proof -
    have "((p2, r2), (z, drop z s)) \<in> rx_rel (lit attr) O rx_rel ?D" using rel by (simp only: rx_rel.simps(3))
    then show ?thesis using that by blast
  qed
  have "fst y = p2 + length attr" "take (length attr) r2 = attr" using y(1) by (auto simp: rel_lit)
  moreover have "fst y < z" using rel_less [OF _ y(2)] by (simp add: consumes_lit)
  ultimately show ?thesis using g a1 a2 r2 exec_Some(2) [OF assms] by simp
qed

lemma attribute_found:
  assumes "findBlockAttribute docText blockType blockName attribute = Some (f, t)"
  shows "\<exists>h start k. exec (block_rx blockType blockName) docText = Some (h, start, k)
    \<and> start \<le> f \<and> f + length attribute < t \<and> t \<le> length docText
    \<and> take (length attribute) (drop f docText) = attribute
    \<and> (\<forall>n \<le> t - start. braces CHR ''}'' (take n (drop start docText)) \<le> braces CHR ''{'' (take n (drop start docText)))"
proof -
  obtain h start k where b: "exec (block_rx blockType blockName) docText = Some (h, start, k)"
    using assms by (auto simp: findBlockAttribute_def split: option.splits)
  let ?c = "close_brace 1 start (drop start docText)"
  define len where "len = (case ?c of Some i \<Rightarrow> i - start | None \<Rightarrow> length (drop start docText))"
  let ?s = "take len (drop start docText)"
  have len: "(case ?c of Some j \<Rightarrow> j | None \<Rightarrow> length docText) - start = len"
    by (simp add: len_def split: option.splits)
  obtain a z am where m: "exec (attr_rx attribute) ?s = Some (a, z, am)"
    and ft: "f = start + a + length (group_text am 1) + length (group_text am 2)"
      "t = f + (z - a) - length (group_text am 1) - length (group_text am 2)"
  proof -
    have "findBlockAttribute docText blockType blockName attribute
      = (case exec (attr_rx attribute) ?s of None \<Rightarrow> None
         | Some (a, z, am) \<Rightarrow>
             (let g1 = length (group_text am 1); g2 = length (group_text am 2); attrStart = start + a + g1 + g2
              in Some (attrStart, attrStart + (z - a) - g1 - g2)))"
      unfolding findBlockAttribute_def b option.case prod.case len Let_def ..
    then show ?thesis using assms that by (auto simp: Let_def split: option.splits)
  qed
  from attr_match [OF m] have p: "a + length (group_text am 1) + length (group_text am 2) + length attribute < z"
      "z \<le> length ?s" "take (length attribute) (drop (a + length (group_text am 1) + length (group_text am 2)) ?s) = attribute" by auto
  have off: "f - start = a + length (group_text am 1) + length (group_text am 2)" using ft by simp
  have t: "t = start + z" using ft p(1) by simp
  have "take (length attribute) (drop f docText) = attribute"
  proof -
    have "drop (f - start) ?s = take (len - (f - start)) (drop f docText)" using ft by (simp add: drop_take add.assoc add.commute add.left_commute)
    moreover have "length attribute \<le> len - (f - start)"
    proof -
      have "z \<le> len" using p(2) by simp
      then show ?thesis unfolding off using p(1) by linarith
    qed
    ultimately show ?thesis using p(3) unfolding off [symmetric] by (simp add: min_absorb1)
  qed
  moreover have "braces CHR ''}'' (take n (drop start docText)) \<le> braces CHR ''{'' (take n (drop start docText))" if "n \<le> t - start" for n
    using close_brace_depth [where depth = 1 and n = n and j = start and s = "drop start docText"] that p(2) t len_def by simp
  moreover have "f + length attribute < t" "start \<le> f" "t \<le> length docText" using ft p t by auto
  ultimately show ?thesis using b by blast
qed

lemma attribute_place:
  assumes "findBlockAttribute docText blockType blockName attribute = Some (f, t)"
  shows "f < t" "t \<le> length docText"
  using attribute_found [OF assms] by auto

text \<open>
  C29. The attribute found lies inside the block whose header it was looked for behind.
\<close>

theorem block_attribute_inside:
  assumes "findBlockAttribute docText blockType blockName attribute = Some (f, t)"
  shows "\<exists>h start k. exec (block_rx blockType blockName) docText = Some (h, start, k)
    \<and> start \<le> f \<and> f + length attribute < t \<and> t \<le> length docText
    \<and> take (length attribute) (drop f docText) = attribute
    \<and> (\<forall>n \<le> t - start. braces CHR ''}'' (take n (drop start docText)) \<le> braces CHR ''{'' (take n (drop start docText)))"
  by (rule attribute_found [OF assms])

definition demo_hcl :: string where
  "demo_hcl = ''job '' @ [quote] @ ''a'' @ [quote] @ '' {'' @ [LF] @ '' source = x'' @ [LF] @ ''}''"

theorem block_attribute_inside_witness:
  "\<exists>h start k. exec (block_rx ''job'' ''a'') demo_hcl = Some (h, start, k)
    \<and> start \<le> 11 \<and> 11 + length ''source'' < 21 \<and> 21 \<le> length demo_hcl
    \<and> take (length ''source'') (drop 11 demo_hcl) = ''source''
    \<and> list_all (\<lambda>n. braces CHR ''}'' (take n (drop start demo_hcl)) \<le> braces CHR ''{'' (take n (drop start demo_hcl))) [0..<Suc (21 - start)]"
proof -
  have "findBlockAttribute demo_hcl ''job'' ''a'' ''source'' = Some (11, 21)" by code_simp
  from block_attribute_inside [OF this] show ?thesis by (auto simp: list_all_iff)
qed

section \<open>Diagnostics lie in the document\<close>

definition in_doc :: "doc \<Rightarrow> diagnostic \<Rightarrow> bool" where
  "in_doc d g \<longleftrightarrow> 0 \<le> g_from g \<and> g_from g \<le> g_to g \<and> g_to g \<le> int (length (d_text d))
     \<and> (g_from g < g_to g \<or> g_from g = int (length (d_text d)))"

lemma clip_bounds:
  assumes "0 \<le> f" and "clip len f t = (f', t')"
  shows "0 \<le> f' \<and> f' \<le> t' \<and> t' \<le> int len \<and> (f' < t' \<or> f' = int len)"
  using assms by (auto simp: clip_def Let_def split: if_splits)

lemma header_place:
  assumes "exec (header_of ty nm) s = Some (a, z, k)"
  shows "a < z" "z \<le> length s"
proof -
  show "a < z" using rel_less [OF _ exec_Some(3) [OF assms]] by (simp add: header_of_def consumes_lit some_def space_def)
  show "z \<le> length s" by (rule exec_Some(2) [OF assms])
qed

lemma diag_step_in_doc:
  assumes "doc_ok d" and "\<forall>g \<in> set ds. in_doc d g" and "diag_step d g (ds, errs) = (ds', errs')"
  shows "\<forall>g \<in> set ds'. in_doc d g"
proof (cases g)
  case (SourceDiag ty nm attr msg)
  consider f t where "findBlockAttribute (d_text d) ty nm attr = Some (f, t)"
    | a z k where "findBlockAttribute (d_text d) ty nm attr = None" "exec (header_of ty nm) (d_text d) = Some (a, z, k)"
    | "findBlockAttribute (d_text d) ty nm attr = None" "exec (header_of ty nm) (d_text d) = None"
    by (cases "findBlockAttribute (d_text d) ty nm attr"; cases "exec (header_of ty nm) (d_text d)") auto
  then show ?thesis
  proof cases
    case 1
    then have "f < t" "t \<le> length (d_text d)" using attribute_place [OF 1] by simp_all
    then show ?thesis using 1 assms(2,3) SourceDiag by (auto simp: in_doc_def)
  next
    case 2
    then show ?thesis using header_place [OF 2(2)] assms(2,3) SourceDiag by (auto simp: in_doc_def)
  next
    case 3
    then show ?thesis using assms(2,3) SourceDiag by auto
  qed
next
  case (LineDiag lno colStart colEnd msg)
  show ?thesis
  proof (cases "lno < 1 \<or> lno > int (length (d_lines d))")
    case False
    obtain f l where fl: "d_lines d ! nat (lno - 1) = (f, l)" by (cases "d_lines d ! nat (lno - 1)")
    obtain f' t' where c: "clip (length (d_text d)) (int f + max 0 (colStart - 1)) (int f + min (int l) (colEnd - 1)) = (f', t')"
      by (cases "clip (length (d_text d)) (int f + max 0 (colStart - 1)) (int f + min (int l) (colEnd - 1))")
    then show ?thesis using clip_bounds [OF _ c] assms(2,3) False LineDiag fl c by (auto simp: in_doc_def Let_def)
  qed (use assms LineDiag in auto)
qed

text \<open>
  C27. Whatever the error says, every diagnostic lies in the document and marks at least one character of it,
  or its very end.
\<close>

theorem diagnostics_in_document:
  assumes "doc_ok d"
  shows "\<forall>g \<in> set (fst (error_diagnostics d errorStr)). in_doc d g"
proof -
  have all: "\<forall>g \<in> set (fst (fold (diag_step d) gs (ds, errs))). in_doc d g" if "\<forall>g \<in> set ds. in_doc d g" for gs ds errs
    using that
  proof (induction gs arbitrary: ds errs)
    case (Cons g gs)
    obtain ds' errs' where s: "diag_step d g (ds, errs) = (ds', errs')" by (cases "diag_step d g (ds, errs)")
    show ?case using Cons.IH [OF diag_step_in_doc [OF assms Cons.prems s]] s by simp
  qed simp
  show ?thesis unfolding error_diagnostics_def by (rule all) simp
qed

theorem diagnostics_in_document_witness:
  "fst (error_diagnostics (text_doc demo_hcl) (source_error ''job'' ''a'' ''x'')) = [\<lparr>g_from = 11, g_to = 21, g_message = ''x''\<rparr>]
    \<and> list_all (in_doc (text_doc demo_hcl)) (fst (error_diagnostics (text_doc demo_hcl) (source_error ''job'' ''a'' ''x'')))"
proof
  show "fst (error_diagnostics (text_doc demo_hcl) (source_error ''job'' ''a'' ''x'')) = [\<lparr>g_from = 11, g_to = 21, g_message = ''x''\<rparr>]" by code_simp
  show "list_all (in_doc (text_doc demo_hcl)) (fst (error_diagnostics (text_doc demo_hcl) (source_error ''job'' ''a'' ''x'')))"
    unfolding list_all_iff by (rule diagnostics_in_document) (rule doc_ok_text_doc)
qed

end
