(* ===== verification/Base64.thy ===== *)
theory Base64
  imports JsPrelude
begin

text \<open>
  The browser's \<open>btoa\<close> and \<open>atob\<close>, by which a pipeline file travels as text. Characters are bytes, so
  \<open>btoa\<close> does not fail; \<open>atob\<close> fails on text that is not base64.

  Lemmas: decoding an encoded text gives it back; an encoded text is made of the alphabet and padding.
\<close>

section \<open>Groups of bits\<close>

definition b64_alphabet :: string where
  "b64_alphabet = ''ABCDEFGHIJKLMNOPQRSTUVWXYZabcdefghijklmnopqrstuvwxyz0123456789+/''"

definition b64_char :: "nat \<Rightarrow> char" where
  "b64_char n = b64_alphabet ! n"

definition b64_val :: "char \<Rightarrow> nat option" where
  "b64_val c = (if c \<in> set b64_alphabet then Some (length (takeWhile (\<lambda>d. d \<noteq> c) b64_alphabet)) else None)"

text \<open>Three bytes are four groups of six bits; what is left over is filled up with zero bits.\<close>

fun sextets :: "nat list \<Rightarrow> nat list" where
  "sextets (a # b # c # r) =
     (let n = a * 65536 + b * 256 + c
      in n div 262144 # n div 4096 mod 64 # n div 64 mod 64 # n mod 64 # sextets r)"
| "sextets [a, b] = (let n = a * 256 + b in [n div 1024, n div 16 mod 64, n mod 16 * 4])"
| "sextets [a] = [a div 4, a mod 4 * 16]"
| "sextets [] = []"

fun octets :: "nat list \<Rightarrow> nat list" where
  "octets (a # b # c # d # r) =
     (let n = a * 262144 + b * 4096 + c * 64 + d
      in n div 65536 # n div 256 mod 256 # n mod 256 # octets r)"
| "octets [a, b, c] = (let n = a * 4096 + b * 64 + c in [n div 1024, n div 4 mod 256])"
| "octets [a, b] = [(a * 64 + b) div 16]"
| "octets [a] = []"
| "octets [] = []"

section \<open>Encoding and decoding\<close>

definition btoa :: "string \<Rightarrow> string" where
  "btoa s = map b64_char (sextets (map of_char s)) @ replicate ((3 - length s mod 3) mod 3) CHR ''=''"

text \<open>ASCII whitespace is dropped, then padding where the length is a multiple of four.\<close>

definition ascii_space :: "char \<Rightarrow> bool" where
  "ascii_space c \<longleftrightarrow> (of_char c :: nat) \<in> {9, 10, 12, 13, 32}"

definition drop_padding :: "string \<Rightarrow> string" where
  "drop_padding s =
     (if length s mod 4 \<noteq> 0 \<or> s = '''' then s
      else if last s \<noteq> CHR ''='' then s
      else if butlast s \<noteq> '''' \<and> last (butlast s) = CHR ''='' then butlast (butlast s)
      else butlast s)"

definition atob :: "string \<Rightarrow> string option" where
  "atob s =
     (let t = drop_padding (filter (\<lambda>c. \<not> ascii_space c) s)
      in if length t mod 4 = 1 \<or> (\<exists>c \<in> set t. b64_val c = None) then None
         else Some (map char_of (octets (map (\<lambda>c. the (b64_val c)) t))))"

section \<open>Round trip\<close>

lemma b64_alphabet_facts: "length b64_alphabet = 64" "distinct b64_alphabet"
  by (simp_all add: b64_alphabet_def)

lemma b64_val_char: "n < 64 \<Longrightarrow> b64_val (b64_char n) = Some n"
proof -
  assume n: "n < 64"
  have "takeWhile (\<lambda>d. d \<noteq> b64_alphabet ! n) b64_alphabet = take n b64_alphabet"
    by (rule takeWhile_eq_take_P_nth)
      (use n b64_alphabet_facts nth_eq_iff_index_eq [of b64_alphabet] in auto)
  then show ?thesis using n b64_alphabet_facts by (simp add: b64_val_def b64_char_def)
qed

lemma b64_plain: "n < 64 \<Longrightarrow> \<not> ascii_space (b64_char n) \<and> b64_char n \<noteq> CHR ''=''"
proof -
  assume "n < 64"
  then have "b64_char n \<in> set b64_alphabet" using b64_alphabet_facts by (simp add: b64_char_def)
  moreover have "\<forall>c \<in> set b64_alphabet. \<not> ascii_space c \<and> c \<noteq> CHR ''=''"
    by (simp add: b64_alphabet_def ascii_space_def)
  ultimately show ?thesis by blast
qed

lemma sextets_bound: "(\<forall>a \<in> set as. a < 256) \<Longrightarrow> n \<in> set (sextets as) \<Longrightarrow> n < 64"
  by (induction as rule: sextets.induct) (auto simp: Let_def)

lemma length_sextets:
  "length (sextets as) + (3 - length as mod 3) mod 3 = 4 * ((length as + 2) div 3)"
proof (induction as rule: sextets.induct)
  case (1 a b c r)
  have l: "length (a # b # c # r) = length r + 3" by simp
  have "(length r + 3 + 2) div 3 = Suc ((length r + 2) div 3)" by presburger
  moreover have "length (sextets (a # b # c # r)) = length (sextets r) + 4" by (simp add: Let_def)
  ultimately show ?case unfolding l using 1 by (simp only: mod_add_self2) simp
qed (simp_all add: Let_def)

lemma octets_sextets: "(\<forall>a \<in> set as. a < 256) \<Longrightarrow> octets (sextets as) = as"
proof (induction as rule: sextets.induct)
  case (1 a b c r)
  define n where "n = a * 65536 + b * 256 + c"
  have lt: "a < 256" "b < 256" "c < 256" using 1 by simp_all
  have n: "n = (a * 256 + b) * 256 + c" by (simp add: n_def algebra_simps)
  have n256: "n div 256 = a * 256 + b"
    unfolding n using lt(3) div_mult_self3 [of 256 "a * 256 + b" c] by (simp only: div_less)
  have m256: "n mod 256 = c"
    unfolding n using lt(3) mod_mult_self3 [of "a * 256 + b" 256 c] by (simp only: mod_less)
  have "n div 65536 = n div 256 div 256" by (simp add: div_mult2_eq [symmetric])
  then have d: "n div 65536 = a" "n div 256 mod 256 = b" "n mod 256 = c" unfolding n256 m256 using lt(2) by simp_all
  have "n div 262144 * 262144 + n div 4096 mod 64 * 4096 + n div 64 mod 64 * 64 + n mod 64 = n"
  proof -
    define x y z where "x = n div 64" and "y = n div 4096" and "z = n div 262144"
    have "y = x div 64" "z = y div 64" by (simp_all add: x_def y_def z_def div_mult2_eq [symmetric])
    then have "x = y * 64 + x mod 64" "y = z * 64 + y mod 64" by simp_all
    moreover have "n = x * 64 + n mod 64" by (simp add: x_def)
    ultimately show ?thesis by (simp only: x_def [symmetric] y_def [symmetric] z_def [symmetric])
  qed
  then have "octets (sextets (a # b # c # r)) = n div 65536 # n div 256 mod 256 # n mod 256 # octets (sextets r)"
    by (simp add: Let_def n_def [symmetric])
  then show ?case using 1 d by simp
next
  case (2 a b)
  define n where "n = a * 256 + b"
  have d: "n div 256 = a" "n mod 256 = b" using 2 by (auto simp: n_def)
  have m: "n div 1024 * 4096 + n div 16 mod 64 * 64 + n mod 16 * 4 = 4 * n"
  proof -
    define x z where "x = n div 16" and "z = n div 1024"
    have "z = x div 64" by (simp add: x_def z_def div_mult2_eq [symmetric])
    then have "x = z * 64 + x mod 64" by simp
    moreover have "n = x * 16 + n mod 16" by (simp add: x_def)
    ultimately show ?thesis unfolding x_def [symmetric] z_def [symmetric] by linarith
  qed
  have "octets (sextets [a, b]) = [4 * n div 1024, 4 * n div 4 mod 256]"
    by (simp only: sextets.simps octets.simps Let_def n_def [symmetric] m)
  moreover have "4 * n div 1024 = n div 256" using div_mult_mult1 [of 4 n 256] by simp
  ultimately show ?case using d by simp
next
  case (3 a)
  have g: "(x * 64 + y * 16) div 16 = x * 4 + y" for x y :: nat by simp
  have "(a div 4 * 64 + a mod 4 * 16) div 16 = a" unfolding g by (rule div_mult_mod_eq)
  then show ?case by simp
qed simp

lemma drop_padding_btoa:
  assumes "\<forall>n \<in> set ns. n < 64" and "p = length (replicate p x)" and "p \<le> 2" and "(length ns + p) mod 4 = 0"
  shows "drop_padding (map b64_char ns @ replicate p CHR ''='') = map b64_char ns"
proof -
  have last: "ns \<noteq> [] \<Longrightarrow> b64_char (last ns) \<noteq> CHR ''=''" using assms(1) b64_plain by simp
  from assms(3) consider "p = 0" | "p = 1" | "p = 2" by linarith
  then show ?thesis
  proof cases
    case 1
    then show ?thesis using last by (cases "ns = []") (simp_all add: drop_padding_def last_map)
  next
    case 2
    then have "ns \<noteq> []" using assms(4) by auto
    then show ?thesis using 2 last assms(4) by (simp add: drop_padding_def last_map butlast_append)
  next
    case 3
    then have "replicate p CHR ''='' = [CHR ''='', CHR ''='']" by (simp add: numeral_2_eq_2)
    then show ?thesis using 3 assms(4) by (simp add: drop_padding_def butlast_append)
  qed
qed

lemma atob_of_btoa: "atob (btoa s) = Some s"
proof -
  define ns where "ns = sextets (map of_char s :: nat list)"
  define p where "p = (3 - length s mod 3) mod 3"
  have bytes: "\<forall>a \<in> set (map of_char s :: nat list). a < 256" by auto
  have b: "\<forall>n \<in> set ns. n < 64" using sextets_bound [OF bytes] by (simp add: ns_def)
  obtain q where len: "length ns + p = 4 * q"
    using length_sextets [of "map of_char s"] by (auto simp: ns_def p_def)
  have p: "p \<le> 2" unfolding p_def using mod_less_divisor [of 3 "3 - length s mod 3"] by linarith
  have t: "btoa s = map b64_char ns @ replicate p CHR ''=''" by (simp add: btoa_def ns_def p_def)
  have "filter (\<lambda>c. \<not> ascii_space c) (btoa s) = btoa s"
    unfolding t using b b64_plain by (intro filter_True) (auto simp: ascii_space_def)
  then have d: "drop_padding (filter (\<lambda>c. \<not> ascii_space c) (btoa s)) = map b64_char ns"
    unfolding t using drop_padding_btoa [of ns p] b p len by simp
  have "map (\<lambda>c. the (b64_val c)) (map b64_char ns) = ns"
    using b by (simp add: b64_val_char map_idI)
  moreover have "\<not> (\<exists>c \<in> set (map b64_char ns). b64_val c = None)" using b by (simp add: b64_val_char)
  moreover have "length ns mod 4 \<noteq> 1" using len p by presburger
  moreover have "map char_of (octets ns) = s"
    unfolding ns_def by (simp add: octets_sextets [OF bytes] o_def)
  ultimately show ?thesis unfolding atob_def Let_def d by simp
qed

section \<open>Properties\<close>

text \<open>
  Decoding an encoded text gives the text back.
\<close>

theorem atob_btoa: "atob (btoa s) = Some s"
  by (rule atob_of_btoa)

end
