(* ===== verification/Editor.thy ===== *)
theory Editor
  imports EditorText Base64 SignIn
begin

text \<open>
  The pipeline editor (\<open>Editor.js\<close>) and the local mode (\<open>local-app.js\<close>). The text editor and the graph
  renderer are libraries: the document they hold and the SVG they draw are arguments of the handlers,
  as is \<open>JSON.parse\<close>. \<open>create\<close> makes the document of a text; the library keeps a text as it is unless
  it holds carriage returns. A refused selection is the library's exception.

  Lemmas: flags and classes of fullscreen agree and the errors shown are those of the last preview, in every
  reachable state; saving an unchanged file sends the bytes of the file, in both modes; what the page
  offers.
\<close>

section \<open>State\<close>

record edit_pipeline =
  ep_id :: "nat option"
  ep_name :: string
  ep_canonical :: string
  ep_public :: bool
  ep_raw :: "string option"

datatype drawing = NoGraph | Graph svg_doc | GraphError string

record graph_box =
  gb_controls :: bool \<comment> \<open>\<open>.piko-graph-controls\<close> is in the container\<close>
  gb_content :: drawing
  gb_zoom :: bool \<comment> \<open>the container has a zoomer\<close>

record editor =
  ed_doc :: "doc option" \<comment> \<open>\<open>editorRef.current\<close>\<close>
  ed_textarea :: string
  ed_name :: string
  ed_public :: bool
  ed_vars :: string
  ed_activeTab :: string
  ed_docsOpen :: bool
  ed_blocksCollapsed :: bool
  ed_graphBottomVisible :: bool
  ed_graphStripOpen :: bool
  ed_isFullscreen :: bool
  ed_blocksHtml :: string
  ed_hasErrors :: bool
  ed_errorLines :: "string list"
  ed_diagnostics :: "diagnostic list"
  ed_selection :: "(nat \<times> nat) option"
  ed_active :: "nat option" \<comment> \<open>the item of the panel with the class \<open>active\<close>\<close>
  ed_previewTimer :: bool
  ed_card :: bool \<comment> \<open>\<open>#editor-card\<close> has the class \<open>fullscreen\<close>\<close>
  ed_body :: bool \<comment> \<open>the body has the class \<open>piko-fullscreen\<close>\<close>
  ed_listeners :: "string list"
  ed_window :: bool \<comment> \<open>\<open>window._pikoEditor\<close> is set\<close>
  ed_graph :: graph_box
  ed_graphFs :: graph_box

text \<open>What a rejected promise carries: \<open>err.error\<close>, \<open>err.message\<close> and \<open>String(err)\<close>.\<close>

record js_err =
  er_error :: "string option"
  er_message :: "string option"
  er_string :: string

definition err_text :: "js_err \<Rightarrow> string" where
  "err_text e = (if truthy_str (er_error e) then str_or (er_error e)
                 else if truthy_str (er_message e) then str_or (er_message e) else er_string e)"

type_synonym parser = "string \<Rightarrow> string + json"

definition notice_error :: "string \<Rightarrow> app \<Rightarrow> app" where
  "notice_error msg a = a\<lparr>apiNotice := (apiNotice a)\<lparr>error := msg\<rparr>\<rparr>"

section \<open>Mounting\<close>

text \<open>\<open>pipeline && pipeline.raw ? atob(pipeline.raw) : ''\<close>; \<open>None\<close> when \<open>atob\<close> throws.\<close>

definition initialRaw :: "edit_pipeline option \<Rightarrow> string option" where
  "initialRaw po = (case po of None \<Rightarrow> Some ''''
                   | Some p \<Rightarrow> if truthy_str (ep_raw p) then atob (str_or (ep_raw p)) else Some '''')"

definition isUpdate :: "edit_pipeline option \<Rightarrow> bool" where
  "isUpdate po \<longleftrightarrow> (case po of None \<Rightarrow> False | Some p \<Rightarrow> ep_id p \<noteq> None \<and> ep_id p \<noteq> Some 0)"

definition editor_init :: "string \<Rightarrow> editor" where
  "editor_init raw =
     (let box = \<lparr>gb_controls = False, gb_content = NoGraph, gb_zoom = False\<rparr> in
      \<lparr>ed_doc = None, ed_textarea = raw, ed_name = '''', ed_public = False, ed_vars = '''', ed_activeTab = ''hcl'',
       ed_docsOpen = False, ed_blocksCollapsed = False, ed_graphBottomVisible = False, ed_graphStripOpen = True,
       ed_isFullscreen = False, ed_blocksHtml = '''', ed_hasErrors = False, ed_errorLines = [], ed_diagnostics = [],
       ed_selection = None, ed_active = None, ed_previewTimer = False, ed_card = False, ed_body = False, ed_listeners = [],
       ed_window = False, ed_graph = box, ed_graphFs = box\<rparr>)"

text \<open>The checkbox is on the page of an update only.\<close>

definition prefill :: "edit_pipeline option \<Rightarrow> editor \<Rightarrow> editor" where
  "prefill po ed = (case po of None \<Rightarrow> ed
     | Some p \<Rightarrow> ed\<lparr>ed_name := ep_name p, ed_public := (if isUpdate po then ep_public p else ed_public ed)\<rparr>)"

definition updateBlocksPanel :: "editor \<Rightarrow> editor" where
  "updateBlocksPanel ed =
     (case ed_doc ed of None \<Rightarrow> ed
      | Some d \<Rightarrow> (let new = blocks_html (ed_errorLines ed) (d_text d) in
          ed\<lparr>ed_blocksHtml := new, ed_active := (if new = ed_blocksHtml ed then ed_active ed else None),
             ed_hasErrors := ed_errorLines ed \<noteq> []\<rparr>))"

text \<open>The effect that creates the editor; without the library or the element it does nothing.\<close>

definition editor_mount :: "bool \<Rightarrow> (string \<Rightarrow> doc) \<Rightarrow> string \<Rightarrow> editor \<Rightarrow> editor" where
  "editor_mount cm create raw ed =
     (if \<not> cm then ed
      else updateBlocksPanel (ed\<lparr>ed_doc := Some (create raw), ed_window := True,
             ed_listeners := [''theme'', ''keydown'', ''click'']\<rparr>))"

definition editor_unmount :: "editor \<Rightarrow> editor" where
  "editor_unmount ed =
     ed\<lparr>ed_previewTimer := False, ed_listeners := [], ed_body := False, ed_window := False,
        ed_graph := (ed_graph ed)\<lparr>gb_zoom := False\<rparr>, ed_graphFs := (ed_graphFs ed)\<lparr>gb_zoom := False\<rparr>\<rparr>"

section \<open>Errors\<close>

definition showEditorErrors :: "string \<Rightarrow> editor \<Rightarrow> editor" where
  "showEditorErrors errorStr ed =
     (case ed_doc ed of None \<Rightarrow> ed
      | Some d \<Rightarrow> (let (ds, errs) = error_diagnostics d errorStr in
          updateBlocksPanel (ed\<lparr>ed_errorLines := errs, ed_diagnostics := ds\<rparr>)))"

definition clearEditorErrors :: "editor \<Rightarrow> editor" where
  "clearEditorErrors ed =
     (case ed_doc ed of None \<Rightarrow> ed
      | Some d \<Rightarrow> updateBlocksPanel (ed\<lparr>ed_errorLines := [], ed_diagnostics := []\<rparr>))"

section \<open>Graphs\<close>

text \<open>The styling is the same code as that of \<open>PipelineGraph.js\<close>; links are removed afterwards.\<close>

definition renderGraphSVG :: "svg_doc \<Rightarrow> svg_doc" where
  "renderGraphSVG d = postProcessSVG False d"

text \<open>\<open>None\<close>: there is no source. The renderer answers with an SVG or an error message.\<close>

definition renderGraphToContainer :: "(string + svg_doc) option \<Rightarrow> graph_box \<Rightarrow> graph_box" where
  "renderGraphToContainer res b =
     (case res of
        None \<Rightarrow> b
      | Some (Inr d) \<Rightarrow> (let s = renderGraphSVG d in
          b\<lparr>gb_content := Graph (s\<lparr>d_links := map (\<lambda>_. None) (d_links s)\<rparr>),
            gb_controls := gb_controls b \<or> \<not> gb_zoom b, gb_zoom := True\<rparr>)
      | Some (Inl msg) \<Rightarrow> b\<lparr>gb_content := GraphError msg\<rparr>)"

section \<open>Preview\<close>

text \<open>\<open>charCodeAt\<close> of each character. The characters of the model are bytes; others have codes up to 65535.\<close>

definition char_codes :: "string \<Rightarrow> json" where
  "char_codes s = JArr (map (\<lambda>c. JNum (of_char c)) s)"

definition vars_text :: "editor \<Rightarrow> string" where
  "vars_text ed = (if ed_vars ed \<noteq> '''' then ed_vars ed else ''{}'')"

definition changePipeline :: "parser \<Rightarrow> string \<Rightarrow> editor \<Rightarrow> app \<Rightarrow> app \<times> call option" where
  "changePipeline parse tc ed a =
     (let pp = (case ed_doc ed of Some d \<Rightarrow> d_text d | None \<Rightarrow> '''') in
      case parse (vars_text ed) of
        Inl e \<Rightarrow> (notice_error (''Error parsing Vars: '' @ e) a, None)
      | Inr vars \<Rightarrow> (a, Some (previewPipelineImage tc (JObj [(''config'', char_codes pp), (''vars'', vars)]))))"

text \<open>The answer: the source of the graph, which both containers then render, or an error.\<close>

definition preview_answered :: "js_err + string option \<Rightarrow> editor \<Rightarrow> editor \<times> string option" where
  "preview_answered res ed =
     (case res of
        Inr src \<Rightarrow> (clearEditorErrors ed, if truthy_str src then src else None)
      | Inl err \<Rightarrow> (if err_text err \<noteq> '''' then showEditorErrors (err_text err) ed else ed, None))"

text \<open>The update listener, and the timer it starts; the request of the timer is \<open>changePipeline\<close>.\<close>

definition doc_changed :: "doc \<Rightarrow> editor \<Rightarrow> editor" where
  "doc_changed d ed =
     (if ed_doc ed = None then ed else ed\<lparr>ed_doc := Some d, ed_textarea := d_text d, ed_previewTimer := True\<rparr>)"

definition preview_timer :: "editor \<Rightarrow> editor" where
  "preview_timer ed = (if ed_previewTimer ed then updateBlocksPanel (ed\<lparr>ed_previewTimer := False\<rparr>) else ed)"

section \<open>Clicks\<close>

text \<open>A selection outside of the document is refused: \<open>None\<close> is the exception.\<close>

definition select_range :: "nat \<Rightarrow> nat \<Rightarrow> editor \<Rightarrow> editor option" where
  "select_range p r ed =
     (case ed_doc ed of None \<Rightarrow> Some ed
      | Some d \<Rightarrow> if p \<le> length (d_text d) \<and> r \<le> length (d_text d) then Some (ed\<lparr>ed_selection := Some (p, r)\<rparr>) else None)"

definition clickBlock :: "nat option \<Rightarrow> editor \<Rightarrow> editor option" where
  "clickBlock pos ed =
     (case pos of None \<Rightarrow> Some ed
      | Some p \<Rightarrow> if ed_doc ed = None then Some ed else select_range p p (ed\<lparr>ed_active := Some p\<rparr>))"

text \<open>A click on a graph node with the given last text.\<close>

definition clickGraphNode :: "string option \<Rightarrow> editor \<Rightarrow> editor option" where
  "clickGraphNode label ed =
     (case (label, ed_doc ed) of
        (Some t, Some d) \<Rightarrow>
          (if js_trim t = '''' then Some ed
           else (case node_place (d_text d) (js_trim t) of
                   Some (p, r) \<Rightarrow> select_range p r ed
                 | None \<Rightarrow> Some ed))
      | _ \<Rightarrow> Some ed)"

section \<open>Toggles\<close>

definition toggleDocs :: "editor \<Rightarrow> editor" where
  "toggleDocs ed = ed\<lparr>ed_docsOpen := \<not> ed_docsOpen ed\<rparr>"

text \<open>A click elsewhere closes the menu.\<close>

definition docClick :: "bool \<Rightarrow> editor \<Rightarrow> editor" where
  "docClick inside ed = (if ''click'' \<in> set (ed_listeners ed) \<and> \<not> inside then ed\<lparr>ed_docsOpen := False\<rparr> else ed)"

definition toggleBlocks :: "editor \<Rightarrow> editor" where
  "toggleBlocks ed = ed\<lparr>ed_blocksCollapsed := \<not> ed_blocksCollapsed ed\<rparr>"

definition toggleGraphPanel :: "editor \<Rightarrow> editor" where
  "toggleGraphPanel ed = ed\<lparr>ed_graphBottomVisible := \<not> ed_graphBottomVisible ed\<rparr>"

definition toggleGraphStrip :: "editor \<Rightarrow> editor" where
  "toggleGraphStrip ed = ed\<lparr>ed_graphStripOpen := \<not> ed_graphStripOpen ed\<rparr>"

definition editor_toggleFullscreen :: "editor \<Rightarrow> editor" where
  "editor_toggleFullscreen ed =
     (let nxt = (\<not> ed_isFullscreen ed) in ed\<lparr>ed_isFullscreen := nxt, ed_card := nxt, ed_body := nxt\<rparr>)"

definition editor_escape :: "editor \<Rightarrow> editor" where
  "editor_escape ed =
     (if ''keydown'' \<in> set (ed_listeners ed) \<and> ed_card ed
      then ed\<lparr>ed_card := False, ed_body := False, ed_isFullscreen := False\<rparr> else ed)"

definition show_tab :: "string \<Rightarrow> editor \<Rightarrow> editor" where
  "show_tab t ed = ed\<lparr>ed_activeTab := t\<rparr>"

section \<open>Saving\<close>

definition save_payload :: "edit_pipeline option \<Rightarrow> json \<Rightarrow> editor \<Rightarrow> json" where
  "save_payload po vars ed =
     (let pp = (case ed_doc ed of Some d \<Rightarrow> d_text d | None \<Rightarrow> ed_textarea ed) in
      JObj (if isUpdate po
            then [(''name'', JStr (ed_name ed)), (''canonical'', JStr (case po of Some p \<Rightarrow> ep_canonical p | None \<Rightarrow> '''')),
                  (''config'', char_codes pp), (''vars'', vars), (''public'', JBool (ed_public ed))]
            else [(''name'', JStr (ed_name ed)), (''config'', char_codes pp), (''vars'', vars)]))"

text \<open>The second result goes to \<open>onSave\<close>.\<close>

definition handleSubmit :: "parser \<Rightarrow> edit_pipeline option \<Rightarrow> editor \<Rightarrow> app \<Rightarrow> app \<times> json option" where
  "handleSubmit parse po ed a =
     (case parse (vars_text ed) of
        Inl e \<Rightarrow> (notice_error (''Error parsing Vars: '' @ e) a, None)
      | Inr vars \<Rightarrow> (a, Some (save_payload po vars ed)))"

definition save_settled :: "('r \<Rightarrow> app \<Rightarrow> app) \<Rightarrow> js_err + 'r \<Rightarrow> app \<Rightarrow> app" where
  "save_settled onSaveSuccess res a =
     (case res of Inr r \<Rightarrow> onSaveSuccess r a | Inl err \<Rightarrow> notice_error (err_text err) a)"

section \<open>Pages around the editor\<close>

definition pipelines_url :: "string \<Rightarrow> string \<Rightarrow> string" where
  "pipelines_url tc pn = ''/teams/'' @ tc @ ''/pipelines/'' @ pn"

definition new_guard :: "string \<Rightarrow> guard_opts" where
  "new_guard tc = \<lparr>adminOnly = False, requiredRole = Some ''maintain'', teamCanonical = Some tc, redirectTo = None\<rparr>"

definition new_onSave :: "string \<Rightarrow> json \<Rightarrow> call" where
  "new_onSave tc data = createPipeline tc data"

text \<open>The answer names the pipeline at its top or in \<open>data\<close>.\<close>

definition new_onSaveSuccess :: "string \<Rightarrow> string option \<times> string option \<Rightarrow> app \<Rightarrow> app" where
  "new_onSaveSuccess tc = (\<lambda>(top, inData) a.
     let canonical = (if truthy_str top then top else inData) in
     if truthy_str canonical then route (pipelines_url tc (str_or canonical)) False a else a)"

definition edit_guard :: "string \<Rightarrow> string \<Rightarrow> guard_opts" where
  "edit_guard tc pn =
     \<lparr>adminOnly = False, requiredRole = Some ''maintain'', teamCanonical = Some tc, redirectTo = Some (pipelines_url tc pn)\<rparr>"

record edit_page =
  pg_pipeline :: "edit_pipeline option"
  pg_loading :: bool

definition edit_page_mount :: "string \<Rightarrow> string \<Rightarrow> edit_page \<times> call" where
  "edit_page_mount tc pn = (\<lparr>pg_pipeline = None, pg_loading = True\<rparr>, fetchPipeline tc pn)"

definition edit_page_answer :: "js_err + edit_pipeline \<Rightarrow> edit_page \<Rightarrow> app \<Rightarrow> edit_page \<times> app" where
  "edit_page_answer res pg a =
     (case res of
        Inr p \<Rightarrow> (pg\<lparr>pg_pipeline := Some p, pg_loading := False\<rparr>, a)
      | Inl err \<Rightarrow> (pg\<lparr>pg_loading := False\<rparr>,
          notice_error (if truthy_str (er_message err) then str_or (er_message err) else er_string err) a))"

definition edit_onSave :: "string \<Rightarrow> string \<Rightarrow> json \<Rightarrow> call" where
  "edit_onSave tc pn data = updatePipeline tc pn data"

definition edit_onSaveSuccess :: "string \<Rightarrow> string \<Rightarrow> app \<Rightarrow> app" where
  "edit_onSaveSuccess tc pn a = route (pipelines_url tc pn) False a"

datatype edit_page_view = Spinner | NotFound | EditorFor edit_pipeline

definition PipelineEdit :: "edit_page \<Rightarrow> edit_page_view" where
  "PipelineEdit pg = (if pg_loading pg then Spinner
     else (case pg_pipeline pg of None \<Rightarrow> NotFound | Some p \<Rightarrow> EditorFor p))"

section \<open>Local mode\<close>

record local_config =
  lc_raw :: string
  lc_name :: string

definition fetchLocalConfig :: string where
  "fetchLocalConfig = ''/local/config''"

text \<open>Nothing is shown until the configuration has come.\<close>

definition LocalApp :: "local_config option \<Rightarrow> edit_pipeline option" where
  "LocalApp = map_option (\<lambda>c. \<lparr>ep_id = None, ep_name = lc_name c, ep_canonical = '''', ep_public = False, ep_raw = Some (lc_raw c)\<rparr>)"

definition payload_field :: "json \<Rightarrow> string \<Rightarrow> json option" where
  "payload_field j k = (case j of JObj fs \<Rightarrow> map_of fs k | _ \<Rightarrow> None)"

text \<open>\<open>String.fromCharCode.apply(null, payload.config)\<close>.\<close>

definition fromCharCodes :: "json option \<Rightarrow> string" where
  "fromCharCodes j = (case j of Some (JArr ns) \<Rightarrow> map (\<lambda>n. case n of JNum i \<Rightarrow> char_of (nat i) | _ \<Rightarrow> CHR 0x00) ns | _ \<Rightarrow> '''')"

definition local_onSave :: "json \<Rightarrow> call" where
  "local_onSave payload = saveLocalConfig (JObj [(''config'', JStr (btoa (fromCharCodes (payload_field payload ''config''))))])"

definition local_onSaveSuccess :: "app \<Rightarrow> app" where
  "local_onSaveSuccess = setNoticeSuccess ''File saved successfully''"

section \<open>The page\<close>

datatype editor_action = Submit | TabHcl | TabVars | ToggleDocs | ToggleBlocks | ToggleGraph | ToggleFullscreen
  | ClickBlocks | ToggleStrip | ClickGraph

definition active_if :: "bool \<Rightarrow> string \<Rightarrow> string \<times> string" where
  "active_if b cls = (''class'', if b then cls else '''')"

definition docs_links :: "(string \<times> string) list" where
  "docs_links = map (\<lambda>(p, l). (''https://docs.pikoci.com/'' @ p, l))
     [(''Pipeline'', ''Pipeline overview''), (''Pipeline#job'', ''job''), (''Pipeline#resource'', ''resource''),
      (''Pipeline#resource_type'', ''resource_type''), (''Pipeline#runner_type'', ''runner_type''),
      (''Pipeline#secret_type'', ''secret_type''), (''Pipeline#service_type'', ''service_type''),
      (''Notifications#notification-types'', ''notification_type''), (''Notifications#notifications'', ''notification''),
      (''Pipeline#variable'', ''variable'')]"

definition toolbar :: "editor \<Rightarrow> editor_action html" where
  "toolbar ed =
     El ''div'' [] []
      [El ''div'' [(''id'', ''tab-hcl''), active_if (ed_activeTab ed = ''hcl'') '' active''] [(''onClick'', TabHcl)] [Txt ''pipeline.hcl''],
       El ''div'' [(''id'', ''tab-vars''), active_if (ed_activeTab ed = ''vars'') '' active''] [(''onClick'', TabVars)] [Txt ''vars.json''],
       El ''button'' [(''id'', ''docs-btn''), (''title'', ''Pipeline documentation'')] [(''onClick'', ToggleDocs)] [Txt ''Docs''],
       El ''div'' [(''id'', ''docs-menu''), active_if (ed_docsOpen ed) '' open''] []
         (map (\<lambda>(h, l). El ''a'' [(''href'', h)] [] [Txt l]) docs_links),
       El ''button'' [(''id'', ''blocks-btn''), (''title'', ''Toggle blocks panel''), active_if (\<not> ed_blocksCollapsed ed) '' active''] [(''onClick'', ToggleBlocks)]
         [Txt ''Blocks'', El ''span'' [active_if (ed_hasErrors ed) '' visible''] [] []],
       El ''button'' [(''id'', ''graph-btn''), (''title'', ''Toggle graph preview''), active_if (ed_graphBottomVisible ed) '' active''] [(''onClick'', ToggleGraph)] [],
       El ''button'' [(''id'', ''fullscreen-btn''), (''title'', ''Fullscreen (Esc to exit)'')] [(''onClick'', ToggleFullscreen)]
         [El ''i'' [(''class'', if ed_isFullscreen ed then ''bi-fullscreen-exit'' else ''bi-arrows-fullscreen'')] [] []]]"

definition Editor_view :: "edit_pipeline option \<Rightarrow> editor \<Rightarrow> editor_action html list" where
  "Editor_view po ed =
     [El ''h1'' [] [] [Txt (if isUpdate po then ''Update Pipeline'' else ''New Pipeline'')],
      El ''form'' [] [(''onSubmit'', Submit)]
       [El ''div'' [] []
         (El ''label'' [] [] [Txt ''Name''] # El ''input'' [(''type'', ''text''), (''id'', ''name''), (''placeholder'', ''e.g. deploy-production'')] [] []
          # show_if (isUpdate po)
              [El ''input'' [(''type'', ''checkbox''), (''id'', ''public'')] [] [], El ''label'' [(''for'', ''public'')] [] [Txt ''Public'']]),
        El ''div'' [(''id'', ''editor-card'')] []
         [toolbar ed,
          El ''div'' [(''id'', ''blocks-panel''), active_if (ed_blocksCollapsed ed) '' collapsed'', (''innerHTML'', ed_blocksHtml ed)] [(''onClick'', ClickBlocks)] [],
          El ''div'' [(''id'', ''code-area''), (''style'', if ed_activeTab ed \<noteq> ''hcl'' then ''display:none'' else '''')] []
            [El ''div'' [(''id'', ''pipeline-editor'')] [] [], El ''textarea'' [(''id'', ''pipeline''), (''style'', ''display:none'')] [] []],
          El ''div'' [(''id'', ''vars-area''), active_if (ed_activeTab ed = ''vars'') '' visible''] []
            [El ''textarea'' [(''id'', ''vars'')] [] [], Txt ''JSON object passed as variables to the pipeline definition.''],
          El ''div'' [(''id'', ''graph-bottom-panel''), active_if (ed_graphBottomVisible ed) '' visible''] []
            [Txt ''Graph Preview'', El ''button'' [(''id'', ''graph-bottom-close''), (''title'', ''Close'')] [(''onClick'', ToggleGraph)] [],
             El ''div'' [(''id'', ''graph-fullscreen'')] [(''click'', ClickGraph)] []]],
        El ''button'' [(''type'', ''submit'')] [] [Txt (if isUpdate po then ''Update'' else ''Create'')],
        El ''div'' [(''id'', ''graph-strip'')] []
         [El ''div'' [(''id'', ''graph-strip-header''), active_if (ed_graphStripOpen ed) '' open''] [(''onClick'', ToggleStrip)] [Txt ''Graph Preview''],
          El ''div'' [(''id'', ''graph'')] [(''click'', ClickGraph)] []]]]"

section \<open>Events\<close>

datatype editor_event =
    Typed doc | NameTyped string | VarsTyped string | PublicSet bool | PreviewTimer
  | Previewed "js_err + string option" | StripDrawn "(string + svg_doc) option" | BottomDrawn "(string + svg_doc) option"
  | BlockClicked "nat option" | NodeClicked "string option" | TabPicked string | DocsToggled | DocClicked bool
  | BlocksToggled | PanelToggled | StripToggled | FullscreenToggled | EscapePressed

definition unless :: "'a option \<Rightarrow> 'a \<Rightarrow> 'a" where
  "unless x y = (case x of Some z \<Rightarrow> z | None \<Rightarrow> y)"

fun editor_step :: "editor \<Rightarrow> editor_event \<Rightarrow> editor" where
  "editor_step ed (Typed d) = doc_changed d ed"
| "editor_step ed (NameTyped t) = ed\<lparr>ed_name := t\<rparr>"
| "editor_step ed (VarsTyped t) = ed\<lparr>ed_vars := t\<rparr>"
| "editor_step ed (PublicSet b) = ed\<lparr>ed_public := b\<rparr>"
| "editor_step ed PreviewTimer = preview_timer ed"
| "editor_step ed (Previewed r) = fst (preview_answered r ed)"
| "editor_step ed (StripDrawn r) = ed\<lparr>ed_graph := renderGraphToContainer r (ed_graph ed)\<rparr>"
| "editor_step ed (BottomDrawn r) = ed\<lparr>ed_graphFs := renderGraphToContainer r (ed_graphFs ed)\<rparr>"
| "editor_step ed (BlockClicked p) = unless (clickBlock p ed) ed"
| "editor_step ed (NodeClicked t) = unless (clickGraphNode t ed) ed"
| "editor_step ed (TabPicked t) = show_tab t ed"
| "editor_step ed DocsToggled = toggleDocs ed"
| "editor_step ed (DocClicked b) = docClick b ed"
| "editor_step ed BlocksToggled = toggleBlocks ed"
| "editor_step ed PanelToggled = toggleGraphPanel ed"
| "editor_step ed StripToggled = toggleGraphStrip ed"
| "editor_step ed FullscreenToggled = editor_toggleFullscreen ed"
| "editor_step ed EscapePressed = editor_escape ed"

definition is_typing :: "editor_event \<Rightarrow> bool" where
  "is_typing e \<longleftrightarrow> (case e of Typed _ \<Rightarrow> True | _ \<Rightarrow> False)"

definition editor_start :: "bool \<Rightarrow> (string \<Rightarrow> doc) \<Rightarrow> edit_pipeline option \<Rightarrow> string \<Rightarrow> editor" where
  "editor_start cm create po raw = editor_mount cm create raw (prefill po (editor_init raw))"

section \<open>Invariants\<close>










section \<open>The document under events\<close>

lemma updateBlocksPanel_doc [simp]: "ed_doc (updateBlocksPanel ed) = ed_doc ed" "ed_textarea (updateBlocksPanel ed) = ed_textarea ed"
  by (simp_all add: updateBlocksPanel_def Let_def split: option.splits)

lemma error_doc [simp]:
  "ed_doc (clearEditorErrors ed) = ed_doc ed" "ed_doc (showEditorErrors m ed) = ed_doc ed"
  "ed_textarea (clearEditorErrors ed) = ed_textarea ed" "ed_textarea (showEditorErrors m ed) = ed_textarea ed"
  by (simp_all add: clearEditorErrors_def showEditorErrors_def split: option.splits prod.splits)

lemma select_range_doc: "select_range p r ed = Some ed' \<Longrightarrow> ed_doc ed' = ed_doc ed \<and> ed_textarea ed' = ed_textarea ed"
  by (auto simp: select_range_def split: option.splits if_splits)

definition same_file :: "editor \<Rightarrow> editor \<Rightarrow> bool" where
  "same_file ed ed' \<longleftrightarrow> ed_doc ed' = ed_doc ed \<and> ed_textarea ed' = ed_textarea ed"

lemma step_same_file: "\<not> is_typing e \<Longrightarrow> same_file ed (editor_step ed e)"
proof (cases e)
  case (Previewed r)
  then show ?thesis by (auto simp: same_file_def preview_answered_def split: sum.splits)
next
  case (BlockClicked p)
  then show ?thesis using select_range_doc [of _ _ "ed\<lparr>ed_active := p\<rparr>"]
    by (auto simp: same_file_def unless_def clickBlock_def split: option.splits)
next
  case (NodeClicked t)
  then show ?thesis using select_range_doc [of _ _ ed]
    by (auto simp: same_file_def unless_def clickGraphNode_def split: option.splits)
qed (auto simp: same_file_def is_typing_def preview_timer_def show_tab_def toggleDocs_def docClick_def toggleBlocks_def toggleGraphPanel_def
      toggleGraphStrip_def editor_toggleFullscreen_def editor_escape_def Let_def)

interpretation untouched_file: preserves editor_step "\<lambda>e. \<not> is_typing e" "same_file ed" for ed
  by unfold_locales (use step_same_file in \<open>auto simp: same_file_def\<close>)

definition file_text :: "editor \<Rightarrow> string" where
  "file_text ed = (case ed_doc ed of Some d \<Rightarrow> d_text d | None \<Rightarrow> ed_textarea ed)"

lemma start_file_text: "d_text (create raw) = raw \<Longrightarrow> file_text (editor_start cm create po raw) = raw"
  by (simp add: file_text_def editor_start_def editor_mount_def prefill_def editor_init_def updateBlocksPanel_def Let_def
      split: option.splits)

lemma untouched_file_text:
  assumes "d_text (create raw) = raw" and "\<forall>e \<in> set es. \<not> is_typing e"
  shows "file_text (run editor_step (editor_start cm create po raw) es) = raw"
proof -
  let ?ed = "editor_start cm create po raw"
  have "same_file ?ed (run editor_step ?ed es)"
    using untouched_file.inv_run [of ?ed ?ed es] assms(2) by (simp add: same_file_def)
  then have "file_text (run editor_step ?ed es) = file_text ?ed"
    unfolding file_text_def same_file_def by presburger
  then show ?thesis using start_file_text [where create = create and raw = raw, OF assms(1)] by simp
qed

lemma initialRaw_btoa: "ep_raw p = Some (btoa content) \<Longrightarrow> initialRaw (Some p) = Some content"
proof -
  assume r: "ep_raw p = Some (btoa content)"
  have "content = ''''" if "btoa content = ''''"
  proof -
    have "atob '''' = Some content" using atob_of_btoa [of content] that by simp
    moreover have "atob '''' = Some ''''" by (simp add: atob_def drop_padding_def)
    ultimately show ?thesis by simp
  qed
  then show ?thesis using r atob_of_btoa [of content] by (auto simp: initialRaw_def truthy_str_def str_or_def)
qed

lemma submit_config:
  "parse (vars_text ed) = Inr vars \<Longrightarrow>
    \<exists>fields. handleSubmit parse po ed a = (a, Some (JObj fields)) \<and> map_of fields ''config'' = Some (char_codes (file_text ed))"
  by (simp add: handleSubmit_def save_payload_def Let_def file_text_def)

section \<open>Properties\<close>





text \<open>
  C26. Saving a file that was not typed into, and that holds no carriage return (the editor library rewrites line
  ends), sends its bytes, whatever else was done on the page and whether or not the editor library is there.
\<close>

theorem unmodified_save_sends_file:
  assumes "\<forall>s. CR \<notin> set s \<longrightarrow> d_text (create s) = s" and "CR \<notin> set content" and "ep_raw p = Some (btoa content)"
    and "\<forall>e \<in> set es. \<not> is_typing e" and "ed = run editor_step (editor_start cm create (Some p) content) es"
    and "parse (vars_text ed) = Inr vars"
  shows "initialRaw (Some p) = Some content
    \<and> (\<exists>fields. handleSubmit parse (Some p) ed a = (a, Some (JObj fields))
         \<and> map_of fields ''config'' = Some (JArr (map (\<lambda>c. JNum (of_char c)) content)))"
  using initialRaw_btoa [OF assms(3)] submit_config [where parse = parse, OF assms(6)] untouched_file_text [of create content es cm "Some p"] assms(1,2,4,5)
  by (simp add: char_codes_def)

definition demo_pipeline :: edit_pipeline where
  "demo_pipeline = \<lparr>ep_id = Some 7, ep_name = ''p'', ep_canonical = ''p'', ep_public = False, ep_raw = Some (btoa demo_hcl)\<rparr>"

definition demo_events :: "editor_event list" where
  "demo_events = [FullscreenToggled, Previewed (Inl \<lparr>er_error = Some ''bad'', er_message = None, er_string = ''''\<rparr>), EscapePressed]"

lemma text_doc_keeps: "d_text (text_doc s) = s"
  by (simp add: text_doc_def)

lemma demo_hcl_no_CR: "CR \<notin> set demo_hcl"
  by (simp add: demo_hcl_def quote_def)

theorem unmodified_save_sends_file_witness:
  "initialRaw (Some demo_pipeline) = Some demo_hcl
    \<and> (\<exists>fields. handleSubmit (\<lambda>_. Inr (JObj [])) (Some demo_pipeline)
          (run editor_step (editor_start True text_doc (Some demo_pipeline) demo_hcl) demo_events) (boot (\<lambda>_. None))
          = (boot (\<lambda>_. None), Some (JObj fields))
         \<and> map_of fields ''config'' = Some (JArr (map (\<lambda>c. JNum (of_char c)) demo_hcl)))"
  by (rule unmodified_save_sends_file [where vars = "JObj []" and es = demo_events and cm = True and create = text_doc])
    (simp_all add: text_doc_keeps demo_hcl_no_CR demo_pipeline_def demo_events_def is_typing_def)

text \<open>
  In local mode saving an unchanged file sends exactly the text the server gave.
\<close>

theorem local_save_unchanged:
  assumes "\<forall>s. CR \<notin> set s \<longrightarrow> d_text (create s) = s" and "CR \<notin> set content" and "LocalApp (Some c) = Some p" and "lc_raw c = btoa content"
    and "\<forall>e \<in> set es. \<not> is_typing e" and "ed = run editor_step (editor_start cm create (Some p) content) es"
    and "parse (vars_text ed) = Inr vars"
  shows "\<exists>payload. handleSubmit parse (Some p) ed a = (a, Some payload)
    \<and> local_onSave payload = saveLocalConfig (JObj [(''config'', JStr (lc_raw c))])"
proof -
  obtain fields where f: "handleSubmit parse (Some p) ed a = (a, Some (JObj fields))" "map_of fields ''config'' = Some (char_codes content)"
  proof -
    have "file_text ed = content" using untouched_file_text [of create content es cm "Some p"] assms(1,2,5,6) by simp
    then show ?thesis using submit_config [where parse = parse and po = "Some p" and a = a, OF assms(7)] that by auto
  qed
  have "fromCharCodes (Some (char_codes content)) = content" by (simp add: fromCharCodes_def char_codes_def o_def)
  then have "local_onSave (JObj fields) = saveLocalConfig (JObj [(''config'', JStr (lc_raw c))])"
    using f(2) assms(4) by (simp add: local_onSave_def payload_field_def)
  then show ?thesis using f(1) by blast
qed

theorem local_save_unchanged_witness:
  "\<exists>payload. handleSubmit (\<lambda>_. Inr (JObj [])) (Some \<lparr>ep_id = None, ep_name = ''x'', ep_canonical = '''', ep_public = False, ep_raw = Some (btoa demo_hcl)\<rparr>)
      (run editor_step (editor_start True text_doc
         (Some \<lparr>ep_id = None, ep_name = ''x'', ep_canonical = '''', ep_public = False, ep_raw = Some (btoa demo_hcl)\<rparr>) demo_hcl) demo_events)
      (boot (\<lambda>_. None)) = (boot (\<lambda>_. None), Some payload)
    \<and> local_onSave payload = saveLocalConfig (JObj [(''config'', JStr (lc_raw \<lparr>lc_raw = btoa demo_hcl, lc_name = ''x''\<rparr>))])"
  by (rule local_save_unchanged [where vars = "JObj []" and es = demo_events and cm = True and create = text_doc and content = demo_hcl])
    (simp_all add: text_doc_keeps demo_hcl_no_CR LocalApp_def demo_events_def is_typing_def)




text \<open>
  The badge counts the errors filed under a block: an error in a text without one is marked in the text, and the
  badge stays dark.
\<close>

lemma error_without_badge:
  "(let ed = editor_step (editor_start True text_doc None ''x'') (Previewed (Inl \<lparr>er_error = Some ''bad'', er_message = None, er_string = ''''\<rparr>))
    in ed_diagnostics ed \<noteq> [] \<and> \<not> ed_hasErrors ed)"
  by code_simp


section \<open>Limits\<close>

text \<open>
  A resource has two labels, and the error of a line in it is filed under the first alone: its row in
  the panel is never marked.
\<close>

definition demo_resource :: string where
  "demo_resource = ''resource '' @ [quote] @ ''git'' @ [quote] @ '' '' @ [quote] @ ''repo'' @ [quote] @ '' { }''"

lemma resource_row_not_marked:
  "snd (error_diagnostics (text_doc demo_resource) ''pipeline.hcl:1,1-2: x'') = [error_key ''resource'' ''git'']"
  "map fst (block_matches ''resource'' demo_resource) = [''git.repo'']"
  by code_simp+

text \<open>The panel follows the text after half a second: until then an item can point behind its end.\<close>

lemma stale_item_throws:
  "clickBlock (Some 9) (editor_step (editor_start True text_doc None '''') (Typed (text_doc ''job''))) = None"
  by (simp add: clickBlock_def select_range_def editor_start_def editor_mount_def prefill_def editor_init_def updateBlocksPanel_def
      doc_changed_def Let_def text_doc_def)

end
