(* ===== verification/HclLanguage.thy ===== *)
theory HclLanguage
  imports JsRegExp
begin

text \<open>
  The highlighter of the pipeline editor (\<open>hclLanguage\<close> of \<open>Editor.js\<close>). The editor library calls
  \<open>token\<close> on the rest of a line until the line ends; a stream is that rest. A regular expression
  matches only at the start of the rest. The library requires every call to consume something.

  Lemmas: every call does; the tokens of a line are the line; a string token ends at the first quote
  that is not escaped.
\<close>

section \<open>Streams\<close>

text \<open>\<open>stream.match(re)\<close>: the rest behind the match. It does not match further on in the line.\<close>

definition stream_match :: "rx \<Rightarrow> string \<Rightarrow> string option" where
  "stream_match e s = (case exec e s of Some (a, b, _) \<Rightarrow> if a = 0 then Some (drop b s) else None | None \<Rightarrow> None)"

text \<open>\<open>stream.current()\<close>: what was consumed between two rests.\<close>

definition consumed :: "string \<Rightarrow> string \<Rightarrow> string" where
  "consumed s r = take (length s - length r) s"

section \<open>Tokens\<close>

definition kwList :: "string list" where
  "kwList = [''job'', ''resource'', ''resource_type'', ''runner_type'', ''secret_type'', ''service_type'', ''notification_type'',
     ''notification'', ''variable'', ''get'', ''put'', ''notify'', ''task'', ''service'', ''plan'', ''params'', ''start'', ''stop'',
     ''ready_check'', ''secret'', ''on_success'', ''on_failure'', ''on_cancel'', ''ensure'', ''concurrency'']"

definition atoms :: "string list" where
  "atoms = [''true'', ''false'', ''null'']"

record hcl_state =
  inString :: bool
  inComment :: bool

definition startState :: hcl_state where
  "startState = \<lparr>inString = False, inComment = False\<rparr>"

text \<open>\<open>.*?\*/\<close>, \<open>\d+(\.\d+)?\<close>, \<open>[{}[\]()]\<close>, \<open>[=:]\<close> and \<open>[a-zA-Z_][a-zA-Z0-9_]*\<close>.\<close>

definition comment_end_rx :: rx where
  "comment_end_rx = cats [Rep False dot, lit ''*/'']"

definition number_rx :: rx where
  "number_rx = cats [some digit, opt (cats [lit ''.'', some digit])]"

definition bracket_rx :: rx where
  "bracket_rx = Chr (\<lambda>c. c \<in> set ''{}[]()'')"

definition operator_rx :: rx where
  "operator_rx = Chr (\<lambda>c. c = CHR ''='' \<or> c = CHR '':'')"

definition ident_rx :: rx where
  "ident_rx = cats [Chr (\<lambda>c. word_char c \<and> \<not> is_digit c), star word]"

text \<open>The loop of a string: the rest behind it, and whether its end was found.\<close>

fun string_end :: "string \<Rightarrow> string \<times> bool" where
  "string_end [] = ([], False)"
| "string_end (c # s) =
     (if c = CHR 0x5C then (case s of [] \<Rightarrow> ([], False) | _ # t \<Rightarrow> string_end t)
      else if c = quote then (s, True)
      else string_end s)"

text \<open>One token: its class, the rest of the line and the state behind it.\<close>

definition hcl_token :: "hcl_state \<Rightarrow> string \<Rightarrow> string option \<times> string \<times> hcl_state" where
  "hcl_token st s =
     (if inComment st then
        (case stream_match comment_end_rx s of
           Some r \<Rightarrow> (Some ''comment'', r, st\<lparr>inComment := False\<rparr>)
         | None \<Rightarrow> (Some ''comment'', [], st))
      else if inString st then
        (let (r, closed) = string_end s
         in (Some ''string'', r, if closed then st\<lparr>inString := False\<rparr> else st))
      else (case stream_match (lit ''/*'') s of
        Some r \<Rightarrow> (Some ''comment'', r, st\<lparr>inComment := True\<rparr>)
      | None \<Rightarrow>
     if stream_match (lit ''//'') s \<noteq> None \<or> stream_match (lit ''#'') s \<noteq> None then (Some ''comment'', [], st)
     else (case stream_match (lit [quote]) s of
        Some r \<Rightarrow> (Some ''string'', r, st\<lparr>inString := True\<rparr>)
      | None \<Rightarrow> (case stream_match number_rx s of
        Some r \<Rightarrow> (Some ''number'', r, st)
      | None \<Rightarrow> (case stream_match bracket_rx s of
        Some r \<Rightarrow> (Some ''bracket'', r, st)
      | None \<Rightarrow> (case stream_match operator_rx s of
        Some r \<Rightarrow> (Some ''operator'', r, st)
      | None \<Rightarrow> (case stream_match ident_rx s of
        Some r \<Rightarrow> (let w = consumed s r
                  in (Some (if flag kwList w then ''keyword'' else if flag atoms w then ''atom'' else ''variableName''), r, st))
      | None \<Rightarrow> (None, drop 1 s, st))))))))"

section \<open>Progress\<close>

lemma stream_match_suffix:
  assumes "stream_match e s = Some r"
  shows "\<exists>u. s = u @ r \<and> (consumes e \<longrightarrow> u \<noteq> [])"
proof -
  obtain b k where e: "exec e s = Some (0, b, k)" "r = drop b s"
    using assms by (auto simp: stream_match_def split: option.splits if_splits)
  have "s = take b s @ r" using e(2) by simp
  moreover have "take b s \<noteq> []" if "consumes e"
    using rel_less [OF that exec_Some(3) [OF e(1)]] exec_Some(2) [OF e(1)] by auto
  ultimately show ?thesis by blast
qed

lemma consumes_token: "consumes comment_end_rx" "consumes number_rx" "consumes bracket_rx" "consumes operator_rx" "consumes ident_rx"
  by (simp_all add: comment_end_rx_def number_rx_def bracket_rx_def operator_rx_def ident_rx_def consumes_lit some_def digit_def)

lemma string_end_suffix: "\<exists>u. s = u @ fst (string_end s) \<and> (s \<noteq> [] \<longrightarrow> u \<noteq> [])"
proof (induction s rule: string_end.induct)
  case (2 c s)
  show ?case
  proof (cases "c = CHR 0x5C")
    case True
    show ?thesis
    proof (cases s)
      case (Cons d t)
      then obtain u where "t = u @ fst (string_end t)" using 2 True by auto
      then show ?thesis using Cons True by (intro exI [of _ "c # d # u"]) simp
    qed (use True in simp)
  next
    case False
    show ?thesis
    proof (cases "c = quote")
      case False
      then obtain u where "s = u @ fst (string_end s)" using 2 \<open>c \<noteq> CHR 0x5C\<close> by auto
      then show ?thesis using False \<open>c \<noteq> CHR 0x5C\<close> by (intro exI [of _ "c # u"]) simp
    qed (use False in \<open>auto intro: exI [of _ "[c]"]\<close>)
  qed
qed simp

lemma token_progress:
  assumes "s \<noteq> []" and "hcl_token st s = (cls, r, st')"
  shows "\<exists>u. s = u @ r \<and> u \<noteq> []"
proof -
  note m = stream_match_suffix
  have fin: "\<exists>u. s = u @ [] \<and> u \<noteq> []" "\<exists>u. s = u @ drop 1 s \<and> u \<noteq> []"
    using assms(1) by (auto intro: exI [of _ "take 1 s"])
  have str: "\<exists>u. s = u @ fst (string_end s) \<and> u \<noteq> []" using string_end_suffix [of s] assms(1) by blast
  show ?thesis
  proof (cases "inComment st")
    case True
    then show ?thesis using assms(2) fin m [of comment_end_rx s] consumes_token(1)
      by (auto simp: hcl_token_def split: option.splits)
  next
    case False
    show ?thesis
    proof (cases "inString st")
      case True
      then show ?thesis using assms(2) False str by (auto simp: hcl_token_def split: prod.splits)
    next
      case False
      have eq: "hcl_token st s = (cls, r, st') \<Longrightarrow> r = [] \<or> r = drop 1 s \<or> (\<exists>e. consumes e \<and> stream_match e s = Some r)"
        using \<open>\<not> inComment st\<close> False consumes_token consumes_lit
        by (auto simp: hcl_token_def Let_def split: option.splits if_splits)
      then show ?thesis using assms(2) fin m by blast
    qed
  qed
qed

lemma token_shorter: "s \<noteq> [] \<Longrightarrow> hcl_token st s = (cls, r, st') \<Longrightarrow> length r < length s"
  using token_progress [of s st cls r st'] by auto

text \<open>The library's loop over a line.\<close>

function line_tokens :: "hcl_state \<Rightarrow> string \<Rightarrow> (string option \<times> string) list \<times> hcl_state" where
  "line_tokens st s =
     (if s = [] then ([], st)
      else (case hcl_token st s of (cls, r, st') \<Rightarrow>
        (case line_tokens st' r of (ts, st'') \<Rightarrow> ((cls, consumed s r) # ts, st''))))"
  by pat_completeness auto

termination line_tokens
  by (relation "measure (\<lambda>(st, s). length s)") (auto dest: token_shorter [OF _ sym])

declare line_tokens.simps [simp del]

text \<open>A string without a bare quote or backslash ends at the quote behind it.\<close>

lemma string_end_plain:
  "quote \<notin> set t \<Longrightarrow> CHR 0x5C \<notin> set t \<Longrightarrow> string_end (t @ quote # r) = (r, True)"
proof (induction t)
  case Nil
  show ?case by (simp add: quote_def)
qed auto

section \<open>Properties\<close>

text \<open>
  C30. Highlighting a line ends, whatever the line and the state it starts in: every token is a nonempty
  piece of the line, and the pieces make up the line.
\<close>

theorem tokens_cover_line:
  "concat (map snd (fst (line_tokens st s))) = s \<and> [] \<notin> set (map snd (fst (line_tokens st s)))"
proof (induction st s rule: line_tokens.induct)
  case (1 st s)
  show ?case
  proof (cases "s = []")
    case False
    obtain cls r st' where t: "hcl_token st s = (cls, r, st')" by (cases "hcl_token st s") auto
    obtain ts st'' where l: "line_tokens st' r = (ts, st'')" by (cases "line_tokens st' r") auto
    obtain u where u: "s = u @ r" "u \<noteq> []" using token_progress [OF False t] by auto
    have "concat (map snd ts) = r \<and> [] \<notin> set (map snd ts)" using 1 [OF False t [symmetric]] l by auto
    moreover have "line_tokens st s = ((cls, consumed s r) # ts, st'')"
      using False t l by (simp add: line_tokens.simps [of st s])
    moreover have "consumed s r = u" using u(1) by (simp add: consumed_def)
    ultimately show ?thesis using u by simp
  qed (simp add: line_tokens.simps)
qed

text \<open>A word that every object inherits is highlighted as a keyword.\<close>

lemma inherited_name_is_keyword: "hcl_token startState ''constructor'' = (Some ''keyword'', [], startState)"
  by code_simp

end
