(* ===== verification/AppRoutes.thy ===== *)
theory AppRoutes
  imports WebUrl
begin

text \<open>
  The route table of \<open>app.js\<close> and the matching of \<open>preact-router.module.js\<close>, the router it uses: a URL loses
  its query and fragment, is split into segments, and goes to the first route that accepts it, in the order of
  ranks (a fixed segment before a parameter before an optional one), then of the table. Parameters are decoded;
  a malformed escape throws.

  Lemmas: the URLs the pages navigate to lead to the pages they mean, with the names as parameters, except that
  a team, a pipeline or a user called \<open>new\<close> leads to the form for a new one; every URL leads to a page.
\<close>

section \<open>The table\<close>

datatype page = LoginPage | TeamsViewPage | TeamNewPage | TeamShowPage | PipelineListPage | PipelineNewPage | PipelineShowPage
  | PipelineEditPage | PipelineSecretsPage | JobBuildsPage | ResourceVersionsPage | WorkersListPage | UsersListPage | UserNewPage
  | UserShowPage | ProfilePage | OAuthAdminPage | OAuthCallbackPage | OAuthCompleteProfilePage | NotFoundPage

text \<open>A child of the router: its path (\<open>None\<close>: it is marked \<open>default\<close>) and its component.\<close>

type_synonym route_entry = "string option \<times> page"

definition App_routes :: "route_entry list" where
  "App_routes =
     [(Some ''/login'', LoginPage), (Some ''/'', TeamsViewPage), (Some ''/teams'', TeamsViewPage), (Some ''/teams/new'', TeamNewPage),
      (Some ''/teams/:tc/:tab?'', TeamShowPage), (Some ''/teams/:tc/pipelines'', PipelineListPage), (Some ''/teams/:tc/pipelines/new'', PipelineNewPage),
      (Some ''/teams/:tc/pipelines/:pn'', PipelineShowPage), (Some ''/teams/:tc/pipelines/:pn/edit'', PipelineEditPage),
      (Some ''/teams/:tc/pipelines/:pn/secrets'', PipelineSecretsPage), (Some ''/teams/:tc/pipelines/:pn/jobs/:jn/builds/:bid?'', JobBuildsPage),
      (Some ''/teams/:tc/pipelines/:pn/resources/:rCan/versions'', ResourceVersionsPage), (Some ''/workers'', WorkersListPage),
      (Some ''/users'', UsersListPage), (Some ''/users/new'', UserNewPage), (Some ''/users/:username'', UserShowPage), (Some ''/profile'', ProfilePage),
      (Some ''/admin/auth'', OAuthAdminPage), (Some ''/auth/callback'', OAuthCallbackPage), (Some ''/auth/complete-profile'', OAuthCompleteProfilePage),
      (None, NotFoundPage)]"

text \<open>The default component goes to the start page.\<close>

definition NotFound_target :: "string \<times> bool" where
  "NotFound_target = (''/'', True)"

section \<open>Segments and ranks\<close>

definition segmentize :: "string \<Rightarrow> string list" where
  "segmentize s = split_on CHR ''/'' (rev (dropWhile (\<lambda>c. c = CHR ''/'') (rev (dropWhile (\<lambda>c. c = CHR ''/'') s))))"

definition is_param :: "string \<Rightarrow> bool" where
  "is_param s \<longleftrightarrow> (case s of c # _ \<Rightarrow> c = CHR '':'' | [] \<Rightarrow> False)"

text \<open>\<open>":" == n.charAt(0) ? 1 + "*+?".indexOf(last) || 4 : 5\<close>.\<close>

definition rank_segment :: "string \<Rightarrow> nat" where
  "rank_segment s =
     (if \<not> is_param s then 5
      else if last s = CHR ''*'' then 1 else if last s = CHR ''+'' then 2 else if last s = CHR ''?'' then 3 else 4)"

text \<open>The rank of a route is a string of digits, compared as strings; a default route has the number 0, below all of them.\<close>

definition route_rank :: "route_entry \<Rightarrow> nat list option" where
  "route_rank r = map_option (\<lambda>p. map rank_segment (segmentize p)) (fst r)"

fun below :: "nat list \<Rightarrow> nat list \<Rightarrow> bool" where
  "below xs [] = False"
| "below [] (y # ys) = True"
| "below (x # xs) (y # ys) = (x < y \<or> (x = y \<and> below xs ys))"

fun rank_below :: "nat list option \<Rightarrow> nat list option \<Rightarrow> bool" where
  "rank_below None (Some ys) = True"
| "rank_below (Some xs) (Some ys) = below xs ys"
| "rank_below x None = False"

definition route_cmp :: "nat \<times> route_entry \<Rightarrow> nat \<times> route_entry \<Rightarrow> int" where
  "route_cmp a b =
     (if rank_below (route_rank (snd a)) (route_rank (snd b)) then 1
      else if rank_below (route_rank (snd b)) (route_rank (snd a)) then -1
      else int (fst a) - int (fst b))"

section \<open>Matching\<close>

text \<open>
  \<open>decodeURIComponent\<close> on strings of bytes; \<open>None\<close>: it throws on a malformed escape. (It also throws on escapes
  that are not UTF-8, which the strings of the model cannot show.)
\<close>

fun well_escaped :: "string \<Rightarrow> bool" where
  "well_escaped [] = True"
| "well_escaped (c # s) =
     (if c = CHR ''%'' then (case s of a # b # t \<Rightarrow> hex_val a \<noteq> None \<and> hex_val b \<noteq> None \<and> well_escaped t | _ \<Rightarrow> False)
      else well_escaped s)"

definition decodeURIComponent :: "string \<Rightarrow> string option" where
  "decodeURIComponent s = (if well_escaped s then Some (pct_decode False s) else None)"

text \<open>
  The match of \<open>/(?:\?([^#]*))?(#.*)?$/\<close>: the text before it and its first group. A dot matches no line end, so
  a fragment with one is not cut off.
\<close>

definition one_line :: "string \<Rightarrow> bool" where
  "one_line s \<longleftrightarrow> (\<forall>c \<in> set s. (of_char c :: nat) \<notin> {10, 13})"

fun cut_query :: "string \<Rightarrow> string \<times> string" where
  "cut_query [] = ([], [])"
| "cut_query (c # s) =
     (if c = CHR ''?'' \<and> one_line (dropWhile (\<lambda>x. x \<noteq> CHR ''#'') s) then ([], takeWhile (\<lambda>x. x \<noteq> CHR ''#'') s)
      else if c = CHR ''#'' \<and> one_line s then ([], [])
      else (let (p, q) = cut_query s in (c # p, q)))"

datatype 'a attempt = Throws | Refuses | Accepts 'a

fun read_query :: "string list \<Rightarrow> params \<Rightarrow> params option" where
  "read_query [] u = Some u"
| "read_query (kv # kvs) u =
     (case (decodeURIComponent (takeWhile (\<lambda>c. c \<noteq> CHR ''='') kv), decodeURIComponent (drop 1 (dropWhile (\<lambda>c. c \<noteq> CHR ''='') kv))) of
        (Some k, Some v) \<Rightarrow> read_query kvs (obj_set u k v)
      | _ \<Rightarrow> None)"

definition param_flags :: "string \<Rightarrow> string" where
  "param_flags t = rev (takeWhile (\<lambda>c. c \<in> set ''+*?'') (rev t))"

definition param_name :: "string \<Rightarrow> string" where
  "param_name t = rev (dropWhile (\<lambda>c. c \<in> set ''+*?'') (rev (drop 1 t)))"

text \<open>The decoded values of all segments; \<open>None\<close>: one throws.\<close>

fun decode_all :: "string list \<Rightarrow> string list option" where
  "decode_all [] = Some []"
| "decode_all (s # ss) = (case (decodeURIComponent s, decode_all ss) of (Some d, Some ds) \<Rightarrow> Some (d # ds) | _ \<Rightarrow> None)"

text \<open>The loop over the segments of the URL and of the route; \<open>+\<close> and \<open>*\<close> take all that is left.\<close>

fun match_segments :: "string list \<Rightarrow> string list \<Rightarrow> params \<Rightarrow> params attempt" where
  "match_segments [] [] u = Accepts u"
| "match_segments (s # ss) [] u = Refuses"
| "match_segments ss (t # ts) u =
     (if is_param t
      then (let fl = param_flags t; rest = (CHR ''+'' \<in> set fl \<or> CHR ''*'' \<in> set fl);
                v = (case ss of s # _ \<Rightarrow> s | [] \<Rightarrow> '''') in
            if v = '''' \<and> CHR ''*'' \<notin> set fl \<and> (CHR ''?'' \<notin> set fl \<or> CHR ''+'' \<in> set fl) then Refuses
            else (case decodeURIComponent v of
                    None \<Rightarrow> Throws
                  | Some d \<Rightarrow>
                      if rest
                      then (case decode_all ss of None \<Rightarrow> Throws | Some ds \<Rightarrow> Accepts (obj_set u (param_name t) (join_with ''/'' ds)))
                      else match_segments (tl ss) ts (obj_set u (param_name t) d)))
      else (case ss of
              s # ss' \<Rightarrow> if t = s then match_segments ss' ts u else Refuses
            | [] \<Rightarrow> Refuses))"

text \<open>\<open>exec\<close>: a default route, which has no path, accepts with the parameters of the query.\<close>

definition router_exec :: "string \<Rightarrow> string option \<Rightarrow> params attempt" where
  "router_exec url path =
     (let (p, q) = cut_query url in
      case (if q = '''' then Some [] else read_query (split_on CHR ''&'' q) []) of
        None \<Rightarrow> Throws
      | Some u \<Rightarrow>
          (case match_segments (segmentize p) (segmentize (case path of Some r \<Rightarrow> r | None \<Rightarrow> '''')) u of
             Refuses \<Rightarrow> if path = None then Accepts u else Refuses
           | r \<Rightarrow> r))"

fun first_match :: "string \<Rightarrow> route_entry list \<Rightarrow> (page \<times> params) attempt" where
  "first_match url [] = Refuses"
| "first_match url (r # rs) =
     (case router_exec url (fst r) of
        Throws \<Rightarrow> Throws
      | Refuses \<Rightarrow> first_match url rs
      | Accepts u \<Rightarrow> Accepts (snd r, u))"

definition sorted_routes :: "route_entry list \<Rightarrow> route_entry list" where
  "sorted_routes rs = map snd (js_sort route_cmp (enumerate 0 rs))"

definition Router :: "route_entry list \<Rightarrow> string \<Rightarrow> (page \<times> params) attempt" where
  "Router rs url = first_match url (sorted_routes rs)"

section \<open>URLs of the pages\<close>

text \<open>A name that is one segment and means itself.\<close>

definition segment :: "string \<Rightarrow> bool" where
  "segment s \<longleftrightarrow> s \<noteq> '''' \<and> set s \<inter> set ''/?#%'' = {}"

lemma decode_plain: "CHR ''%'' \<notin> set s \<Longrightarrow> decodeURIComponent s = Some s"
proof -
  assume "CHR ''%'' \<notin> set s"
  then have "well_escaped s \<and> pct_decode False s = s" by (induction s) auto
  then show ?thesis by (simp add: decodeURIComponent_def)
qed

lemma cut_path: "set p \<inter> set ''?#'' = {} \<Longrightarrow> cut_query (p @ s) = (p @ fst (cut_query s), snd (cut_query s))"
  by (induction p) (auto simp: Let_def case_prod_unfold)

lemma cut_question: "CHR ''#'' \<notin> set s \<Longrightarrow> cut_query (CHR ''?'' # s) = ([], s)"
proof -
  assume "CHR ''#'' \<notin> set s"
  then have t: "takeWhile (\<lambda>x. x \<noteq> CHR ''#'') s = s" and d: "dropWhile (\<lambda>x. x \<noteq> CHR ''#'') s = []"
    by (auto simp: takeWhile_eq_all_conv dropWhile_eq_Nil_conv)
  show ?thesis unfolding cut_query.simps t d one_line_def by simp
qed

lemma segmentize_path:
  assumes "\<forall>s \<in> set ss. segment s" and "ss \<noteq> []"
  shows "segmentize (CHR ''/'' # join_with ''/'' ss) = ss" and "set (CHR ''/'' # join_with ''/'' ss) \<inter> set ''?#'' = {}"
proof -
  let ?t = "join_with ''/'' ss"
  have hd: "hd (join_with ''/'' xs) \<noteq> CHR ''/'' \<and> join_with ''/'' xs \<noteq> []" if "\<forall>s \<in> set xs. segment s" "xs \<noteq> []" for xs
    using that by (cases xs; cases "tl xs") (auto simp: segment_def join_with_Cons hd_append dest: hd_in_set)
  have last: "last (join_with ''/'' xs) \<noteq> CHR ''/''" if "\<forall>s \<in> set xs. segment s" "xs \<noteq> []" for xs
    using that
  proof (induction xs rule: induct_list012)
    case (2 x)
    then have "last x \<in> set x" "CHR ''/'' \<notin> set x" by (auto simp: segment_def)
    then show ?case by auto
  next
    case (3 x y zs)
    then show ?case using hd [of "y # zs"] by auto
  qed simp
  have "dropWhile (\<lambda>c. c = CHR ''/'') (CHR ''/'' # ?t) = ?t"
    using hd [OF assms] by (cases ?t) auto
  moreover have "dropWhile (\<lambda>c. c = CHR ''/'') (rev ?t) = rev ?t"
    using last [OF assms] hd [OF assms] by (cases ?t rule: rev_cases) auto
  moreover have "split_on CHR ''/'' ?t = ss"
    by (rule split_join) (use assms in \<open>auto simp: segment_def\<close>)
  ultimately show "segmentize (CHR ''/'' # ?t) = ss" by (simp only: segmentize_def rev_rev_ident)
  have "set (join_with ''/'' xs) \<inter> set ''?#'' = {}" if "\<forall>s \<in> set xs. segment s" for xs
    using that by (induction xs rule: induct_list012) (auto simp: segment_def)
  from this [OF assms(1)] show "set (CHR ''/'' # ?t) \<inter> set ''?#'' = {}" by auto
qed

text \<open>The routes in the order of the search, with their segments, and the search over segments.\<close>

definition routes_read :: "(string list option \<times> page) list" where
  "routes_read = map (\<lambda>r. (map_option segmentize (fst r), snd r)) (sorted_routes App_routes)"

fun walk :: "string list \<Rightarrow> params \<Rightarrow> (string list option \<times> page) list \<Rightarrow> (page \<times> params) attempt" where
  "walk ss u [] = Refuses"
| "walk ss u ((Some ts, pg) # rs) =
     (case match_segments ss ts u of Throws \<Rightarrow> Throws | Refuses \<Rightarrow> walk ss u rs | Accepts p \<Rightarrow> Accepts (pg, p))"
| "walk ss u ((None, pg) # rs) =
     (case match_segments ss [''''] u of Throws \<Rightarrow> Throws | Refuses \<Rightarrow> Accepts (pg, u) | Accepts p \<Rightarrow> Accepts (pg, p))"

lemma router_exec_read:
  assumes "cut_query url = (p, q)" and "(if q = '''' then Some [] else read_query (split_on CHR ''&'' q) []) = Some u"
  shows "router_exec url path = (case match_segments (segmentize p) (segmentize (case path of Some r \<Rightarrow> r | None \<Rightarrow> '''')) u of
     Refuses \<Rightarrow> if path = None then Accepts u else Refuses | r \<Rightarrow> r)"
  using assms(2) by (simp add: router_exec_def assms(1) del: read_query.simps)

lemma first_match_read:
  assumes "cut_query url = (p, q)" and "(if q = '''' then Some [] else read_query (split_on CHR ''&'' q) []) = Some u"
  shows "first_match url rs = walk (segmentize p) u (map (\<lambda>r. (map_option segmentize (fst r), snd r)) rs)"
proof (induction rs)
  case (Cons r rs)
  have e: "segmentize '''' = ['''']" by (simp add: segmentize_def)
  obtain path pg where "r = (path, pg)" by (cases r)
  then show ?case using Cons.IH by (cases path) (auto simp: router_exec_read [OF assms] e split: attempt.split)
qed simp

lemma Router_path:
  assumes "\<forall>s \<in> set ss. segment s" and "ss \<noteq> []"
  shows "Router App_routes (CHR ''/'' # join_with ''/'' ss) = walk ss [] routes_read"
proof -
  have "cut_query (CHR ''/'' # join_with ''/'' ss) = (CHR ''/'' # join_with ''/'' ss, [])"
    using cut_path [OF segmentize_path(2) [OF assms], of "[]"] by simp
  from first_match_read [OF this, of "[]"] show ?thesis
    by (simp add: Router_def routes_read_def segmentize_path(1) [OF assms])
qed

lemma Router_version:
  assumes "\<forall>s \<in> set ss. segment s" and "ss \<noteq> []" and "set v \<inter> set ''%&#'' = {}"
  shows "Router App_routes (CHR ''/'' # join_with ''/'' ss @ ''?version='' @ v) = walk ss [(''version'', v)] routes_read"
proof -
  have "CHR ''#'' \<notin> set (''version='' @ v)" using assms(3) by auto
  from cut_question [OF this] have "cut_query (''?version='' @ v) = ([], ''version='' @ v)" by (simp only: append_Cons append_Nil)
  then have c: "cut_query ((CHR ''/'' # join_with ''/'' ss) @ ''?version='' @ v) = (CHR ''/'' # join_with ''/'' ss, ''version='' @ v)"
    using cut_path [OF segmentize_path(2) [OF assms(1,2)], of "''?version='' @ v"] by simp
  have "CHR ''&'' \<notin> set (''version='' @ v)" using assms(3) by auto
  then have "split_on CHR ''&'' (''version='' @ v) = [''version='' @ v]" by (rule split_on_id)
  moreover have "decodeURIComponent ''version'' = Some ''version''" "decodeURIComponent v = Some v"
    using assms(3) by (auto intro!: decode_plain)
  ultimately have "read_query (split_on CHR ''&'' (''version='' @ v)) [] = Some [(''version'', v)]" by simp
  with first_match_read [OF c, of "[(''version'', v)]"] show ?thesis
    by (simp add: Router_def routes_read_def segmentize_path(1) [OF assms(1,2)])
qed

lemma routes_read_eq: "routes_read =
  [(Some [''teams'', ''new''], TeamNewPage), (Some [''users'', ''new''], UserNewPage), (Some [''admin'', ''auth''], OAuthAdminPage),
   (Some [''auth'', ''callback''], OAuthCallbackPage), (Some [''auth'', ''complete-profile''], OAuthCompleteProfilePage),
   (Some [''teams'', '':tc'', ''pipelines'', ''new''], PipelineNewPage),
   (Some [''teams'', '':tc'', ''pipelines'', '':pn'', ''jobs'', '':jn'', ''builds'', '':bid?''], JobBuildsPage),
   (Some [''teams'', '':tc'', ''pipelines'', '':pn'', ''resources'', '':rCan'', ''versions''], ResourceVersionsPage),
   (Some [''teams'', '':tc'', ''pipelines'', '':pn'', ''edit''], PipelineEditPage),
   (Some [''teams'', '':tc'', ''pipelines'', '':pn'', ''secrets''], PipelineSecretsPage),
   (Some [''teams'', '':tc'', ''pipelines'', '':pn''], PipelineShowPage), (Some [''teams'', '':tc'', ''pipelines''], PipelineListPage),
   (Some [''teams'', '':tc'', '':tab?''], TeamShowPage), (Some [''users'', '':username''], UserShowPage), (Some [''login''], LoginPage),
   (Some [''''], TeamsViewPage), (Some [''teams''], TeamsViewPage), (Some [''workers''], WorkersListPage), (Some [''users''], UsersListPage),
   (Some [''profile''], ProfilePage), (None, NotFoundPage)]"
  by code_simp

lemma params_read:
  "is_param '':tc''" "is_param '':tab?''" "is_param '':pn''" "is_param '':jn''" "is_param '':bid?''" "is_param '':rCan''" "is_param '':username''"
  "param_flags '':tc'' = ''''" "param_flags '':tab?'' = ''?''" "param_flags '':pn'' = ''''" "param_flags '':jn'' = ''''"
  "param_flags '':bid?'' = ''?''" "param_flags '':rCan'' = ''''" "param_flags '':username'' = ''''"
  "param_name '':tc'' = ''tc''" "param_name '':tab?'' = ''tab''" "param_name '':pn'' = ''pn''" "param_name '':jn'' = ''jn''"
  "param_name '':bid?'' = ''bid''" "param_name '':rCan'' = ''rCan''" "param_name '':username'' = ''username''"
  "\<not> is_param ''teams''" "\<not> is_param ''new''" "\<not> is_param ''users''" "\<not> is_param ''admin''" "\<not> is_param ''auth''" "\<not> is_param ''callback''"
  "\<not> is_param ''complete-profile''" "\<not> is_param ''pipelines''" "\<not> is_param ''jobs''" "\<not> is_param ''builds''" "\<not> is_param ''resources''"
  "\<not> is_param ''versions''" "\<not> is_param ''edit''" "\<not> is_param ''secrets''" "\<not> is_param ''login''" "\<not> is_param ''''" "\<not> is_param ''workers''"
  "\<not> is_param ''profile''"
  by code_simp+

lemma segment_facts: "segment s \<Longrightarrow> s \<noteq> ''''" "segment s \<Longrightarrow> decodeURIComponent s = Some s" "decodeURIComponent '''' = Some ''''"
  by (auto simp: segment_def intro!: decode_plain)

lemma words: "segment ''new''" "segment ''teams''" "segment ''pipelines''" "segment ''edit''" "segment ''secrets''" "segment ''jobs''"
    "segment ''builds''" "segment ''resources''" "segment ''versions''" "segment ''users''"
  by (simp_all add: segment_def)

lemma match_static:
  "\<not> is_param t \<Longrightarrow> match_segments (s # ss) (t # ts) u = (if s = t then match_segments ss ts u else Refuses)"
  "\<not> is_param t \<Longrightarrow> match_segments [] (t # ts) u = Refuses"
  by auto

lemma match_named:
  "is_param t \<Longrightarrow> param_flags t = '''' \<Longrightarrow> segment s \<Longrightarrow>
     match_segments (s # ss) (t # ts) u = match_segments ss ts (obj_set u (param_name t) s)"
  "is_param t \<Longrightarrow> param_flags t = '''' \<Longrightarrow> match_segments [] (t # ts) u = Refuses"
  by (simp_all add: segment_facts)

lemma match_optional:
  "is_param t \<Longrightarrow> param_flags t = ''?'' \<Longrightarrow> segment s \<Longrightarrow>
     match_segments (s # ss) (t # ts) u = match_segments ss ts (obj_set u (param_name t) s)"
  "is_param t \<Longrightarrow> param_flags t = ''?'' \<Longrightarrow> match_segments [] (t # ts) u = match_segments [] ts (obj_set u (param_name t) '''')"
  by (simp_all add: segment_facts)

lemmas walk_eval = routes_read_eq params_read words match_static match_named match_optional

lemma walk_names:
  assumes "segment tc" and "segment pn" and "segment x" and "segment y"
  shows "walk [''teams'', tc, ''pipelines''] [] routes_read = Accepts (PipelineListPage, [(''tc'', tc)])"
    and "walk [''teams'', tc, ''pipelines'', pn, ''edit''] [] routes_read = Accepts (PipelineEditPage, [(''tc'', tc), (''pn'', pn)])"
    and "walk [''teams'', tc, ''pipelines'', pn, ''secrets''] [] routes_read = Accepts (PipelineSecretsPage, [(''tc'', tc), (''pn'', pn)])"
    and "walk [''teams'', tc, ''pipelines'', pn, ''jobs'', x, ''builds''] [] routes_read =
      Accepts (JobBuildsPage, [(''tc'', tc), (''pn'', pn), (''jn'', x), (''bid'', '''')])"
    and "walk [''teams'', tc, ''pipelines'', pn, ''jobs'', x, ''builds'', y] [] routes_read =
      Accepts (JobBuildsPage, [(''tc'', tc), (''pn'', pn), (''jn'', x), (''bid'', y)])"
    and "walk [''teams'', tc, ''pipelines'', pn, ''resources'', x, ''versions''] [] routes_read =
      Accepts (ResourceVersionsPage, [(''tc'', tc), (''pn'', pn), (''rCan'', x)])"
    and "walk [''teams'', tc, ''pipelines'', pn] [] routes_read =
      Accepts (if pn = ''new'' then (PipelineNewPage, [(''tc'', tc)]) else (PipelineShowPage, [(''tc'', tc), (''pn'', pn)]))"
    and "walk [''teams'', tc, ''pipelines'', pn] [(''version'', v)] routes_read =
      Accepts (if pn = ''new'' then (PipelineNewPage, [(''version'', v), (''tc'', tc)])
               else (PipelineShowPage, [(''version'', v), (''tc'', tc), (''pn'', pn)]))"
    and "walk [''teams'', tc] [] routes_read =
      Accepts (if tc = ''new'' then (TeamNewPage, []) else (TeamShowPage, [(''tc'', tc), (''tab'', '''')]))"
    and "walk [''teams'', tc, x] [] routes_read =
      Accepts (if x = ''pipelines'' then (PipelineListPage, [(''tc'', tc)]) else (TeamShowPage, [(''tc'', tc), (''tab'', x)]))"
    and "walk [''users'', x] [] routes_read = Accepts (if x = ''new'' then (UserNewPage, []) else (UserShowPage, [(''username'', x)]))"
  by (simp_all add: walk_eval assms del: match_segments.simps(3))

lemma default_accepts: "Router App_routes url \<noteq> Refuses"
proof -
  have r: "router_exec url None \<noteq> Refuses" for url by (simp add: router_exec_def Let_def case_prod_unfold split: option.split attempt.split)
  have "first_match url (rs @ [(None, pg)]) \<noteq> Refuses" for rs pg
    using r [of url] by (induction rs) (auto split: attempt.split)
  moreover have "\<exists>rs pg. sorted_routes App_routes = rs @ [(None, pg)]"
  proof -
    have "sorted_routes App_routes = butlast (sorted_routes App_routes) @ [(None, NotFoundPage)]" by code_simp
    then show ?thesis by blast
  qed
  ultimately show ?thesis unfolding Router_def by metis
qed

lemma names_segments:
  assumes "segment tc" and "segment pn" and "segment x" and "segment y"
  shows "\<forall>s \<in> set [''teams'', tc]. segment s" "\<forall>s \<in> set [''teams'', tc, x]. segment s" "\<forall>s \<in> set [''users'', x]. segment s"
    "\<forall>s \<in> set [''teams'', tc, ''pipelines'']. segment s" "\<forall>s \<in> set [''teams'', tc, ''pipelines'', pn]. segment s"
    "\<forall>s \<in> set [''teams'', tc, ''pipelines'', pn, ''edit'']. segment s" "\<forall>s \<in> set [''teams'', tc, ''pipelines'', pn, ''secrets'']. segment s"
    "\<forall>s \<in> set [''teams'', tc, ''pipelines'', pn, ''jobs'', x, ''builds'']. segment s"
    "\<forall>s \<in> set [''teams'', tc, ''pipelines'', pn, ''jobs'', x, ''builds'', y]. segment s"
    "\<forall>s \<in> set [''teams'', tc, ''pipelines'', pn, ''resources'', x, ''versions'']. segment s"
  by (simp_all add: assms words)

text \<open>
  C33. The URLs the pages navigate to lead, through the matching of the router, to the pages they mean with the
  names as parameters (a pipeline with the version it is asked for as well), when a name is one non-empty segment
  without a slash, \<open>?\<close>, \<open>#\<close> or \<open>%\<close>; a team, a pipeline or a user called \<open>new\<close> leads to the form for a new one, and the
  tab \<open>pipelines\<close> of a team to its list. Whatever the URL, a page is shown or decoding it throws: none is refused.
\<close>

theorem urls_reach_pages:
  assumes "segment tc" and "segment pn" and "segment x" and "segment y" and "set v \<inter> set ''%&#'' = {}"
  shows "Router App_routes (''/teams/'' @ tc @ ''/pipelines'') = Accepts (PipelineListPage, [(''tc'', tc)])
    \<and> Router App_routes (''/teams/'' @ tc @ ''/pipelines/'' @ pn) =
        Accepts (if pn = ''new'' then (PipelineNewPage, [(''tc'', tc)]) else (PipelineShowPage, [(''tc'', tc), (''pn'', pn)]))
    \<and> Router App_routes (''/teams/'' @ tc @ ''/pipelines/'' @ pn @ ''?version='' @ v) =
        Accepts (if pn = ''new'' then (PipelineNewPage, [(''version'', v), (''tc'', tc)])
                 else (PipelineShowPage, [(''version'', v), (''tc'', tc), (''pn'', pn)]))
    \<and> Router App_routes (''/teams/'' @ tc @ ''/pipelines/'' @ pn @ ''/edit'') = Accepts (PipelineEditPage, [(''tc'', tc), (''pn'', pn)])
    \<and> Router App_routes (''/teams/'' @ tc @ ''/pipelines/'' @ pn @ ''/secrets'') = Accepts (PipelineSecretsPage, [(''tc'', tc), (''pn'', pn)])
    \<and> Router App_routes (''/teams/'' @ tc @ ''/pipelines/'' @ pn @ ''/jobs/'' @ x @ ''/builds'') =
        Accepts (JobBuildsPage, [(''tc'', tc), (''pn'', pn), (''jn'', x), (''bid'', '''')])
    \<and> Router App_routes (''/teams/'' @ tc @ ''/pipelines/'' @ pn @ ''/jobs/'' @ x @ ''/builds/'' @ y) =
        Accepts (JobBuildsPage, [(''tc'', tc), (''pn'', pn), (''jn'', x), (''bid'', y)])
    \<and> Router App_routes (''/teams/'' @ tc @ ''/pipelines/'' @ pn @ ''/resources/'' @ x @ ''/versions'') =
        Accepts (ResourceVersionsPage, [(''tc'', tc), (''pn'', pn), (''rCan'', x)])
    \<and> Router App_routes (''/teams/'' @ tc) = Accepts (if tc = ''new'' then (TeamNewPage, []) else (TeamShowPage, [(''tc'', tc), (''tab'', '''')]))
    \<and> Router App_routes (''/teams/'' @ tc @ ''/'' @ x) =
        Accepts (if x = ''pipelines'' then (PipelineListPage, [(''tc'', tc)]) else (TeamShowPage, [(''tc'', tc), (''tab'', x)]))
    \<and> Router App_routes (''/users/'' @ x) = Accepts (if x = ''new'' then (UserNewPage, []) else (UserShowPage, [(''username'', x)]))
    \<and> Router App_routes url \<noteq> Refuses"
proof -
  note seg = names_segments [OF assms(1-4)] and to = walk_names [OF assms(1-4)]
  note reach = seg(4) [THEN Router_path] seg(5) [THEN Router_path] seg(6) [THEN Router_path] seg(7) [THEN Router_path]
    seg(8) [THEN Router_path] seg(9) [THEN Router_path] seg(10) [THEN Router_path] seg(1) [THEN Router_path]
    seg(2) [THEN Router_path] seg(3) [THEN Router_path]
  have v: "Router App_routes (''/teams/'' @ tc @ ''/pipelines/'' @ pn @ ''?version='' @ v) = walk [''teams'', tc, ''pipelines'', pn] [(''version'', v)] routes_read"
    using Router_version [OF seg(5) _ assms(5)] by simp
  show ?thesis using reach v by (simp add: to default_accepts)
qed

theorem urls_reach_pages_witness:
  "Router App_routes ''/teams/a/pipelines'' = Accepts (PipelineListPage, [(''tc'', ''a'')])
    \<and> Router App_routes ''/teams/a/pipelines/new'' = Accepts (PipelineNewPage, [(''tc'', ''a'')])
    \<and> Router App_routes ''/teams/a/pipelines/new?version=7'' = Accepts (PipelineNewPage, [(''version'', ''7''), (''tc'', ''a'')])
    \<and> Router App_routes ''/teams/a/pipelines/new/edit'' = Accepts (PipelineEditPage, [(''tc'', ''a''), (''pn'', ''new'')])
    \<and> Router App_routes ''/teams/a/pipelines/new/jobs/j/builds/3'' = Accepts (JobBuildsPage, [(''tc'', ''a''), (''pn'', ''new''), (''jn'', ''j''), (''bid'', ''3'')])
    \<and> Router App_routes ''/teams/a/j'' = Accepts (TeamShowPage, [(''tc'', ''a''), (''tab'', ''j'')])
    \<and> Router App_routes ''/nowhere'' \<noteq> Refuses"
  using urls_reach_pages [of "''a''" "''new''" "''j''" "''3''" "''7''" "''/nowhere''"] by (simp add: segment_def)

end
