(* ===== verification/Spec2Isabelle.thy ===== *)
theory Spec2Isabelle
  imports PipelineShow Toasts SignIn PageFrame Workers Tokens OAuthAdmin Editor HclLanguage AppRoutes
begin

text \<open>
  \<^bold>\<open>The web client of PikoCI\<close> (\<open>src/pikoci/transport/http/assets/js/app\<close>), modelled and verified.

  PikoCI is a CI server; its browser client is a set of Preact components over a small core. The core
  keeps the session and the notice (\<open>state.js\<close>), sends requests and turns their failures into notices,
  toasts and logouts (\<open>api.js\<close>), and polls (\<open>hooks.js\<close>). The pages keep lists that they merge with the
  server's answers (builds, versions, pipelines), derive the job graph of a pipeline from its
  \<open>passed\<close> constraints (\<open>PipelineListView.js\<close>) and draw it (\<open>graph-zoom.js\<close>).

  \<^bold>\<open>Conventions.\<close> A component's state is a record; a handler is a function on it. A handler that awaits
  a request is split at the \<open>await\<close>: the first half returns the state and the request, the second half
  takes the answer, \<open>None\<close> (or a failed outcome) being a rejection. Requests, toasts and navigations
  that leave a component are values in its result. Views are trees of type \<open>html\<close> with the actions of
  their handlers, so that what a page offers is a property of a value. A JavaScript object is an
  association list in insertion order (\<open>jsobj\<close>); a lookup that would reach \<open>Object.prototype\<close> is written
  out where the code does it (\<open>flag\<close>, \<open>proto_keys\<close>). Strings are lists of characters of one byte.
  Numbers of the code are \<open>int\<close> or \<open>nat\<close>, so that a statement is about numbers JavaScript keeps exactly and writes in
  full; coordinates are \<open>real\<close>.

  \<^bold>\<open>Theories.\<close>
  \<^item> \<open>JsPrelude\<close>: objects, \<open>split\<close>, \<open>join\<close>, \<open>sort\<close>, decimal numbers, runs of a machine, and the
    interfaces: \<open>preserves\<close> (an invariant kept by every admissible event), \<open>keyed\<close> (lists updated by
    key), \<open>descending_by\<close> (a comparison function). Each is interpreted by the components that rely on it.
  \<^item> \<open>WebUrl\<close>: percent and form encoding, query strings, with their round trips.
  \<^item> \<open>AppState\<close> (\<open>state.js\<close>): session, storage, roles. Role checks follow the documented hierarchy of roles
    (\<open>inherits\<close>), for users with one membership per team; storage and memory stay in step.
  \<^item> \<open>ApiClient\<close>, \<open>Endpoints\<close> (\<open>api.js\<close>): one request with all its outcomes, the table of endpoints.
    What a failure may change, when it logs out, that a run of failing polls is reported at most once (and a
    rejected fetch not at all), and the round trips of the URLs built from names and parameters.
  \<^item> \<open>UtilFns\<close> (\<open>utils.js\<close>): durations, logs, sorting and choice of builds, labels of versions.
  \<^item> \<open>Hooks\<close> (\<open>hooks.js\<close>): the page guard, with its outcome in each case; polling as a step relation over timers, calls in flight and
    visibility, with what holds in every reachable state: nothing runs after unmount, a visible page
    keeps polling, one chain as long as visibility changes only between calls.
  \<^item> \<open>Toasts\<close> (\<open>toast.js\<close>): the toast queue and its timers.
  \<^item> \<open>PipelineChain\<close>, \<open>PipelineTree\<close>, \<open>PipelineListState\<close> (\<open>PipelineListView.js\<close>): the chain of a
    resource is the set of jobs reachable over \<open>passed\<close> links; its tree; drawing the tree ends and
    draws each reachable job, once; a chain with a cycle and no root draws nothing; selection, version scope and what is stored. The recursion of
    \<open>renderChildren\<close> is bounded by fuel: one unit per parent-child link is enough, because every
    nested call has marked a job that was not marked before (\<open>renderTree_draws_reachable\<close> includes that
    a result is returned). \<open>resolveChain\<close> is total by the number of unvisited jobs.
  \<^item> \<open>Html\<close>, \<open>BuildViews\<close>, \<open>JobBuilds\<close> (\<open>Jobs.js\<close>): the content of a build and what it offers to whom,
    and the list of builds with cursors, version filter, cap and trigger form. The initial load is split at its two
    awaits (the list, a single build); a submit counts as offered only while the form can be submitted.
  \<^item> \<open>PipelineGrid\<close> (\<open>PipelineList.js\<close>): the page of cards, its state in the URL, the pager.
  \<^item> \<open>ResourceVersions\<close> (\<open>Resources.js\<close>): the version list under the initial answer, which replaces it, polling
    and pagination, which keep it.
  \<^item> \<open>GraphZoom\<close> (\<open>graph-zoom.js\<close>): zoom, pan, pinch and fullscreen.
  \<^item> \<open>PipelineGraph\<close>, \<open>PipelineShow\<close> (\<open>PipelineGraph.js\<close>, \<open>PipelineShow.js\<close>): the post-processing of a drawn
    graph; the page of a pipeline with version tracking in the URL, its panels, the list view inside it and what it offers.
  \<^item> \<open>SignIn\<close> (\<open>app.js\<close>, \<open>Login.js\<close>, \<open>OAuthCallback.js\<close>, \<open>OAuthCompleteProfile.js\<close>): a login lands on a
    page that keeps the user, and the OAuth callback ends with a consistent session.
  \<^item> \<open>PageFrame\<close> (\<open>Layout.js\<close>): toasts on the page, header, breadcrumb.
  \<^item> \<open>Secrets\<close> (\<open>Secrets.js\<close>): merging implements the override of maps, the page does not depend on the
    values of secrets, and only well-formed new names are stored.
  \<^item> \<open>Workers\<close> (\<open>Workers.js\<close>), \<open>AuditLog\<close> and \<open>Teams\<close> (\<open>Teams.js\<close>): the list of workers; filters, query and
    pages of the audit log; teams, members and tabs. A team keeps an administrator, and only administrators
    are offered to manage its members.
  \<^item> \<open>Users\<close>, \<open>Tokens\<close> (\<open>Users.js\<close>): users, profile and password; the role of a token for a team is the lowest
    or one held there, whatever the order of answers and input; linked accounts.
  \<^item> \<open>JsRegExp\<close>: regular expressions as the client writes them, a backtracking matcher that tries its
    ways in the order of JavaScript, and their relational meaning; the matcher finds exactly its pairs.
  \<^item> \<open>HclErrors\<close> (\<open>utils.js\<close>, \<open>parseHCLErrors\<close>): errors of the pipeline parser as diagnostics; a printed error
    reads back to its line, columns and message (the line where a range ends is lost), a non-blank error always gives
    a diagnostic.
  \<^item> \<open>EditorText\<close>, \<open>HclLanguage\<close>, \<open>Editor\<close> (\<open>Editor.js\<close>, \<open>local-app.js\<close>), \<open>Base64\<close>: what the pipeline editor
    reads off its text, the highlighter, and the page with its state. Diagnostics lie in the document,
    an attribute found lies inside its block, highlighting a line ends, saving an unchanged file without carriage
    returns sends its bytes (a composition of \<open>atob\<close>, the events of the page and the payload).
  \<^item> \<open>AppRoutes\<close> (\<open>app.js\<close>, and the matching of \<open>preact-router.module.js\<close>): the route table and where the URLs of the
    pages lead.
  \<^item> \<open>OAuthAdmin\<close> (\<open>OAuthAdmin.js\<close>): authentication settings and providers; canonical names are slugs.

  \<^bold>\<open>Not modelled.\<close> The Go server and worker (another program, seen only through its answers), vendored
  scripts, style sheets, tests and documentation. Of the vendored scripts only the matching of the router is modelled. The
  text editor, the graph renderer and \<open>JSON.parse\<close> are arguments of the definitions that use them, with what is relied
  on as named hypotheses (\<open>doc_ok\<close>, a text without carriage returns is kept). Of \<open>Editor.js\<close> the
  colour themes and the list of extensions are data for the library. In the modelled pages: inline
  styles and icons, animation, focus and scrolling of DOM elements, the clipboard, and the rendering
  library itself.
\<close>

end
